(* ===== verification/PyStr.thy ===== *)
theory PyStr
  imports Prelude "HOL-Library.Sublist" "HOL-Library.Char_ord"
begin

text \<open>
  Python's \<open>str\<close> over the model's alphabet, and the string methods the code calls.

  A Python string is a sequence of code points.  The model's alphabet is one 8-bit \<open>char\<close> per
  code point: the codes below \<open>0x80\<close> are ASCII, and the codes from \<open>0x80\<close> on stand for the
  non-ASCII code points which the source itself writes in its patterns and literals (the table
  \<open>code_page\<close>).  So \<open>length\<close>, slicing and indexing count code points, as Python does.  Every
  character of the table is caseless, is neither alphanumeric nor white space, and is stable
  under NFKC; the remaining codes stand for further characters of that kind.  Text with other
  characters (accented letters, other scripts, compatibility forms) is outside the alphabet.
\<close>

section \<open>The alphabet\<close>

text \<open>
  The code points named by the source: rupee sign, right single quote, en dash, em dash,
  bullet, the zero-width block U+200B..U+200F, word joiner, byte order mark, variation selector,
  heart, check mark button, plus, thumbs up, folded hands, two smileys, party popper, round
  pushpin, house, key, house with garden, middle dot, two small squares, triangular bullet, arrowhead,
  two pointing hands, two arrows, light and heavy horizontal line, multiplication sign.
\<close>

definition code_page :: "(int \<times> char) list" where
  "code_page =
    [(0x20B9, CHR 0x80), (0x2019, CHR 0x81), (0x2013, CHR 0x82), (0x2014, CHR 0x83),
     (0x2022, CHR 0x84), (0x200B, CHR 0x85), (0x200C, CHR 0x86), (0x200D, CHR 0x87),
     (0x200E, CHR 0x88), (0x200F, CHR 0x89), (0x2060, CHR 0x8A), (0xFEFF, CHR 0x8B),
     (0xFE0F, CHR 0x8C), (0x2764, CHR 0x8D), (0x2705, CHR 0x8E), (0x2795, CHR 0x8F),
     (0x1F44D, CHR 0x90), (0x1F64F, CHR 0x91), (0x1F60A, CHR 0x92), (0x1F604, CHR 0x93),
     (0x1F389, CHR 0x94), (0x1F4CD, CHR 0x95), (0x1F3E0, CHR 0x96), (0x1F511, CHR 0x97),
     (0x1F3E1, CHR 0x98), (0x00B7, CHR 0x99), (0x25AA, CHR 0x9A), (0x25AB, CHR 0x9B),
     (0x2023, CHR 0x9C), (0x27A4, CHR 0x9D), (0x1F449, CHR 0x9E), (0x1F448, CHR 0x9F),
     (0x27A1, CHR 0xA0), (0x21AA, CHR 0xA1), (0x2500, CHR 0xA2), (0x2501, CHR 0xA3),
     (0x00D7, CHR 0xA4)]"

definition char_of_code_point :: "int \<Rightarrow> char" where
  "char_of_code_point n =
     (if n < 128 then char_of n
      else (case map_of code_page n of Some c \<Rightarrow> c | None \<Rightarrow> CHR 0xFF))"

section \<open>Character classes\<close>

abbreviation code :: "char \<Rightarrow> nat" where "code c \<equiv> of_char c"

definition is_digit :: "char \<Rightarrow> bool" where
  "is_digit c = (48 \<le> code c \<and> code c \<le> 57)"

definition is_lower :: "char \<Rightarrow> bool" where
  "is_lower c = (97 \<le> code c \<and> code c \<le> 122)"

definition is_upper :: "char \<Rightarrow> bool" where
  "is_upper c = (65 \<le> code c \<and> code c \<le> 90)"

definition is_alpha :: "char \<Rightarrow> bool" where
  "is_alpha c = (is_lower c \<or> is_upper c)"

text \<open>\<open>str.isspace\<close>, which is also the class \<open>\s\<close> of a \<open>str\<close> pattern.\<close>

definition is_space :: "char \<Rightarrow> bool" where
  "is_space c = (code c = 32 \<or> (9 \<le> code c \<and> code c \<le> 13) \<or> (28 \<le> code c \<and> code c \<le> 31))"

text \<open>The class \<open>\w\<close>.\<close>

definition is_word :: "char \<Rightarrow> bool" where
  "is_word c = (is_alpha c \<or> is_digit c \<or> c = CHR ''_'')"

text \<open>In ASCII the two cases of a letter differ in bit 5.\<close>

fun set_bit5 :: "bool \<Rightarrow> char \<Rightarrow> char" where
  "set_bit5 b (Char b0 b1 b2 b3 b4 b5 b6 b7) = Char b0 b1 b2 b3 b4 b b6 b7"

definition to_lower :: "char \<Rightarrow> char" where
  "to_lower c = (if is_upper c then set_bit5 True c else c)"

definition to_upper :: "char \<Rightarrow> char" where
  "to_upper c = (if is_lower c then set_bit5 False c else c)"

text \<open>The classes bit by bit, for evaluation.\<close>

lemma is_digit_code [code]:
  "is_digit (Char b0 b1 b2 b3 b4 b5 b6 b7) =
     (\<not> b7 \<and> \<not> b6 \<and> b5 \<and> b4 \<and> (b3 \<longrightarrow> \<not> b2 \<and> \<not> b1))"
  by (cases b0; cases b1; cases b2; cases b3; cases b4; cases b5; cases b6; cases b7)
    (simp_all add: is_digit_def)

lemma is_lower_code [code]:
  "is_lower (Char b0 b1 b2 b3 b4 b5 b6 b7) =
     (\<not> b7 \<and> b6 \<and> b5 \<and> (b0 \<or> b1 \<or> b2 \<or> b3 \<or> b4) \<and> (b4 \<and> b3 \<longrightarrow> \<not> b2 \<and> \<not> (b1 \<and> b0)))"
  by (cases b0; cases b1; cases b2; cases b3; cases b4; cases b5; cases b6; cases b7)
    (simp_all add: is_lower_def)

lemma is_upper_code [code]:
  "is_upper (Char b0 b1 b2 b3 b4 b5 b6 b7) =
     (\<not> b7 \<and> b6 \<and> \<not> b5 \<and> (b0 \<or> b1 \<or> b2 \<or> b3 \<or> b4) \<and> (b4 \<and> b3 \<longrightarrow> \<not> b2 \<and> \<not> (b1 \<and> b0)))"
  by (cases b0; cases b1; cases b2; cases b3; cases b4; cases b5; cases b6; cases b7)
    (simp_all add: is_upper_def)

lemma is_space_code [code]:
  "is_space (Char b0 b1 b2 b3 b4 b5 b6 b7) =
     (\<not> b7 \<and> \<not> b6 \<and>
      (if b5 then \<not> b4 \<and> \<not> b3 \<and> \<not> b2 \<and> \<not> b1 \<and> \<not> b0
       else if b4 then b3 \<and> b2
       else b3 \<and> (b2 \<and> \<not> b1 \<or> \<not> b2 \<and> (b1 \<or> b0))))"
  by (cases b0; cases b1; cases b2; cases b3; cases b4; cases b5; cases b6; cases b7)
    (simp_all add: is_space_def)

section \<open>String methods\<close>

definition lower :: "string \<Rightarrow> string" where
  "lower s = map to_lower s"

definition upper :: "string \<Rightarrow> string" where
  "upper s = map to_upper s"

text \<open>On this alphabet \<open>casefold\<close> is \<open>lower\<close>, and NFKC normalisation changes nothing.\<close>

definition casefold :: "string \<Rightarrow> string" where
  "casefold s = lower s"

definition nfkc :: "string \<Rightarrow> string" where
  "nfkc s = s"

definition lstrip_by :: "(char \<Rightarrow> bool) \<Rightarrow> string \<Rightarrow> string" where
  "lstrip_by p s = dropWhile p s"

definition rstrip_by :: "(char \<Rightarrow> bool) \<Rightarrow> string \<Rightarrow> string" where
  "rstrip_by p s = rev (dropWhile p (rev s))"

definition strip_by :: "(char \<Rightarrow> bool) \<Rightarrow> string \<Rightarrow> string" where
  "strip_by p s = rstrip_by p (lstrip_by p s)"

text \<open>\<open>s.strip()\<close>, and \<open>s.strip(cs)\<close>, \<open>s.rstrip(cs)\<close> with a set of characters.\<close>

definition strip :: "string \<Rightarrow> string" where
  "strip s = strip_by is_space s"

definition strip_chars :: "string \<Rightarrow> string \<Rightarrow> string" where
  "strip_chars cs s = strip_by (\<lambda>c. c \<in> set cs) s"

definition rstrip_chars :: "string \<Rightarrow> string \<Rightarrow> string" where
  "rstrip_chars cs s = rstrip_by (\<lambda>c. c \<in> set cs) s"

definition startswith :: "string \<Rightarrow> string \<Rightarrow> bool" where
  "startswith s p = prefix p s"

definition endswith :: "string \<Rightarrow> string \<Rightarrow> bool" where
  "endswith s p = suffix p s"

text \<open>\<open>p in s\<close> for strings.\<close>

fun contains :: "string \<Rightarrow> string \<Rightarrow> bool" where
  "contains [] p = (p = [])"
| "contains (c # s) p = (prefix p (c # s) \<or> contains s p)"

text \<open>\<open>s.replace(p, r)\<close> for a non-empty \<open>p\<close>: left to right, without overlaps.\<close>

fun replace_aux :: "nat \<Rightarrow> string \<Rightarrow> string \<Rightarrow> string \<Rightarrow> string" where
  "replace_aux k p r [] = []"
| "replace_aux (Suc k) p r (c # s) = replace_aux k p r s"
| "replace_aux 0 p r (c # s) =
     (if prefix p (c # s) then r @ replace_aux (length p - 1) p r s
      else c # replace_aux 0 p r s)"

definition replace :: "string \<Rightarrow> string \<Rightarrow> string \<Rightarrow> string" where
  "replace p r s = replace_aux 0 p r s"

text \<open>\<open>s.split()\<close>: maximal runs of characters that are not white space.\<close>

fun split_ws_aux :: "string \<Rightarrow> string \<Rightarrow> string list" where
  "split_ws_aux w [] = (if w = [] then [] else [rev w])"
| "split_ws_aux w (c # s) =
     (if is_space c then (if w = [] then split_ws_aux [] s else rev w # split_ws_aux [] s)
      else split_ws_aux (c # w) s)"

definition split_ws :: "string \<Rightarrow> string list" where
  "split_ws s = split_ws_aux [] s"

text \<open>\<open>s.split(c)\<close> for a one-character separator, \<open>s.splitlines()\<close> and \<open>sep.join(xs)\<close>.\<close>

fun split_on_aux :: "char \<Rightarrow> string \<Rightarrow> string \<Rightarrow> string list" where
  "split_on_aux d w [] = [rev w]"
| "split_on_aux d w (c # s) =
     (if c = d then rev w # split_on_aux d [] s else split_on_aux d (c # w) s)"

definition split_on :: "char \<Rightarrow> string \<Rightarrow> string list" where
  "split_on d s = split_on_aux d [] s"

definition is_line_break :: "char \<Rightarrow> bool" where
  "is_line_break c =
     (c \<in> {CHR 0x0A, CHR 0x0B, CHR 0x0C, CHR 0x0D, CHR 0x1C, CHR 0x1D, CHR 0x1E})"

text \<open>The flag says that the character before was a carriage return: the line feed of a
  CR LF pair ends no further line.\<close>

fun splitlines_aux :: "bool \<Rightarrow> string \<Rightarrow> string \<Rightarrow> string list" where
  "splitlines_aux cr w [] = (if w = [] then [] else [rev w])"
| "splitlines_aux cr w (c # s) =
     (if cr \<and> c = CHR 0x0A then splitlines_aux False [] s
      else if is_line_break c then rev w # splitlines_aux (c = CHR 0x0D) [] s
      else splitlines_aux False (c # w) s)"

definition splitlines :: "string \<Rightarrow> string list" where
  "splitlines s = splitlines_aux False [] s"

fun join :: "string \<Rightarrow> string list \<Rightarrow> string" where
  "join sep [] = []"
| "join sep [x] = x"
| "join sep (x # y # xs) = x @ sep @ join sep (y # xs)"

text \<open>\<open>s.isupper()\<close> and \<open>s.title()\<close>.\<close>

definition isupper :: "string \<Rightarrow> bool" where
  "isupper s = (list_ex is_upper s \<and> \<not> list_ex is_lower s)"

fun title_aux :: "bool \<Rightarrow> string \<Rightarrow> string" where
  "title_aux prev [] = []"
| "title_aux prev (c # s) =
     (if prev then to_lower c else to_upper c) # title_aux (is_alpha c) s"

definition title :: "string \<Rightarrow> string" where
  "title s = title_aux False s"

section \<open>Printing and reading integers\<close>

definition digit_char :: "int \<Rightarrow> char" where
  "digit_char d = char_of (48 + d)"

function show_nat :: "int \<Rightarrow> string" where
  "show_nat n =
     (if n < 10 then [digit_char n] else show_nat (n div 10) @ [digit_char (n mod 10)])"
  by pat_completeness auto
termination
  by (relation "measure nat") auto

declare show_nat.simps [simp del]

definition show_int :: "int \<Rightarrow> string" where
  "show_int i = (if i < 0 then CHR ''-'' # show_nat (- i) else show_nat i)"

definition digit_val :: "char \<Rightarrow> int" where
  "digit_val c = of_char c - 48"

definition int_of_digits :: "string \<Rightarrow> int" where
  "int_of_digits s = foldl (\<lambda>n c. 10 * n + digit_val c) 0 s"

section \<open>Facts\<close>

lemma set_bit5_not_upper: "is_upper c \<Longrightarrow> \<not> is_upper (set_bit5 True c)"
  by (cases c) (simp add: is_upper_code)

lemma to_lower_idem [simp]: "to_lower (to_lower c) = to_lower c"
  by (simp add: to_lower_def set_bit5_not_upper)

lemma is_digit_to_lower [simp]: "is_digit (to_lower c) = is_digit c"
  by (cases c) (auto simp: to_lower_def is_digit_code is_upper_code)

lemma is_digit_to_upper [simp]: "is_digit (to_upper c) = is_digit c"
  by (cases c) (auto simp: to_upper_def is_digit_code is_lower_code)

lemma is_digit_not_space [simp]: "is_digit c \<Longrightarrow> \<not> is_space c"
  by (cases c) (auto simp: is_digit_code is_space_code)

lemma to_lower_digit [simp]: "is_digit c \<Longrightarrow> to_lower c = c"
  by (cases c) (auto simp: to_lower_def is_digit_code is_upper_code)

lemma lower_idem [simp]: "lower (lower s) = lower s"
  by (simp add: lower_def)

lemma casefold_idem [simp]: "casefold (casefold s) = casefold s"
  by (simp add: casefold_def)

lemma length_lower [simp]: "length (lower s) = length s"
  by (simp add: lower_def)

lemma lower_Nil_iff [simp]: "lower s = [] \<longleftrightarrow> s = []"
  by (simp add: lower_def)

lemma strip_by_id: "\<forall>c \<in> set s. \<not> p c \<Longrightarrow> strip_by p s = s"
proof -
  assume h: "\<forall>c \<in> set s. \<not> p c"
  then have "dropWhile p s = s" by (auto simp: dropWhile_eq_self_iff)
  moreover have "dropWhile p (rev s) = rev s"
    using h by (auto simp: dropWhile_eq_self_iff hd_rev)
  ultimately show ?thesis by (simp add: strip_by_def rstrip_by_def lstrip_by_def)
qed

lemma strip_by_sublist: "sublist (strip_by p s) s"
proof -
  have "suffix (dropWhile p s) s" by (rule suffix_dropWhile)
  moreover have "prefix (rev (dropWhile p (rev t))) t" for t
    using suffix_dropWhile [of p "rev t"] by (simp add: suffix_to_prefix)
  ultimately show ?thesis
    unfolding strip_by_def rstrip_by_def lstrip_by_def
    by (meson prefix_imp_sublist sublist_order.order_trans suffix_imp_sublist)
qed

lemma strip_sublist: "sublist (strip s) s"
  by (simp add: strip_def strip_by_sublist)

lemma strip_by_idem [simp]: "strip_by p (strip_by p s) = strip_by p s"
proof -
  define t where "t = dropWhile p s"
  define u where "u = rev (dropWhile p (rev t))"
  have "dropWhile p u = u"
  proof (cases u)
    case (Cons c v)
    obtain w where t: "t = u @ w"
      using suffix_dropWhile [of p "rev t"] by (auto simp: u_def suffix_def rev_swap dest: arg_cong [where f = rev])
    with Cons have "t \<noteq> []" "hd t = c" by simp_all
    then have "\<not> p c" unfolding t_def using hd_dropWhile by metis
    with Cons show ?thesis by simp
  qed simp
  moreover have "rev (dropWhile p (rev u)) = u" by (simp add: u_def)
  ultimately show ?thesis by (simp add: strip_by_def rstrip_by_def lstrip_by_def flip: t_def u_def)
qed

lemma strip_idem [simp]: "strip (strip s) = strip s"
  by (simp add: strip_def)

lemma digit_val_nonneg: "is_digit c \<Longrightarrow> 0 \<le> digit_val c"
proof -
  assume "is_digit c"
  then have "48 \<le> int (code c)" by (simp add: is_digit_def)
  then show "0 \<le> digit_val c" unfolding digit_val_def of_nat_of_char by simp
qed

lemma int_of_digits_nonneg: "\<forall>c \<in> set s. is_digit c \<Longrightarrow> 0 \<le> int_of_digits s"
proof -
  have "\<forall>c \<in> set s. is_digit c \<Longrightarrow> 0 \<le> n \<Longrightarrow> 0 \<le> foldl (\<lambda>n c. 10 * n + digit_val c) n s" for n
    by (induction s arbitrary: n) (simp_all add: digit_val_nonneg)
  then show "\<forall>c \<in> set s. is_digit c \<Longrightarrow> 0 \<le> int_of_digits s" by (simp add: int_of_digits_def)
qed

text \<open>What is left after a replacement: the characters of the replacement and the old ones, and
  no occurrence of a replaced character.\<close>

lemma replace1: "replace [x] r s = concat (map (\<lambda>c. if c = x then r else [c]) s)"
  by (simp add: replace_def, induction s) auto

lemma set_replace1: "set (replace [x] r s) = (if x \<in> set s then set r else {}) \<union> (set s - {x})"
  by (auto simp: replace1 split: if_splits)

lemma contains_iff: "contains s p \<longleftrightarrow> sublist p s"
proof (induction s)
  case Nil
  then show ?case by simp
next
  case (Cons c s)
  then show ?case by (simp add: sublist_Cons_right)
qed

lemma strip_by_Nil [simp]: "strip_by p [] = []"
  by (simp add: strip_by_def rstrip_by_def lstrip_by_def)

lemma strip_Nil [simp]: "strip [] = []"
  by (simp add: strip_def)

lemma strip_by_all: "strip_by p s = [] \<longleftrightarrow> (\<forall>c \<in> set s. p c)"
proof -
  have "strip_by p s = [] \<longleftrightarrow> (\<forall>c \<in> set (dropWhile p s). p c)"
    by (simp add: strip_by_def rstrip_by_def lstrip_by_def)
  also have "\<dots> \<longleftrightarrow> (\<forall>c \<in> set s. p c)"
  proof
    assume h: "\<forall>c \<in> set (dropWhile p s). p c"
    show "\<forall>c \<in> set s. p c"
    proof
      fix c
      assume "c \<in> set s"
      then have "c \<in> set (takeWhile p s @ dropWhile p s)" by simp
      then show "p c" using h by (auto dest: set_takeWhileD simp del: takeWhile_dropWhile_id)
    qed
  qed (auto dest: set_dropWhileD)
  finally show ?thesis .
qed

end
