(* ===== verification/PyFloat.thy ===== *)
theory PyFloat
  imports PyStr
begin

text \<open>
  Python's \<open>float\<close>: IEEE 754 binary64 with rounding to nearest, ties to even, subnormal numbers
  and infinities.  A finite value is the rational it denotes; \<open>rnd\<close> is the rounding of an exact
  result to the nearest double.  The sign of zero is not modelled.
\<close>

section \<open>Floor and ceiling of a quotient of numerals\<close>

lemma floor_numeral_quotient [simp]:
  "\<lfloor>numeral a / numeral b :: rat\<rfloor> = numeral a div numeral b"
  "\<lfloor>1 / numeral b :: rat\<rfloor> = 1 div numeral b"
  using floor_divide_of_int_eq [where 'a = rat, of "numeral a" "numeral b"]
    floor_divide_of_int_eq [where 'a = rat, of 1 "numeral b"] by simp_all

lemma ceiling_numeral_quotient [simp]:
  "\<lceil>numeral a / numeral b :: rat\<rceil> = - (- numeral a div numeral b)"
  "\<lceil>1 / numeral b :: rat\<rceil> = - (- 1 div numeral b)"
  using floor_divide_of_int_eq [where 'a = rat, of "- numeral a" "numeral b"]
    floor_divide_of_int_eq [where 'a = rat, of "- 1" "numeral b"] by (simp_all add: ceiling_def)

section \<open>Rounding\<close>

datatype pyfloat = Fin rat | PInf | NInf | NaN

definition pow2 :: "int \<Rightarrow> rat" where
  "pow2 e = (if 0 \<le> e then 2 ^ nat e else 1 / 2 ^ nat (- e))"

text \<open>The number of bits of a non-negative integer.\<close>

function blen :: "int \<Rightarrow> int" where
  "blen n = (if n \<le> 0 then 0 else blen (n div 2) + 1)"
  by pat_completeness auto
termination
  by (relation "measure nat") auto

declare blen.simps [simp del]

text \<open>The binary logarithm of a positive rational, rounded down.\<close>

definition ilog2 :: "rat \<Rightarrow> int" where
  "ilog2 x = (if 1 \<le> x then blen \<lfloor>x\<rfloor> - 1 else - blen (\<lceil>1 / x\<rceil> - 1))"

text \<open>Rounding to the nearest integer, ties to even, as \<open>round(x)\<close> of Python does too.\<close>

definition round_even :: "rat \<Rightarrow> int" where
  "round_even y =
     (let f = \<lfloor>y\<rfloor>; d = y - of_int f
      in if d < 1 / 2 then f else if 1 / 2 < d then f + 1 else if even f then f else f + 1)"

definition ulp_exp :: "rat \<Rightarrow> int" where
  "ulp_exp x = max (ilog2 x - 52) (-1074)"

definition rnd_pos :: "rat \<Rightarrow> rat" where
  "rnd_pos x = of_int (round_even (x / pow2 (ulp_exp x))) * pow2 (ulp_exp x)"

definition rnd :: "rat \<Rightarrow> pyfloat" where
  "rnd x =
     (if x = 0 then Fin 0
      else if 0 < x then (if pow2 1024 \<le> rnd_pos x then PInf else Fin (rnd_pos x))
      else (if pow2 1024 \<le> rnd_pos (- x) then NInf else Fin (- rnd_pos (- x))))"

section \<open>Arithmetic and comparison\<close>

fun fneg :: "pyfloat \<Rightarrow> pyfloat" where
  "fneg (Fin x) = Fin (- x)"
| "fneg PInf = NInf"
| "fneg NInf = PInf"
| "fneg NaN = NaN"

fun fadd :: "pyfloat \<Rightarrow> pyfloat \<Rightarrow> pyfloat" where
  "fadd (Fin x) (Fin y) = rnd (x + y)"
| "fadd NaN _ = NaN"
| "fadd _ NaN = NaN"
| "fadd PInf NInf = NaN"
| "fadd NInf PInf = NaN"
| "fadd PInf _ = PInf"
| "fadd _ PInf = PInf"
| "fadd NInf _ = NInf"
| "fadd _ NInf = NInf"

definition fsub :: "pyfloat \<Rightarrow> pyfloat \<Rightarrow> pyfloat" where
  "fsub a b = fadd a (fneg b)"

definition inf_of :: "bool \<Rightarrow> pyfloat" where
  "inf_of pos = (if pos then PInf else NInf)"

text \<open>The sign of a value: of an infinity, its side; NaN has none and is handled before.\<close>

fun fsign :: "pyfloat \<Rightarrow> int" where
  "fsign (Fin x) = (if 0 < x then 1 else if x < 0 then -1 else 0)"
| "fsign PInf = 1"
| "fsign NInf = -1"
| "fsign NaN = 0"

definition fmul :: "pyfloat \<Rightarrow> pyfloat \<Rightarrow> pyfloat" where
  "fmul a b =
     (case (a, b) of
        (Fin x, Fin y) \<Rightarrow> rnd (x * y)
      | (NaN, _) \<Rightarrow> NaN
      | (_, NaN) \<Rightarrow> NaN
      | _ \<Rightarrow> (if fsign a * fsign b = 0 then NaN else inf_of (0 < fsign a * fsign b)))"

text \<open>Division; the callers handle a zero divisor, for which Python raises.\<close>

definition fdiv :: "pyfloat \<Rightarrow> pyfloat \<Rightarrow> pyfloat" where
  "fdiv a b =
     (case (a, b) of
        (Fin x, Fin y) \<Rightarrow> rnd (x / y)
      | (NaN, _) \<Rightarrow> NaN
      | (_, NaN) \<Rightarrow> NaN
      | (Fin x, _) \<Rightarrow> Fin 0
      | (_, Fin y) \<Rightarrow> inf_of (fsign a * (if y < 0 then -1 else 1) = 1)
      | _ \<Rightarrow> NaN)"

fun fabs :: "pyfloat \<Rightarrow> pyfloat" where
  "fabs (Fin x) = Fin \<bar>x\<bar>"
| "fabs NaN = NaN"
| "fabs _ = PInf"

text \<open>Comparisons are false when an operand is NaN.\<close>

fun flt :: "pyfloat \<Rightarrow> pyfloat \<Rightarrow> bool" where
  "flt (Fin x) (Fin y) = (x < y)"
| "flt NaN _ = False"
| "flt _ NaN = False"
| "flt NInf NInf = False"
| "flt NInf _ = True"
| "flt _ NInf = False"
| "flt PInf _ = False"
| "flt _ PInf = True"

fun feq :: "pyfloat \<Rightarrow> pyfloat \<Rightarrow> bool" where
  "feq NaN _ = False"
| "feq _ NaN = False"
| "feq x y = (x = y)"

definition fle :: "pyfloat \<Rightarrow> pyfloat \<Rightarrow> bool" where
  "fle x y = (flt x y \<or> feq x y)"

text \<open>\<open>max(a, b)\<close> and \<open>min(a, b)\<close> of Python: the first argument unless the second beats it.\<close>

definition fmax :: "pyfloat \<Rightarrow> pyfloat \<Rightarrow> pyfloat" where
  "fmax a b = (if flt a b then b else a)"

definition fmin :: "pyfloat \<Rightarrow> pyfloat \<Rightarrow> pyfloat" where
  "fmin a b = (if flt b a then b else a)"

definition is_finite :: "pyfloat \<Rightarrow> bool" where
  "is_finite x = (case x of Fin _ \<Rightarrow> True | _ \<Rightarrow> False)"

text \<open>A float literal of the source, and \<open>float(n)\<close> of an integer that does not overflow.\<close>

definition flit :: "rat \<Rightarrow> pyfloat" where
  "flit x = rnd x"

definition fint :: "int \<Rightarrow> pyfloat" where
  "fint n = rnd (of_int n)"

text \<open>\<open>round(x, d)\<close>: the double nearest to the decimal with \<open>d\<close> places nearest to \<open>x\<close>.\<close>

fun fround :: "nat \<Rightarrow> pyfloat \<Rightarrow> pyfloat" where
  "fround d (Fin x) = rnd (of_int (round_even (x * 10 ^ d)) / 10 ^ d)"
| "fround d x = x"


section \<open>Facts about rounding\<close>

lemma pow2_pos [simp]: "0 < pow2 e"
  by (simp add: pow2_def)

lemma pow2_powi: "pow2 e = 2 powi e"
  by (simp add: pow2_def power_int_def field_simps)

lemma pow2_add: "pow2 (a + b) = pow2 a * pow2 b"
  by (simp add: pow2_powi power_int_add)

lemma pow2_mono: "a \<le> b \<Longrightarrow> pow2 a \<le> pow2 b"
  by (simp add: pow2_powi power_int_increasing)

lemma pow2_less: "pow2 a < pow2 b \<longleftrightarrow> a < b"
proof
  assume "pow2 a < pow2 b"
  then show "a < b" using pow2_mono [of b a] by (cases "a < b") auto
next
  assume "a < b"
  then show "pow2 a < pow2 b" by (simp add: pow2_powi power_int_strict_increasing)
qed

lemma pow2_minus: "pow2 (- e) = 1 / pow2 e"
  by (simp add: pow2_powi power_int_minus field_simps)

lemma blen_bounds: "0 < n \<Longrightarrow> 0 < blen n \<and> pow2 (blen n - 1) \<le> of_int n \<and> of_int n < pow2 (blen n)"
proof (induction n rule: blen.induct)
  case (1 n)
  show ?case
  proof (cases "n = 1")
    case True
    then show ?thesis by (simp add: blen.simps pow2_def)
  next
    case False
    with "1.prems" have d: "0 < n div 2" by auto
    then have IH: "0 < blen (n div 2)" "pow2 (blen (n div 2) - 1) \<le> of_int (n div 2)"
      "of_int (n div 2) < pow2 (blen (n div 2))" using "1.IH" "1.prems" by auto
    have b: "blen n = blen (n div 2) + 1" using "1.prems" by (simp add: blen.simps [of n])
    have lo: "pow2 (blen n - 1) = 2 * pow2 (blen (n div 2) - 1)"
      using pow2_add [of 1 "blen (n div 2) - 1"] by (simp add: b pow2_def [of 1])
    have hi: "pow2 (blen n) = 2 * pow2 (blen (n div 2))"
      using pow2_add [of 1 "blen (n div 2)"] by (simp add: b pow2_def [of 1] add.commute)
    define k where "k = (2::int) ^ nat (blen (n div 2))"
    have k: "pow2 (blen (n div 2)) = of_int k"
      using IH(1) by (simp add: pow2_def k_def)
    with IH(3) have "n div 2 < k" by simp
    then have "n < 2 * k" by presburger
    then have "(of_int n :: rat) < of_int (2 * k)" by (simp only: of_int_less_iff)
    moreover have "(of_int (2 * (n div 2)) :: rat) \<le> of_int n" by (simp only: of_int_le_iff)
    ultimately show ?thesis using IH lo hi b k by simp
  qed
qed

lemma ilog2_bounds:
  assumes "0 < x"
  shows "pow2 (ilog2 x) \<le> x \<and> x < pow2 (ilog2 x + 1)"
proof (cases "1 \<le> x")
  case True
  define n where "n = \<lfloor>x\<rfloor>"
  have n: "0 < n" "of_int n \<le> x" "x < of_int n + 1"
    using True floor_correct [of x] by (auto simp: n_def le_floor_iff)
  have b: "0 < blen n" "pow2 (blen n - 1) \<le> of_int n" "of_int n < pow2 (blen n)"
    using blen_bounds [OF n(1)] by auto
  define k where "k = (2::int) ^ nat (blen n)"
  have k: "pow2 (blen n) = of_int k" using b(1) by (simp add: pow2_def k_def)
  with b(3) have "n + 1 \<le> k" by simp
  then have "(of_int (n + 1) :: rat) \<le> of_int k" by (simp only: of_int_le_iff)
  with n b k True show ?thesis by (simp add: ilog2_def flip: n_def)
next
  case False
  define n where "n = \<lceil>1 / x\<rceil> - 1"
  have inv: "1 < 1 / x" using False assms by simp
  have n: "0 < n" "of_int n < 1 / x" "1 / x \<le> of_int n + 1"
  proof -
    show "0 < n" using inv by (simp add: n_def less_ceiling_iff)
    show "of_int n < 1 / x" by (simp add: n_def) linarith
    show "1 / x \<le> of_int n + 1" by (simp add: n_def)
  qed
  have b: "0 < blen n" "pow2 (blen n - 1) \<le> of_int n" "of_int n < pow2 (blen n)"
    using blen_bounds [OF n(1)] by auto
  define k where "k = (2::int) ^ nat (blen n)"
  have k: "pow2 (blen n) = of_int k" using b(1) by (simp add: pow2_def k_def)
  with b(3) have "n + 1 \<le> k" by simp
  then have "(of_int (n + 1) :: rat) \<le> of_int k" by (simp only: of_int_le_iff)
  with n(3) k have "1 / x \<le> pow2 (blen n)" by simp
  moreover have "pow2 (blen n - 1) < 1 / x" using b(2) n(2) by simp
  ultimately have "pow2 (- blen n) \<le> x" "x < pow2 (- (blen n - 1))"
    using assms pow2_pos [of "blen n"] pow2_pos [of "blen n - 1"]
    by (simp_all only: pow2_minus) (simp_all add: field_simps)
  with False show ?thesis by (simp add: ilog2_def add.commute flip: n_def)
qed

lemma ilog2_mono: "0 < x \<Longrightarrow> x \<le> y \<Longrightarrow> ilog2 x \<le> ilog2 y"
proof -
  assume "0 < x" "x \<le> y"
  then have "pow2 (ilog2 x) < pow2 (ilog2 y + 1)"
    using ilog2_bounds [of x] ilog2_bounds [of y] by linarith
  then show ?thesis by (simp add: pow2_less)
qed

lemma round_even_le: "x \<le> of_int n \<Longrightarrow> round_even x \<le> n"
  by (auto simp: round_even_def Let_def split: if_splits) linarith+

lemma round_even_ge: "of_int n \<le> x \<Longrightarrow> n \<le> round_even x"
  by (auto simp: round_even_def Let_def le_floor_iff split: if_splits) linarith+

lemma round_even_of_int [simp]: "round_even (of_int n) = n"
  by (simp add: round_even_def)

lemma round_even_mono:
  assumes "x \<le> y"
  shows "round_even x \<le> round_even y"
proof (cases "\<lfloor>x\<rfloor> = \<lfloor>y\<rfloor>")
  case True
  with assms show ?thesis by (auto simp: round_even_def Let_def)
next
  case False
  with assms have "\<lfloor>x\<rfloor> + 1 \<le> \<lfloor>y\<rfloor>" using floor_mono [OF assms] by linarith
  moreover have "round_even x \<le> \<lfloor>x\<rfloor> + 1" by (rule round_even_le) (simp, linarith)
  moreover have "\<lfloor>y\<rfloor> \<le> round_even y" by (rule round_even_ge) simp
  ultimately show ?thesis by linarith
qed


lemma ulp_exp_mono: "0 < x \<Longrightarrow> x \<le> y \<Longrightarrow> ulp_exp x \<le> ulp_exp y"
  by (simp add: ulp_exp_def) (use ilog2_mono in fastforce)

text \<open>A double's significand has at most 53 bits.\<close>

lemma significand_bound:
  assumes "0 < x"
  shows "round_even (x / pow2 (ulp_exp x)) \<le> 2 ^ 53"
proof (rule round_even_le)
  have "x < pow2 (ilog2 x + 1)" using ilog2_bounds [OF assms] by simp
  also have "\<dots> \<le> pow2 (ulp_exp x + 53)" by (rule pow2_mono) (simp add: ulp_exp_def)
  also have "\<dots> = 2 ^ 53 * pow2 (ulp_exp x)" by (simp add: pow2_add pow2_def [of 53])
  finally show "x / pow2 (ulp_exp x) \<le> of_int (2 ^ 53)"
    by (simp add: field_simps)
qed

lemma rnd_pos_mono:
  assumes "0 < x" and "x \<le> y"
  shows "rnd_pos x \<le> rnd_pos y"
proof (cases "ulp_exp x = ulp_exp y")
  case True
  have "round_even (x / pow2 (ulp_exp y)) \<le> round_even (y / pow2 (ulp_exp y))"
    using assms(2) by (intro round_even_mono divide_right_mono) (simp_all add: less_imp_le)
  with True show ?thesis by (simp add: rnd_pos_def)
next
  case False
  let ?ex = "ulp_exp x" and ?ey = "ulp_exp y"
  have e: "?ex + 1 \<le> ?ey" using ulp_exp_mono [OF assms] False by simp
  moreover have "-1074 \<le> ?ex" by (simp add: ulp_exp_def)
  ultimately have ey: "?ey = ilog2 y - 52" by (auto simp: ulp_exp_def)
  have "rnd_pos x \<le> of_int (2 ^ 53) * pow2 ?ex"
    unfolding rnd_pos_def using significand_bound [OF assms(1)]
    by (intro mult_right_mono) (simp_all only: of_int_le_iff less_imp_le [OF pow2_pos])
  also have "\<dots> = pow2 (?ex + 53)" by (simp add: pow2_add pow2_def [of 53])
  also have "\<dots> \<le> pow2 (52 + ?ey)" using e by (intro pow2_mono) simp
  also have "\<dots> = of_int (2 ^ 52) * pow2 ?ey" by (simp add: pow2_add pow2_def [of 52])
  also have "\<dots> \<le> rnd_pos y"
    unfolding rnd_pos_def
  proof (intro mult_right_mono)
    have "pow2 (52 + ?ey) \<le> y" using ilog2_bounds [of y] assms ey by simp
    then have "of_int (2 ^ 52) \<le> y / pow2 ?ey" by (simp add: pow2_add pow2_def [of 52] field_simps)
    then have "2 ^ 52 \<le> round_even (y / pow2 ?ey)" by (rule round_even_ge)
    then show "(of_int (2 ^ 52) :: rat) \<le> of_int (round_even (y / pow2 ?ey))"
      by (simp only: of_int_le_iff)
  qed (simp add: less_imp_le)
  finally show ?thesis .
qed

lemma rnd_pos_nonneg: "0 < x \<Longrightarrow> 0 \<le> rnd_pos x"
  unfolding rnd_pos_def
  by (intro mult_nonneg_nonneg) (simp_all add: round_even_ge less_imp_le)

lemma fle_trans: "fle a b \<Longrightarrow> fle b c \<Longrightarrow> fle a c"
  by (cases a; cases b; cases c) (auto simp: fle_def)

lemma rnd_nonneg: "0 \<le> x \<Longrightarrow> fle (Fin 0) (rnd x)"
  using rnd_pos_nonneg [of x] by (cases "x = 0") (auto simp: rnd_def fle_def)

lemma rnd_nonpos: "x \<le> 0 \<Longrightarrow> fle (rnd x) (Fin 0)"
  using rnd_pos_nonneg [of "- x"] by (cases "x = 0") (auto simp: rnd_def fle_def)

text \<open>Rounding is monotone.\<close>

lemma rnd_mono:
  assumes "x \<le> y"
  shows "fle (rnd x) (rnd y)"
proof -
  consider "y < 0" | "0 < x" | "x \<le> 0" "0 \<le> y" by linarith
  then show ?thesis
  proof cases
    case 1
    then show ?thesis
      using rnd_pos_mono [of "- y" "- x"] assms by (auto simp: rnd_def fle_def)
  next
    case 2
    then show ?thesis
      using rnd_pos_mono [of x y] assms by (auto simp: rnd_def fle_def)
  next
    case 3
    then show ?thesis by (blast intro: fle_trans rnd_nonneg rnd_nonpos)
  qed
qed

text \<open>
  A value with at most 53 significant bits and an exponent in range is a double: rounding
  leaves it as it is.  In particular every integer up to \<open>2 ^ 53\<close> is one.
\<close>

lemma rnd_pos_exact:
  assumes "0 < m" "m < 2 ^ 53" "-1074 \<le> e" and x: "x = of_int m * pow2 e"
  shows "rnd_pos x = x"
proof -
  have x0: "0 < x" using assms by simp
  have "pow2 (ilog2 x) \<le> x" using ilog2_bounds [OF x0] by simp
  also have "x < of_int (2 ^ 53) * pow2 e"
    unfolding x using assms(2) by (intro mult_strict_right_mono) (simp_all only: of_int_less_iff pow2_pos)
  also have "\<dots> = pow2 (53 + e)" by (simp add: pow2_add pow2_def [of 53])
  finally have "ilog2 x < 53 + e" by (simp add: pow2_less)
  then have le: "ulp_exp x \<le> e" using assms(3) by (simp add: ulp_exp_def)
  define k where "k = m * 2 ^ nat (e - ulp_exp x)"
  have "x = of_int m * (pow2 (e - ulp_exp x) * pow2 (ulp_exp x))"
    using pow2_add [of "e - ulp_exp x" "ulp_exp x"] by (simp add: x)
  also have "\<dots> = of_int k * pow2 (ulp_exp x)" using le by (simp add: k_def pow2_def [of "e - ulp_exp x"])
  finally have xk: "x = of_int k * pow2 (ulp_exp x)" .
  have "x / pow2 (ulp_exp x) = of_int k"
    using pow2_pos [of "ulp_exp x"] xk by (metis nonzero_mult_div_cancel_right order_less_irrefl)
  then have "rnd_pos x = of_int k * pow2 (ulp_exp x)" by (simp add: rnd_pos_def)
  with xk show ?thesis by simp
qed

lemma rnd_of_int:
  assumes "\<bar>n\<bar> < 2 ^ 53"
  shows "rnd (of_int n) = Fin (of_int n)"
proof (cases "n = 0")
  case False
  have "rnd_pos (of_int \<bar>n\<bar>) = of_int \<bar>n\<bar>"
    using assms False by (intro rnd_pos_exact [where m = "\<bar>n\<bar>" and e = 0]) (auto simp: pow2_def)
  moreover have "(of_int \<bar>n\<bar> :: rat) < pow2 1024"
  proof -
    have "(of_int \<bar>n\<bar> :: rat) < of_int (2 ^ 53)" using assms by (simp only: of_int_less_iff)
    also have "\<dots> = pow2 53" by (simp add: pow2_def)
    also have "\<dots> \<le> pow2 1024" by (rule pow2_mono) simp
    finally show ?thesis .
  qed
  ultimately show ?thesis using False by (cases "0 < n") (auto simp: rnd_def)
qed (simp add: rnd_def)

text \<open>For evaluation: powers of two by repeated squaring.\<close>

function dbl :: "int \<Rightarrow> int" where
  "dbl e = (if e \<le> 0 then 1 else let h = dbl (e div 2); s = h * h in if e mod 2 = 0 then s else 2 * s)"
  by pat_completeness auto
termination by (relation "measure nat") auto
declare dbl.simps [simp del]

lemma dbl_pow: "0 \<le> e \<Longrightarrow> dbl e = 2 ^ nat e"
proof (induction e rule: dbl.induct)
  case (1 e)
  show ?case
  proof (cases "e = 0")
    case False
    then have e: "0 < e" using 1 by simp
    with 1 have IH: "dbl (e div 2) = 2 ^ nat (e div 2)" by simp
    have "nat e = nat (e div 2) + nat (e div 2) + nat (e mod 2)"
    proof -
      have "int (nat e) = int (nat (e div 2) + nat (e div 2) + nat (e mod 2))"
        using e by (simp add: pos_imp_zdiv_nonneg_iff)
      then show ?thesis by (simp only: of_nat_eq_iff)
    qed
    then have "(2::int) ^ nat e = 2 ^ (nat (e div 2) + nat (e div 2) + nat (e mod 2))" by simp
    also have "\<dots> = 2 ^ nat (e div 2) * 2 ^ nat (e div 2) * 2 ^ nat (e mod 2)" by (simp add: power_add)
    finally show ?thesis using e IH by (subst dbl.simps) (auto simp: Let_def mod2_eq_if)
  qed (simp add: dbl.simps)
qed

lemma pow2_code [code]: "pow2 e = (if 0 \<le> e then of_int (dbl e) else 1 / of_int (dbl (- e)))"
  by (simp add: pow2_def dbl_pow)

text \<open>For evaluation: integers in that range need no rounding.\<close>

definition rnd_full :: "rat \<Rightarrow> pyfloat" where
  "rnd_full x = rnd x"

lemma rnd_full_code [code]:
  "rnd_full x =
     (if x = 0 then Fin 0
      else if 0 < x then (let y = rnd_pos x in if pow2 1024 \<le> y then PInf else Fin y)
      else (let y = rnd_pos (- x) in if pow2 1024 \<le> y then NInf else Fin (- y)))"
  by (simp add: rnd_full_def rnd_def Let_def)

lemma rnd_code [code]:
  "rnd x = (case quotient_of x of (n, d) \<Rightarrow>
     if d = 1 \<and> \<bar>n\<bar> < 9007199254740992 then Fin x else rnd_full x)"
proof (cases "quotient_of x")
  case (Pair n d)
  then have "x = of_int n / of_int d" by (rule quotient_of_div)
  then show ?thesis using Pair rnd_of_int [of n] by (auto simp: rnd_full_def)
qed

lemma rnd_numeral: "numeral k < (2 ^ 53 :: int) \<Longrightarrow> rnd (numeral k) = Fin (numeral k)"
  using rnd_of_int [of "numeral k"] by simp

lemma rnd_0 [simp]: "rnd 0 = Fin 0"
  by (simp add: rnd_def)

lemma rnd_1 [simp]: "rnd 1 = Fin 1"
  using rnd_of_int [of 1] by simp

lemma rnd_minus: "rnd (- x) = fneg (rnd x)"
  by (auto simp: rnd_def)

lemma rnd_not_NaN [simp]: "rnd x \<noteq> NaN"
  by (simp add: rnd_def)

lemma fmul_nonneg: "fle (Fin 0) a \<Longrightarrow> 0 < k \<Longrightarrow> fle (Fin 0) (fmul a (Fin k))"
proof (cases a)
  case (Fin x)
  assume "fle (Fin 0) a" "0 < k"
  with Fin have "0 \<le> x * k" by (auto simp: fle_def)
  then show "fle (Fin 0) (fmul a (Fin k))" using rnd_nonneg Fin by (simp add: fmul_def)
qed (auto simp: fmul_def fle_def inf_of_def)

lemmas float_eval = rnd_def rnd_pos_def ulp_exp_def ilog2_def Let_def round_even_def pow2_def
  blen.simps flit_def fint_def fadd.simps fsub_def fmul_def fdiv_def fle_def flt.simps feq.simps
  fmax_def fmin_def

end
