(* ===== verification/PyRegex.thy ===== *)
theory PyRegex
  imports PyStr
begin

text \<open>
  The regular expressions of Python's \<open>re\<close> module, as far as the code uses them: a pattern
  compiler, a backtracking matcher and \<open>search\<close>, \<open>match\<close>, \<open>fullmatch\<close>, \<open>finditer\<close>, \<open>sub\<close>
  and \<open>split\<close>.

  Patterns are written as the source writes them, with two differences of spelling: the escape
  character is \<open>%\<close> where Python has the backslash (a literal percent sign is \<open>%%\<close>), and a
  non-ASCII character is given by Python's own escapes \<open>%uXXXX\<close> and \<open>%UXXXXXXXX\<close>.

  The matcher returns the list of all ways to match at a position, in the order in which
  backtracking tries them; the first one is Python's match.
\<close>

section \<open>Syntax\<close>

datatype citem =
    CChar char
  | CRange char char
  | CDigit bool  \<comment> \<open>\<open>\d\<close>, and \<open>\D\<close> with False\<close>
  | CSpace bool
  | CWord bool

datatype re =
    REps
  | RChar char
  | RAny
  | RCls bool "citem list"      \<comment> \<open>True: the complement \<open>[^...]\<close>\<close>
  | RSeq re re
  | RAlt re re
  | RStar bool re               \<comment> \<open>True: greedy\<close>
  | RGrp nat re
  | RBol
  | REol
  | RWordB bool                 \<comment> \<open>\<open>\b\<close>, and \<open>\B\<close> with False\<close>
  | RLook bool re               \<comment> \<open>lookahead; False: negative\<close>
  | RBehind bool re             \<comment> \<open>lookbehind of one character; False: negative\<close>

text \<open>A compiled pattern: the expression, its group names and its flags.\<close>

record pattern =
  rx :: re
  rx_names :: "(string \<times> nat) list"
  rx_ignorecase :: bool
  rx_multiline :: bool

section \<open>Matching\<close>

text \<open>The order of characters, and for evaluation the same bit by bit.\<close>

definition in_range :: "char \<Rightarrow> char \<Rightarrow> char \<Rightarrow> bool" where
  "in_range a b c = (a \<le> c \<and> c \<le> b)"

fun bits_le :: "bool list \<Rightarrow> bool list \<Rightarrow> bool" where
  "bits_le (a # as) (b # bs) = (if a = b then bits_le as bs else b)"
| "bits_le as bs = (as = [])"

fun char_bits :: "char \<Rightarrow> bool list" where
  "char_bits (Char b0 b1 b2 b3 b4 b5 b6 b7) = [b7, b6, b5, b4, b3, b2, b1, b0]"

lemma bits_le_iff: "lexordp_eq as bs = bits_le as bs"
  by (induction as bs rule: bits_le.induct) auto

lemma char_le_bits: "(a :: char) \<le> c \<longleftrightarrow> bits_le (char_bits a) (char_bits c)"
  by (cases a; cases c) (simp only: char_bits.simps less_eq_char_simp bits_le_iff)

lemma in_range_code [code]:
  "in_range a b c = (bits_le (char_bits a) (char_bits c) \<and> bits_le (char_bits c) (char_bits b))"
  by (simp add: in_range_def char_le_bits)

fun citem_matches :: "citem \<Rightarrow> char \<Rightarrow> bool" where
  "citem_matches (CChar d) c = (c = d)"
| "citem_matches (CRange a b) c = in_range a b c"
| "citem_matches (CDigit p) c = (is_digit c = p)"
| "citem_matches (CSpace p) c = (is_space c = p)"
| "citem_matches (CWord p) c = (is_word c = p)"

text \<open>With \<open>IGNORECASE\<close> a class is tested in both cases of the character.\<close>

definition cls_matches :: "bool \<Rightarrow> bool \<Rightarrow> citem list \<Rightarrow> char \<Rightarrow> bool" where
  "cls_matches ic neg items c =
     (let hit = list_ex (\<lambda>i. citem_matches i c \<or>
            (ic \<and> (citem_matches i (to_lower c) \<or> citem_matches i (to_upper c)))) items
      in hit \<noteq> neg)"

definition chr_matches :: "bool \<Rightarrow> char \<Rightarrow> char \<Rightarrow> bool" where
  "chr_matches ic d c = (c = d \<or> (ic \<and> to_lower c = to_lower d))"

text \<open>
  A matcher state: the text before the position (reversed), the text after it, and the groups
  set so far (the latest first), each with its start and its text.
\<close>

type_synonym mstate = "string \<times> string \<times> (nat \<times> nat \<times> string) list"

definition at_word :: "string \<Rightarrow> bool" where
  "at_word s = (case s of [] \<Rightarrow> False | c # _ \<Rightarrow> is_word c)"

definition at_bol :: "bool \<Rightarrow> string \<Rightarrow> bool" where
  "at_bol ml b = (case b of [] \<Rightarrow> True | c # _ \<Rightarrow> ml \<and> c = CHR 0x0A)"

definition at_eol :: "bool \<Rightarrow> string \<Rightarrow> bool" where
  "at_eol ml a = (case a of [] \<Rightarrow> True | c # cs \<Rightarrow> c = CHR 0x0A \<and> (ml \<or> cs = []))"

text \<open>An iteration of a star counts only when it consumes something.\<close>

fun shorter :: "string \<Rightarrow> string \<Rightarrow> bool" where
  "shorter xs [] = False"
| "shorter [] (y # ys) = True"
| "shorter (x # xs) (y # ys) = shorter xs ys"

lemma shorter_iff [simp]: "shorter xs ys \<longleftrightarrow> length xs < length ys"
  by (induction xs ys rule: shorter.induct) auto

function (sequential) ms :: "bool \<Rightarrow> bool \<Rightarrow> re \<Rightarrow> mstate \<Rightarrow> mstate list" where
  "ms ic ml REps st = [st]"
| "ms ic ml (RChar d) (b, a, g) =
     (case a of [] \<Rightarrow> [] | c # cs \<Rightarrow> if chr_matches ic d c then [(c # b, cs, g)] else [])"
| "ms ic ml RAny (b, a, g) =
     (case a of [] \<Rightarrow> [] | c # cs \<Rightarrow> if c \<noteq> CHR 0x0A then [(c # b, cs, g)] else [])"
| "ms ic ml (RCls neg is) (b, a, g) =
     (case a of [] \<Rightarrow> [] | c # cs \<Rightarrow> if cls_matches ic neg is c then [(c # b, cs, g)] else [])"
| "ms ic ml (RSeq r1 r2) st = concat (map (ms ic ml r2) (ms ic ml r1 st))"
| "ms ic ml (RAlt r1 r2) st = ms ic ml r1 st @ ms ic ml r2 st"
| "ms ic ml (RStar greedy r) (b, a, g) =
     (let more = concat (map (\<lambda>st'. if shorter (fst (snd st')) a
                                   then ms ic ml (RStar greedy r) st' else [])
                             (ms ic ml r (b, a, g)))
      in if greedy then more @ [(b, a, g)] else (b, a, g) # more)"
| "ms ic ml (RGrp n r) (b, a, g) =
     map (\<lambda>(b', a', g'). (b', a', (n, length b, rev (take (length b' - length b) b')) # g'))
         (ms ic ml r (b, a, g))"
| "ms ic ml RBol (b, a, g) = (if at_bol ml b then [(b, a, g)] else [])"
| "ms ic ml REol (b, a, g) = (if at_eol ml a then [(b, a, g)] else [])"
| "ms ic ml (RWordB p) (b, a, g) = (if (at_word b \<noteq> at_word a) = p then [(b, a, g)] else [])"
| "ms ic ml (RLook p r) (b, a, g) = (if (ms ic ml r (b, a, g) \<noteq> []) = p then [(b, a, g)] else [])"
| "ms ic ml (RBehind p r) (b, a, g) =
     (if (case b of [] \<Rightarrow> False | c # _ \<Rightarrow> ms ic ml r ([], [c], g) \<noteq> []) = p then [(b, a, g)] else [])"
  by pat_completeness auto
termination
  by (relation "measures [\<lambda>(ic, ml, r, st). size r, \<lambda>(ic, ml, r, st). length (fst (snd st))]") auto

section \<open>The pattern compiler\<close>

datatype gkind = GTop | GPlain | GCap nat | GLook bool | GBehind bool

text \<open>An open group: its kind, its finished alternatives and the items of the current one,
  both latest first.\<close>

record frame =
  fr_kind :: gkind
  fr_alts :: "re list"
  fr_cur :: "re list"

datatype cstate =
    CPlain                        \<comment> \<open>inside a class, nothing pending\<close>
  | CAfter char                   \<comment> \<open>after a character that may open a range\<close>
  | CDash char                    \<comment> \<open>after that character and a dash\<close>

datatype pmode =
    PNorm
  | PEsc                          \<comment> \<open>after the escape character\<close>
  | PHex nat string               \<comment> \<open>in \<open>%x\<close>, \<open>%u\<close>, \<open>%U\<close>: digits to come, digits read\<close>
  | POpen                         \<comment> \<open>after an opening bracket\<close>
  | PHead string                  \<comment> \<open>after \<open>(?\<close>, the characters read\<close>
  | PCls0                         \<comment> \<open>after an opening square bracket\<close>
  | PCls bool "citem list" cstate
  | PClsEsc bool "citem list" cstate
  | PClsHex bool "citem list" cstate nat string
  | PBrace string
  | PQuant nat "nat option" re    \<comment> \<open>after a quantifier of this expression\<close>

record pstate =
  ps_mode :: pmode
  ps_stack :: "frame list"
  ps_groups :: nat
  ps_names :: "(string \<times> nat) list"
  ps_ic :: bool
  ps_ml :: bool

fun mk_seq :: "re list \<Rightarrow> re" where
  "mk_seq [] = REps"
| "mk_seq [r] = r"
| "mk_seq (r # rs) = RSeq r (mk_seq rs)"

fun mk_alt :: "re list \<Rightarrow> re" where
  "mk_alt [] = REps"
| "mk_alt [r] = r"
| "mk_alt (r # rs) = RAlt r (mk_alt rs)"

definition opt :: "bool \<Rightarrow> re \<Rightarrow> re" where
  "opt greedy r = (if greedy then RAlt r REps else RAlt REps r)"

text \<open>\<open>r{0,k}\<close> and \<open>r{k}\<close> followed by an expression.\<close>

fun up_to :: "bool \<Rightarrow> nat \<Rightarrow> re \<Rightarrow> re" where
  "up_to greedy 0 r = REps"
| "up_to greedy (Suc k) r =
     opt greedy (if k = 0 then r else RSeq r (up_to greedy k r))"

fun times :: "nat \<Rightarrow> re \<Rightarrow> re \<Rightarrow> re" where
  "times 0 r s = s"
| "times (Suc k) r s = (if k = 0 \<and> s = REps then r else RSeq r (times k r s))"

definition quantified :: "bool \<Rightarrow> nat \<Rightarrow> nat option \<Rightarrow> re \<Rightarrow> re" where
  "quantified greedy lo hi r =
     times lo r (case hi of None \<Rightarrow> RStar greedy r | Some h \<Rightarrow> up_to greedy (h - lo) r)"

definition push_item :: "re \<Rightarrow> pstate \<Rightarrow> pstate" where
  "push_item r s =
     (case ps_stack s of
        [] \<Rightarrow> s
      | f # fs \<Rightarrow> s\<lparr>ps_mode := PNorm, ps_stack := f\<lparr>fr_cur := r # fr_cur f\<rparr> # fs\<rparr>)"

definition close_frame :: "frame \<Rightarrow> re" where
  "close_frame f =
     (let r = mk_alt (rev (mk_seq (rev (fr_cur f)) # fr_alts f))
      in case fr_kind f of
           GTop \<Rightarrow> r | GPlain \<Rightarrow> r | GCap n \<Rightarrow> RGrp n r | GLook p \<Rightarrow> RLook p r | GBehind p \<Rightarrow> RBehind p r)"

definition open_frame :: "gkind \<Rightarrow> pstate \<Rightarrow> pstate" where
  "open_frame k s =
     s\<lparr>ps_mode := PNorm, ps_stack := \<lparr>fr_kind = k, fr_alts = [], fr_cur = []\<rparr> # ps_stack s\<rparr>"

text \<open>A quantifier applies to the last item of the current alternative.\<close>

definition quantify :: "nat \<Rightarrow> nat option \<Rightarrow> pstate \<Rightarrow> pstate" where
  "quantify lo hi s =
     (case ps_stack s of
        f # fs \<Rightarrow>
          (case fr_cur f of
             r # rs \<Rightarrow> s\<lparr>ps_mode := PQuant lo hi r, ps_stack := f\<lparr>fr_cur := rs\<rparr> # fs\<rparr>
           | [] \<Rightarrow> s)
      | [] \<Rightarrow> s)"

definition norm_step :: "pstate \<Rightarrow> char \<Rightarrow> pstate" where
  "norm_step s c =
     (if c = CHR ''%'' then s\<lparr>ps_mode := PEsc\<rparr>
      else if c = CHR ''('' then s\<lparr>ps_mode := POpen\<rparr>
      else if c = CHR '')'' then
        (case ps_stack s of
           f # fs \<Rightarrow> push_item (close_frame f) (s\<lparr>ps_stack := fs\<rparr>)
         | [] \<Rightarrow> s)
      else if c = CHR ''['' then s\<lparr>ps_mode := PCls0\<rparr>
      else if c = CHR ''|'' then
        (case ps_stack s of
           f # fs \<Rightarrow> s\<lparr>ps_stack := f\<lparr>fr_alts := mk_seq (rev (fr_cur f)) # fr_alts f, fr_cur := []\<rparr> # fs\<rparr>
         | [] \<Rightarrow> s)
      else if c = CHR ''*'' then quantify 0 None s
      else if c = CHR ''+'' then quantify 1 None s
      else if c = CHR ''?'' then quantify 0 (Some 1) s
      else if c = CHR ''{'' then s\<lparr>ps_mode := PBrace []\<rparr>
      else if c = CHR ''^'' then push_item RBol s
      else if c = CHR ''$'' then push_item REol s
      else if c = CHR ''.'' then push_item RAny s
      else push_item (RChar c) s)"

definition escape_class :: "char \<Rightarrow> citem option" where
  "escape_class c =
     (if c = CHR ''d'' then Some (CDigit True) else if c = CHR ''D'' then Some (CDigit False)
      else if c = CHR ''s'' then Some (CSpace True) else if c = CHR ''S'' then Some (CSpace False)
      else if c = CHR ''w'' then Some (CWord True) else if c = CHR ''W'' then Some (CWord False)
      else None)"

definition escape_char :: "char \<Rightarrow> char" where
  "escape_char c =
     (if c = CHR ''n'' then CHR 0x0A else if c = CHR ''t'' then CHR 0x09
      else if c = CHR ''r'' then CHR 0x0D else c)"

definition hex_length :: "char \<Rightarrow> nat option" where
  "hex_length c =
     (if c = CHR ''x'' then Some 2 else if c = CHR ''u'' then Some 4
      else if c = CHR ''U'' then Some 8 else None)"

definition hex_val :: "char \<Rightarrow> int" where
  "hex_val c =
     (if is_digit c then of_char c - 48 else if is_lower c then of_char c - 87 else of_char c - 55)"

definition int_of_hex :: "string \<Rightarrow> int" where
  "int_of_hex s = foldl (\<lambda>n c. 16 * n + hex_val c) 0 s"

text \<open>The header of a group, complete when the character \<open>c\<close> is read.\<close>

definition head_step :: "string \<Rightarrow> pstate \<Rightarrow> char \<Rightarrow> pstate" where
  "head_step h s c =
     (let hc = h @ [c] in
      if hc = '':'' then open_frame GPlain s
      else if hc = ''='' then open_frame (GLook True) s
      else if hc = ''!'' then open_frame (GLook False) s
      else if hc = ''<='' then open_frame (GBehind True) s
      else if hc = ''<!'' then open_frame (GBehind False) s
      else if prefix ''P<'' h \<and> c = CHR ''>'' then
        (let n = ps_groups s + 1
         in open_frame (GCap n) (s\<lparr>ps_groups := n, ps_names := (drop 2 h, n) # ps_names s\<rparr>))
      else if c = CHR '')'' then
        s\<lparr>ps_mode := PNorm, ps_ic := (ps_ic s \<or> CHR ''i'' \<in> set h), ps_ml := (ps_ml s \<or> CHR ''m'' \<in> set h)\<rparr>
      else s\<lparr>ps_mode := PHead hc\<rparr>)"

text \<open>A single character of a class, which may close a range.\<close>

definition cls_char :: "bool \<Rightarrow> citem list \<Rightarrow> cstate \<Rightarrow> char \<Rightarrow> pmode" where
  "cls_char neg is cs c =
     (case cs of
        CPlain \<Rightarrow> PCls neg is (CAfter c)
      | CAfter d \<Rightarrow> PCls neg (CChar d # is) (CAfter c)
      | CDash d \<Rightarrow> PCls neg (CRange d c # is) CPlain)"

definition cls_flush :: "citem list \<Rightarrow> cstate \<Rightarrow> citem list" where
  "cls_flush is cs =
     (case cs of CPlain \<Rightarrow> is | CAfter d \<Rightarrow> CChar d # is | CDash d \<Rightarrow> CChar CHR ''-'' # CChar d # is)"

definition cls_step :: "bool \<Rightarrow> citem list \<Rightarrow> cstate \<Rightarrow> pstate \<Rightarrow> char \<Rightarrow> pstate" where
  "cls_step neg is cs s c =
     (if c = CHR '']'' then push_item (RCls neg (rev (cls_flush is cs))) s
      else if c = CHR ''%'' then s\<lparr>ps_mode := PClsEsc neg is cs\<rparr>
      else s\<lparr>ps_mode :=
             (case cs of
                CAfter d \<Rightarrow> if c = CHR ''-'' then PCls neg is (CDash d) else cls_char neg is cs c
              | _ \<Rightarrow> cls_char neg is cs c)\<rparr>)"

definition split_comma :: "string \<Rightarrow> string \<times> string option" where
  "split_comma b =
     (let lo = takeWhile (\<lambda>c. c \<noteq> CHR '','') b; rest = dropWhile (\<lambda>c. c \<noteq> CHR '','') b
      in (lo, case rest of [] \<Rightarrow> None | _ # hi \<Rightarrow> Some hi))"

definition brace_bounds :: "string \<Rightarrow> nat \<times> nat option" where
  "brace_bounds b =
     (case split_comma b of
        (lo, None) \<Rightarrow> (nat (int_of_digits lo), Some (nat (int_of_digits lo)))
      | (lo, Some hi) \<Rightarrow> (nat (int_of_digits lo), if hi = [] then None else Some (nat (int_of_digits hi))))"

definition parse_step :: "pstate \<Rightarrow> char \<Rightarrow> pstate" where
  "parse_step s c =
     (case ps_mode s of
        PNorm \<Rightarrow> norm_step s c
      | PEsc \<Rightarrow>
          (case hex_length c of
             Some k \<Rightarrow> s\<lparr>ps_mode := PHex k []\<rparr>
           | None \<Rightarrow>
               (case escape_class c of
                  Some i \<Rightarrow> push_item (RCls False [i]) s
                | None \<Rightarrow>
                    if c = CHR ''b'' then push_item (RWordB True) s
                    else if c = CHR ''B'' then push_item (RWordB False) s
                    else push_item (RChar (escape_char c)) s))
      | PHex k h \<Rightarrow>
          (if k \<le> 1 then push_item (RChar (char_of_code_point (int_of_hex (h @ [c])))) s
           else s\<lparr>ps_mode := PHex (k - 1) (h @ [c])\<rparr>)
      | POpen \<Rightarrow>
          (if c = CHR ''?'' then s\<lparr>ps_mode := PHead []\<rparr>
           else norm_step (open_frame (GCap (ps_groups s + 1)) (s\<lparr>ps_groups := ps_groups s + 1\<rparr>)) c)
      | PHead h \<Rightarrow> head_step h s c
      | PCls0 \<Rightarrow> if c = CHR ''^'' then s\<lparr>ps_mode := PCls True [] CPlain\<rparr> else cls_step False [] CPlain s c
      | PCls neg is cs \<Rightarrow> cls_step neg is cs s c
      | PClsEsc neg is cs \<Rightarrow>
          (case hex_length c of
             Some k \<Rightarrow> s\<lparr>ps_mode := PClsHex neg is cs k []\<rparr>
           | None \<Rightarrow>
               (case escape_class c of
                  Some i \<Rightarrow> s\<lparr>ps_mode := PCls neg (i # cls_flush is cs) CPlain\<rparr>
                | None \<Rightarrow> s\<lparr>ps_mode := cls_char neg is cs (escape_char c)\<rparr>))
      | PClsHex neg is cs k h \<Rightarrow>
          (if k \<le> 1 then s\<lparr>ps_mode := cls_char neg is cs (char_of_code_point (int_of_hex (h @ [c])))\<rparr>
           else s\<lparr>ps_mode := PClsHex neg is cs (k - 1) (h @ [c])\<rparr>)
      | PBrace b \<Rightarrow>
          (if c = CHR ''}'' then (case brace_bounds b of (lo, hi) \<Rightarrow> quantify lo hi s)
           else s\<lparr>ps_mode := PBrace (b @ [c])\<rparr>)
      | PQuant lo hi r \<Rightarrow>
          (if c = CHR ''?'' then push_item (quantified False lo hi r) s
           else norm_step (push_item (quantified True lo hi r) s) c))"

definition parse_finish :: "pstate \<Rightarrow> pattern" where
  "parse_finish s0 =
     (let s = (case ps_mode s0 of PQuant lo hi r \<Rightarrow> push_item (quantified True lo hi r) s0 | _ \<Rightarrow> s0)
      in \<lparr>rx = (case ps_stack s of f # _ \<Rightarrow> close_frame f | [] \<Rightarrow> REps),
          rx_names = ps_names s, rx_ignorecase = ps_ic s, rx_multiline = ps_ml s\<rparr>)"

definition re_compile :: "bool \<Rightarrow> bool \<Rightarrow> string \<Rightarrow> pattern" where
  "re_compile ic ml p =
     parse_finish (foldl parse_step
       \<lparr>ps_mode = PNorm, ps_stack = [\<lparr>fr_kind = GTop, fr_alts = [], fr_cur = []\<rparr>],
        ps_groups = 0, ps_names = [], ps_ic = ic, ps_ml = ml\<rparr> p)"

text \<open>\<open>re.compile(p)\<close> and \<open>re.compile(p, re.IGNORECASE)\<close>.\<close>

definition rx_plain :: "string \<Rightarrow> pattern" where
  "rx_plain p = re_compile False False p"

definition rx_i :: "string \<Rightarrow> pattern" where
  "rx_i p = re_compile True False p"


text \<open>
  A long alternation is given by the list of its alternatives, as the source lists them:
  \<open>alt_of [a, b]\<close> is \<open>(?:a|b)\<close>, and \<open>seq_i\<close> is the concatenation of expressions with
  \<open>IGNORECASE\<close>.
\<close>

definition re_of :: "string \<Rightarrow> re" where
  "re_of p = rx (rx_plain p)"

definition alt_of :: "string list \<Rightarrow> re" where
  "alt_of ps = mk_alt (map re_of ps)"

definition seq_i :: "re list \<Rightarrow> pattern" where
  "seq_i rs = \<lparr>rx = mk_seq rs, rx_names = [], rx_ignorecase = True, rx_multiline = False\<rparr>"

section \<open>Searching\<close>

text \<open>A match: the text before it, its text, the text after it, and its groups.\<close>

record rmatch =
  m_before :: string
  m_text :: string
  m_after :: string
  m_groups :: "(nat \<times> nat \<times> string) list"

definition mk_match :: "string \<Rightarrow> mstate \<Rightarrow> rmatch" where
  "mk_match b st =
     (case st of (b', a', g') \<Rightarrow>
        \<lparr>m_before = rev b, m_text = rev (take (length b' - length b) b'), m_after = a',
         m_groups = g'\<rparr>)"

definition m_group :: "nat \<Rightarrow> rmatch \<Rightarrow> string option" where
  "m_group n m = (if n = 0 then Some (m_text m) else map_option snd (map_of (m_groups m) n))"

text \<open>\<open>match.group(''name'')\<close> for a pattern with that group.\<close>

definition m_named :: "pattern \<Rightarrow> string \<Rightarrow> rmatch \<Rightarrow> string option" where
  "m_named p nm m = (case map_of (rx_names p) nm of Some n \<Rightarrow> m_group n m | None \<Rightarrow> None)"

definition group_or :: "string \<Rightarrow> nat \<Rightarrow> rmatch \<Rightarrow> string" where
  "group_or d n m = (case m_group n m of Some t \<Rightarrow> t | None \<Rightarrow> d)"

definition ways :: "pattern \<Rightarrow> string \<Rightarrow> string \<Rightarrow> mstate list" where
  "ways p b a = ms (rx_ignorecase p) (rx_multiline p) (rx p) (b, a, [])"

text \<open>
  The first match at or after a position.  The flag \<open>adv\<close> asks for a non-empty match at the
  first position, as the scanner does after an empty match.
\<close>

fun search_from :: "pattern \<Rightarrow> bool \<Rightarrow> string \<Rightarrow> string \<Rightarrow> (string \<times> mstate) option" where
  "search_from p adv b [] =
     (case filter (\<lambda>st. adv \<longrightarrow> fst st \<noteq> b) (ways p b []) of st # _ \<Rightarrow> Some (b, st) | [] \<Rightarrow> None)"
| "search_from p adv b (c # cs) =
     (case filter (\<lambda>st. adv \<longrightarrow> fst st \<noteq> b) (ways p b (c # cs)) of
        st # _ \<Rightarrow> Some (b, st)
      | [] \<Rightarrow> search_from p False (c # b) cs)"

definition re_search :: "pattern \<Rightarrow> string \<Rightarrow> rmatch option" where
  "re_search p s = map_option (\<lambda>(b, st). mk_match b st) (search_from p False [] s)"

definition re_match :: "pattern \<Rightarrow> string \<Rightarrow> rmatch option" where
  "re_match p s = (case ways p [] s of st # _ \<Rightarrow> Some (mk_match [] st) | [] \<Rightarrow> None)"

definition re_fullmatch :: "pattern \<Rightarrow> string \<Rightarrow> rmatch option" where
  "re_fullmatch p s =
     (case filter (\<lambda>st. fst (snd st) = []) (ways p [] s) of
        st # _ \<Rightarrow> Some (mk_match [] st)
      | [] \<Rightarrow> None)"

definition re_found :: "pattern \<Rightarrow> string \<Rightarrow> bool" where
  "re_found p s = (re_search p s \<noteq> None)"

section \<open>What a match is\<close>

declare ms.simps(7) [simp del]

lemma in_ms_star:
  "st' \<in> set (ms ic ml (RStar greedy r) (b, a, g)) \<longleftrightarrow>
     st' = (b, a, g) \<or>
     (\<exists>st \<in> set (ms ic ml r (b, a, g)). length (fst (snd st)) < length a \<and>
        st' \<in> set (ms ic ml (RStar greedy r) st))"
  by (subst ms.simps(7)) (auto simp: Let_def)

text \<open>
  Induction over the ways to match: a property of pairs of matcher states that is reflexive,
  transitive, and holds for the reading of one character and for the setting of a group.
\<close>

lemma ms_induct:
  assumes "st' \<in> set (ms ic ml r st)"
    and refl: "\<And>st. P st st"
    and trans: "\<And>s1 s2 s3. P s1 s2 \<Longrightarrow> P s2 s3 \<Longrightarrow> P s1 s3"
    and char: "\<And>b c cs g. P (b, c # cs, g) (c # b, cs, g)"
    and grp: "\<And>b a g b' a' g' n. P (b, a, g) (b', a', g') \<Longrightarrow>
         P (b, a, g) (b', a', (n, length b, rev (take (length b' - length b) b')) # g')"
  shows "P st st'"
  using assms(1)
proof (induction ic ml r st arbitrary: st' rule: ms.induct)
  case (5 ic ml r1 r2 st)
  then obtain st1 where "st1 \<in> set (ms ic ml r1 st)" "st' \<in> set (ms ic ml r2 st1)" by auto
  then show ?case using "5.IH" trans by blast
next
  case (7 ic ml greedy r b a g)
  show ?case
  proof (cases "st' = (b, a, g)")
    case False
    with "7.prems" obtain st where st: "st \<in> set (ms ic ml r (b, a, g))"
      and sh: "length (fst (snd st)) < length a"
      and st': "st' \<in> set (ms ic ml (RStar greedy r) st)" by (auto simp: in_ms_star)
    have "P (b, a, g) st" using "7.IH"(1) st .
    moreover have "P st st'" using "7.IH"(2) st sh st' by simp
    ultimately show ?thesis by (rule trans)
  qed (simp add: refl)
qed (auto split: list.splits if_splits intro: refl char grp)

lemma ms_step:
  assumes "st' \<in> set (ms ic ml r st)"
  shows "\<exists>t. fst (snd st) = t @ fst (snd st') \<and> fst st' = rev t @ fst st"
  using assms by (rule ms_induct) auto

lemma ms_after: "st' \<in> set (ms ic ml r st) \<Longrightarrow> length (fst (snd st')) \<le> length (fst (snd st))"
  by (drule ms_step) auto

text \<open>
  The texts an expression can read, an upper bound: the assertions are dropped.
\<close>

fun lang :: "bool \<Rightarrow> re \<Rightarrow> string set" where
  "lang ic REps = {[]}"
| "lang ic (RChar d) = {[c] | c. chr_matches ic d c}"
| "lang ic RAny = {[c] | c. c \<noteq> CHR 0x0A}"
| "lang ic (RCls neg is) = {[c] | c. cls_matches ic neg is c}"
| "lang ic (RSeq r1 r2) = {u @ v | u v. u \<in> lang ic r1 \<and> v \<in> lang ic r2}"
| "lang ic (RAlt r1 r2) = lang ic r1 \<union> lang ic r2"
| "lang ic (RStar greedy r) = {concat us | us. set us \<subseteq> lang ic r}"
| "lang ic (RGrp n r) = lang ic r"
| "lang ic _ = {[]}"

lemma ms_lang:
  assumes "st' \<in> set (ms ic ml r st)"
  shows "\<exists>t \<in> lang ic r. fst st' = rev t @ fst st \<and> fst (snd st) = t @ fst (snd st')"
  using assms
proof (induction ic ml r st arbitrary: st' rule: ms.induct)
  case (5 ic ml r1 r2 st)
  then obtain st1 where 1: "st1 \<in> set (ms ic ml r1 st)" "st' \<in> set (ms ic ml r2 st1)" by auto
  from "5.IH"(1) [OF 1(1)] obtain u where
    u: "u \<in> lang ic r1" "fst st1 = rev u @ fst st" "fst (snd st) = u @ fst (snd st1)" by auto
  from "5.IH"(2) [OF 1] obtain v where
    v: "v \<in> lang ic r2" "fst st' = rev v @ fst st1" "fst (snd st1) = v @ fst (snd st')" by auto
  from u v show ?case by (intro bexI [where x = "u @ v"]) auto
next
  case (7 ic ml greedy r b a g)
  show ?case
  proof (cases "st' = (b, a, g)")
    case True
    then show ?thesis by (intro bexI [where x = "[]"]) (auto intro!: exI [where x = "[]"])
  next
    case False
    with "7.prems" obtain st where st: "st \<in> set (ms ic ml r (b, a, g))"
      and sh: "length (fst (snd st)) < length a"
      and st': "st' \<in> set (ms ic ml (RStar greedy r) st)" by (auto simp: in_ms_star)
    from "7.IH"(1) [OF st] obtain u where
      u: "u \<in> lang ic r" "fst st = rev u @ b" "a = u @ fst (snd st)" by auto
    from "7.IH"(2) [OF st _ st'] sh obtain us where
      us: "set us \<subseteq> lang ic r" "fst st' = rev (concat us) @ fst st"
        "fst (snd st) = concat us @ fst (snd st')" by auto
    from u us show ?thesis
      by (intro bexI [where x = "concat (u # us)"]) (auto intro!: exI [where x = "u # us"])
  qed
next
  case (8 ic ml n r b a g)
  then obtain x where "x \<in> set (ms ic ml r (b, a, g))" "fst st' = fst x" "fst (snd st') = fst (snd x)"
    by (auto split: prod.splits)
  with "8.IH" [of x] show ?case by simp
next
  case (6 ic ml r1 r2 st)
  then consider "st' \<in> set (ms ic ml r1 st)" | "st' \<in> set (ms ic ml r2 st)" by auto
  then show ?case using "6.IH" by cases (simp add: bex_Un)+
qed (simp_all split: list.splits if_splits; force)+

text \<open>The sub-expressions that set a group, and what the group then holds.\<close>

fun groups_of :: "nat \<Rightarrow> re \<Rightarrow> re list" where
  "groups_of n (RGrp k r) = (if k = n then [r] else []) @ groups_of n r"
| "groups_of n (RSeq r1 r2) = groups_of n r1 @ groups_of n r2"
| "groups_of n (RAlt r1 r2) = groups_of n r1 @ groups_of n r2"
| "groups_of n (RStar greedy r) = groups_of n r"
| "groups_of n _ = []"

lemma ms_group_lang:
  assumes "st' \<in> set (ms ic ml r st)" and "(n, i, t) \<in> set (snd (snd st'))"
  shows "(n, i, t) \<in> set (snd (snd st)) \<or> (\<exists>r' \<in> set (groups_of n r). t \<in> lang ic r')"
  using assms
proof (induction ic ml r st arbitrary: st' rule: ms.induct)
  case (5 ic ml r1 r2 st)
  then obtain st1 where "st1 \<in> set (ms ic ml r1 st)" "st' \<in> set (ms ic ml r2 st1)" by auto
  then show ?case using "5.IH" "5.prems"(2) by fastforce
next
  case (7 ic ml greedy r b a g)
  show ?case
  proof (cases "st' = (b, a, g)")
    case False
    with "7.prems"(1) obtain st where st: "st \<in> set (ms ic ml r (b, a, g))"
      and sh: "length (fst (snd st)) < length a"
      and st': "st' \<in> set (ms ic ml (RStar greedy r) st)" by (auto simp: in_ms_star)
    have "(n, i, t) \<in> set (snd (snd st)) \<or> (\<exists>r' \<in> set (groups_of n r). t \<in> lang ic r')"
      using "7.IH"(2) [OF st] sh st' "7.prems"(2) by simp
    with "7.IH"(1) [OF st] show ?thesis by auto
  qed (use "7.prems" in simp)
next
  case (8 ic ml k r b a g)
  then obtain b' a' g' where 1: "(b', a', g') \<in> set (ms ic ml r (b, a, g))"
    and st': "st' = (b', a', (k, length b, rev (take (length b' - length b) b')) # g')" by auto
  from ms_lang [OF 1] obtain u where u: "u \<in> lang ic r" "b' = rev u @ b" by auto
  from "8.prems"(2) st' consider "k = n" "t = u" | "(n, i, t) \<in> set g'" using u by auto
  then show ?case
  proof cases
    case 1
    with u(1) show ?thesis by simp
  next
    case 2
    with "8.IH" [OF 1] show ?thesis by auto
  qed
qed (auto split: list.splits if_splits)

text \<open>The words of an expression without loops and without classes, in lower case.\<close>

fun words :: "re \<Rightarrow> string list option" where
  "words REps = Some [[]]"
| "words (RChar d) = Some [[to_lower d]]"
| "words (RSeq r1 r2) =
     (case (words r1, words r2) of
        (Some us, Some vs) \<Rightarrow> Some (concat (map (\<lambda>u. map (\<lambda>v. u @ v) vs) us))
      | _ \<Rightarrow> None)"
| "words (RAlt r1 r2) =
     (case (words r1, words r2) of (Some us, Some vs) \<Rightarrow> Some (us @ vs) | _ \<Rightarrow> None)"
| "words (RGrp n r) = words r"
| "words (RWordB p) = Some [[]]"
| "words (RLook p r) = Some [[]]"
| "words (RBehind p r) = Some [[]]"
| "words RBol = Some [[]]"
| "words REol = Some [[]]"
| "words _ = None"

lemma words_lang: "words r = Some ws \<Longrightarrow> t \<in> lang ic r \<Longrightarrow> lower t \<in> set ws"
proof (induction r arbitrary: t ws)
  case (RSeq r1 r2)
  then obtain us vs u v where "words r1 = Some us" "words r2 = Some vs" "t = u @ v"
    "u \<in> lang ic r1" "v \<in> lang ic r2" "ws = concat (map (\<lambda>u. map (\<lambda>v. u @ v) vs) us)"
    by (auto split: option.splits)
  with RSeq.IH(1) [of us u] RSeq.IH(2) [of vs v] show ?case by (auto simp: lower_def)
qed (auto simp: lower_def chr_matches_def split: option.splits if_splits)

text \<open>A group that every way to match sets.\<close>

fun sets_group :: "nat \<Rightarrow> re \<Rightarrow> bool" where
  "sets_group n (RGrp k r) = (k = n \<or> sets_group n r)"
| "sets_group n (RSeq r1 r2) = (sets_group n r1 \<or> sets_group n r2)"
| "sets_group n (RAlt r1 r2) = (sets_group n r1 \<and> sets_group n r2)"
| "sets_group n _ = False"

lemma ms_groups_mono: "st' \<in> set (ms ic ml r st) \<Longrightarrow> set (snd (snd st)) \<subseteq> set (snd (snd st'))"
  by (rule ms_induct [where P = "\<lambda>st st'. set (snd (snd st)) \<subseteq> set (snd (snd st'))"]) auto

lemma ms_sets_group:
  "st' \<in> set (ms ic ml r st) \<Longrightarrow> sets_group n r \<Longrightarrow> \<exists>x. (n, x) \<in> set (snd (snd st'))"
proof (induction n r arbitrary: st st' rule: sets_group.induct)
  case (1 n k r)
  obtain b a g where st: "st = (b, a, g)" by (cases st) auto
  with "1.prems" obtain b' a' g' where 1: "(b', a', g') \<in> set (ms ic ml r (b, a, g))"
    "st' = (b', a', (k, length b, rev (take (length b' - length b) b')) # g')" by auto
  show ?case
  proof (cases "k = n")
    case False
    with "1.prems"(2) have "sets_group n r" by simp
    from "1.IH" [OF 1(1) this] 1(2) show ?thesis by auto
  qed (use 1(2) in auto)
next
  case (2 n r1 r2)
  then obtain st1 where st1: "st1 \<in> set (ms ic ml r1 st)" "st' \<in> set (ms ic ml r2 st1)" by auto
  show ?case
  proof (cases "sets_group n r1")
    case True
    with "2.IH"(1) [OF st1(1)] ms_groups_mono [OF st1(2)] show ?thesis by blast
  next
    case False
    with "2.IH"(2) [OF st1(2)] "2.prems"(2) show ?thesis by simp
  qed
next
  case (3 n r1 r2)
  then have "sets_group n r1" "sets_group n r2" by simp_all
  moreover from "3.prems"(1) have "st' \<in> set (ms ic ml r1 st) \<or> st' \<in> set (ms ic ml r2 st)" by auto
  ultimately show ?case using "3.IH" by blast
qed simp_all

text \<open>An expression whose texts are made of characters of one kind.\<close>

fun over :: "bool \<Rightarrow> (char \<Rightarrow> bool) \<Rightarrow> re \<Rightarrow> bool" where
  "over ic P (RChar d) = (\<forall>c. chr_matches ic d c \<longrightarrow> P c)"
| "over ic P RAny = (\<forall>c. c \<noteq> CHR 0x0A \<longrightarrow> P c)"
| "over ic P (RCls neg is) = (\<forall>c. cls_matches ic neg is c \<longrightarrow> P c)"
| "over ic P (RSeq r1 r2) = (over ic P r1 \<and> over ic P r2)"
| "over ic P (RAlt r1 r2) = (over ic P r1 \<and> over ic P r2)"
| "over ic P (RStar greedy r) = over ic P r"
| "over ic P (RGrp n r) = over ic P r"
| "over ic P _ = True"

lemma over_lang: "over ic P r \<Longrightarrow> t \<in> lang ic r \<Longrightarrow> c \<in> set t \<Longrightarrow> P c"
proof (induction r arbitrary: t)
  case (RStar greedy r)
  then obtain us u where "set us \<subseteq> lang ic r" "u \<in> set us" "c \<in> set u" by auto
  with RStar.IH [of u] RStar.prems(1) show ?case by auto
next
  case (RSeq r1 r2)
  then obtain u v where "u \<in> lang ic r1" "v \<in> lang ic r2" "c \<in> set u \<or> c \<in> set v" by auto
  with RSeq.IH(1) [of u] RSeq.IH(2) [of v] RSeq.prems(1) show ?case by auto
next
  case (RAlt r1 r2)
  with RAlt.IH(1) [of t] RAlt.IH(2) [of t] show ?case by auto
qed (clarsimp; fail)+

text \<open>Every group is a slice of the text read so far, at its recorded start.\<close>

definition group_ok :: "string \<Rightarrow> nat \<times> nat \<times> string \<Rightarrow> bool" where
  "group_ok b x = (case x of (n, i, t) \<Rightarrow> \<exists>u v. rev b = u @ t @ v \<and> length u = i)"

lemma group_ok_append: "group_ok b x \<Longrightarrow> group_ok (t @ b) x"
  by (cases x) (fastforce simp: group_ok_def)

lemma ms_groups:
  assumes "st' \<in> set (ms ic ml r st)" and "\<forall>x \<in> set (snd (snd st)). group_ok (fst st) x"
  shows "\<forall>x \<in> set (snd (snd st')). group_ok (fst st') x"
proof -
  have "(\<exists>t. fst st' = t @ fst st) \<and>
      ((\<forall>x \<in> set (snd (snd st)). group_ok (fst st) x) \<longrightarrow>
        (\<forall>x \<in> set (snd (snd st')). group_ok (fst st') x))"
    using assms(1)
  proof (rule ms_induct)
    fix b a g b' a' g' n
    assume h: "(\<exists>t. fst (b', a', g') = t @ fst (b, a, g)) \<and>
      ((\<forall>x \<in> set (snd (snd (b, a, g))). group_ok (fst (b, a, g)) x) \<longrightarrow>
        (\<forall>x \<in> set (snd (snd (b', a', g'))). group_ok (fst (b', a', g')) x))"
    then obtain t where t: "b' = t @ b" by auto
    then have "group_ok b' (n, length b, rev (take (length b' - length b) b'))"
      by (simp add: group_ok_def) (metis append_Nil2 length_rev)
    with h t show "(\<exists>t. fst (b', a', (n, length b, rev (take (length b' - length b) b')) # g') =
         t @ fst (b, a, g)) \<and>
      ((\<forall>x \<in> set (snd (snd (b, a, g))). group_ok (fst (b, a, g)) x) \<longrightarrow>
        (\<forall>x \<in> set (snd (snd (b', a', (n, length b, rev (take (length b' - length b) b')) # g'))).
          group_ok (fst (b', a', (n, length b, rev (take (length b' - length b) b')) # g')) x))"
      by auto
  qed (auto dest: group_ok_append [where t = "[_]", simplified])
  with assms(2) show ?thesis by blast
qed


lemma ways_step: "(b', a', g') \<in> set (ways p b a) \<Longrightarrow> \<exists>t. a = t @ a' \<and> b' = rev t @ b"
  unfolding ways_def by (drule ms_step) simp

lemma ways_groups: "st \<in> set (ways p b a) \<Longrightarrow> \<forall>x \<in> set (snd (snd st)). group_ok (fst st) x"
  unfolding ways_def by (drule ms_groups) simp_all

text \<open>
  A well-formed match in the text \<open>s\<close> from offset \<open>k\<close>: its three parts are the text, it starts
  no earlier than \<open>k\<close>, and its groups are slices of the text at the offsets they record.
\<close>

definition match_in :: "nat \<Rightarrow> string \<Rightarrow> rmatch \<Rightarrow> bool" where
  "match_in k s m =
     (m_before m @ m_text m @ m_after m = s \<and> k \<le> length (m_before m) \<and>
      (\<forall>(n, i, t) \<in> set (m_groups m). \<exists>u v. s = u @ t @ v \<and> length u = i))"

lemma mk_match_in:
  assumes "st \<in> set (ways p b a)" and "rev b @ a = s" and "k \<le> length b"
  shows "match_in k s (mk_match b st)"
proof -
  obtain b' a' g' where st: "st = (b', a', g')" by (cases st) auto
  with assms(1) obtain t where t: "a = t @ a'" "b' = rev t @ b" by (auto dest: ways_step)
  have g: "\<exists>u v. s = u @ w @ v \<and> length u = i" if "(n, i, w) \<in> set g'" for n i w
  proof -
    from ways_groups [OF assms(1)] that st have "group_ok b' (n, i, w)" by auto
    then obtain u v where "rev b' = u @ w @ v" "length u = i" by (auto simp: group_ok_def)
    then have "s = u @ w @ (v @ a') \<and> length u = i" using t assms(2) by auto
    then show ?thesis by blast
  qed
  show ?thesis using t assms(2,3) g st by (auto simp: match_in_def mk_match_def)
qed

lemma search_from_Some:
  assumes "search_from p adv b a = Some (b1, st)"
  shows "\<exists>t a1. a = t @ a1 \<and> b1 = rev t @ b \<and> st \<in> set (ways p b1 a1) \<and>
    (adv \<longrightarrow> t = [] \<longrightarrow> fst st \<noteq> b1)"
  using assms
proof (induction p adv b a rule: search_from.induct)
  case (1 p adv b)
  then obtain sts where "b1 = b" "filter (\<lambda>st. adv \<longrightarrow> fst st \<noteq> b) (ways p b []) = st # sts"
    by (auto split: list.splits)
  then show ?case by (auto dest!: filter_head)
next
  case (2 p adv b c cs)
  show ?case
  proof (cases "filter (\<lambda>st. adv \<longrightarrow> fst st \<noteq> b) (ways p b (c # cs))")
    case Nil
    with "2.prems" "2.IH" obtain t a1 where
      "cs = t @ a1" "b1 = rev t @ c # b" "st \<in> set (ways p b1 a1)" by force
    then show ?thesis by (intro exI [where x = "c # t"] exI [where x = a1]) auto
  next
    case (Cons st' sts)
    with "2.prems" have "b1 = b" "st \<in> set (ways p b (c # cs)) \<and> (adv \<longrightarrow> fst st \<noteq> b)"
      using filter_head [OF Cons] by auto
    then show ?thesis by auto
  qed
qed

text \<open>\<open>search\<close> fails exactly when no position has a way to match.\<close>

lemma search_from_None:
  "search_from p False b a = None \<longleftrightarrow> (\<forall>t u. a = t @ u \<longrightarrow> ways p (rev t @ b) u = [])"
proof (induction p False b a rule: search_from.induct)
  case (1 p b)
  then show ?case by (auto split: list.splits)
next
  case (2 p b c cs)
  show ?case
  proof (cases "ways p b (c # cs)")
    case Nil
    with 2 have "search_from p False b (c # cs) = None \<longleftrightarrow>
        (\<forall>t u. cs = t @ u \<longrightarrow> ways p (rev t @ c # b) u = [])" by simp
    also have "\<dots> \<longleftrightarrow> (\<forall>t u. c # cs = t @ u \<longrightarrow> ways p (rev t @ b) u = [])"
    proof (intro iffI allI impI)
      fix t u
      assume "\<forall>t u. cs = t @ u \<longrightarrow> ways p (rev t @ c # b) u = []" and "c # cs = t @ u"
      then show "ways p (rev t @ b) u = []" using Nil by (cases t) auto
    next
      fix t u
      assume h: "\<forall>t u. c # cs = t @ u \<longrightarrow> ways p (rev t @ b) u = []" and "cs = t @ u"
      then show "ways p (rev t @ c # b) u = []"
        using h [THEN spec [where x = "c # t"], THEN spec [where x = u]] by simp
    qed
    finally show ?thesis .
  next
    case (Cons st sts)
    then have "\<exists>t u. c # cs = t @ u \<and> ways p (rev t @ b) u \<noteq> []"
      by (intro exI [where x = "[]"] exI [where x = "c # cs"]) simp
    moreover have "search_from p False b (c # cs) \<noteq> None" using Cons by simp
    ultimately show ?thesis by blast
  qed
qed

lemma re_search_in: "re_search p s = Some m \<Longrightarrow> match_in 0 s m"
  unfolding re_search_def
  by (auto dest!: search_from_Some intro!: mk_match_in)

text \<open>A group that took part in the match holds a text of one of the expressions that set it.\<close>

definition in_group :: "pattern \<Rightarrow> nat \<Rightarrow> string \<Rightarrow> bool" where
  "in_group p n t = (\<exists>r \<in> set (groups_of n (rx p)). t \<in> lang (rx_ignorecase p) r)"

lemma mk_match_group:
  assumes "st \<in> set (ways p b a)" and "m_group n (mk_match b st) = Some t" and "n \<noteq> 0"
  shows "in_group p n t"
proof -
  obtain b' a' g' where st: "st = (b', a', g')" by (cases st) auto
  with assms(2,3) obtain i where "map_of g' n = Some (i, t)" by (auto simp: m_group_def mk_match_def)
  then have "(n, i, t) \<in> set g'" by (rule map_of_SomeD)
  with ms_group_lang [of st "rx_ignorecase p" "rx_multiline p" "rx p" "(b, a, [])" n i t] assms(1) st
  show ?thesis by (auto simp: ways_def in_group_def)
qed

lemma re_search_group:
  assumes "re_search p s = Some m" and "m_group n m = Some t" and "n \<noteq> 0"
  shows "in_group p n t"
  using assms unfolding re_search_def
  by (auto dest!: search_from_Some intro: mk_match_group)

text \<open>A search that succeeds has read a text of the pattern's language inside the string.\<close>

lemma re_search_lang:
  assumes "re_search p s = Some m"
  shows "m_text m \<in> lang (rx_ignorecase p) (rx p)"
proof -
  from assms obtain b st a where "m = mk_match b st" "st \<in> set (ways p b a)"
    unfolding re_search_def by (auto dest!: search_from_Some)
  then show ?thesis
    using ms_lang [of st "rx_ignorecase p" "rx_multiline p" "rx p" "(b, a, [])"]
    by (auto simp: ways_def mk_match_def split: prod.splits)
qed

lemma mk_match_sets_group:
  assumes "st \<in> set (ways p b a)" and "sets_group n (rx p)" and "n \<noteq> 0"
  shows "\<exists>t. m_group n (mk_match b st) = Some t \<and> in_group p n t"
proof -
  obtain b' a' g' where st: "st = (b', a', g')" by (cases st) auto
  from ms_sets_group [OF assms(1) [unfolded ways_def] assms(2)] st
  obtain x where "(n, x) \<in> set g'" by auto
  then obtain y where "map_of g' n = Some y" by (metis weak_map_of_SomeI)
  with st assms(3) have "m_group n (mk_match b st) = Some (snd y)"
    by (simp add: m_group_def mk_match_def)
  with mk_match_group [OF assms(1) this assms(3)] show ?thesis by blast
qed

lemma re_search_sets:
  assumes "re_search p s = Some m" and "sets_group n (rx p)" and "n \<noteq> 0"
  shows "\<exists>t. m_group n m = Some t \<and> in_group p n t"
  using assms unfolding re_search_def
  by (auto dest!: search_from_Some intro: mk_match_sets_group)

lemma in_group_over:
  assumes "list_all (over (rx_ignorecase p) P) (groups_of n (rx p))" and "in_group p n t"
    and "c \<in> set t"
  shows "P c"
  using assms by (auto simp: in_group_def list_all_iff intro: over_lang)

lemma in_group_words:
  assumes "list_all (\<lambda>r. case words r of None \<Rightarrow> False | Some ws \<Rightarrow> list_all Q ws) (groups_of n (rx p))"
    and "in_group p n t"
  shows "Q (lower t)"
proof -
  from assms(2) obtain r where r: "r \<in> set (groups_of n (rx p))" "t \<in> lang (rx_ignorecase p) r"
    by (auto simp: in_group_def)
  with assms(1) obtain ws where "words r = Some ws" "\<forall>w \<in> set ws. Q w"
    by (auto simp: list_all_iff split: option.splits)
  with words_lang [OF _ r(2)] show ?thesis by blast
qed

lemma mk_match_before [simp]: "m_before (mk_match b st) = rev b"
  by (cases st) (simp add: mk_match_def)

lemma re_match_in: "re_match p s = Some m \<Longrightarrow> match_in 0 s m \<and> m_before m = []"
  unfolding re_match_def
  by (auto split: list.splits intro!: mk_match_in [where p = p and a = s])

lemma match_in_sublist: "match_in k s m \<Longrightarrow> sublist (m_text m) s"
  by (auto simp: match_in_def sublist_def)

lemma match_in_group_sublist:
  assumes "match_in k s m" and "m_group n m = Some t"
  shows "sublist t s"
proof (cases "n = 0")
  case True
  with assms show ?thesis by (auto simp: m_group_def match_in_sublist)
next
  case False
  with assms(2) obtain i where "map_of (m_groups m) n = Some (i, t)"
    by (auto simp: m_group_def)
  then have "(n, i, t) \<in> set (m_groups m)" by (rule map_of_SomeD)
  with assms(1) have "\<exists>u v. s = u @ t @ v \<and> length u = i" by (fastforce simp: match_in_def)
  then show ?thesis by (auto simp: sublist_def)
qed


section \<open>Scanning\<close>

text \<open>
  All matches from left to right without overlaps, each with the text between the end of the
  one before it and its start, and the text after the last one.  After an empty match the
  scanner asks for a non-empty one at the same position, as \<open>re\<close> does since Python 3.7.
\<close>

function scan :: "pattern \<Rightarrow> bool \<Rightarrow> string \<Rightarrow> string \<Rightarrow> (string \<times> rmatch) list \<times> string" where
  "scan p adv b a =
     (case search_from p adv b a of
        None \<Rightarrow> ([], a)
      | Some (b1, st) \<Rightarrow>
          (case scan p (fst st = b1) (fst st) (fst (snd st)) of
             (xs, t) \<Rightarrow> ((rev (take (length b1 - length b) b1), mk_match b1 st) # xs, t)))"
  by pat_completeness auto
termination
proof (relation "measure (\<lambda>(p, adv, b, a). 2 * length a + (if adv then 0 else 1))", simp, clarify)
  fix p :: pattern and adv b a b1 b' a' g'
  assume "search_from p adv b a = Some (b1, b', a', g')"
  then obtain t a1 where 1: "a = t @ a1" "b1 = rev t @ b" "(b', a', g') \<in> set (ways p b1 a1)"
    "adv \<longrightarrow> t = [] \<longrightarrow> fst (b', a', g') \<noteq> b1" by (blast dest: search_from_Some)
  then obtain u where "a1 = u @ a'" "b' = rev u @ b1" by (auto dest: ways_step)
  with 1 show "((p, fst (b', a', g') = b1, fst (b', a', g'), fst (snd (b', a', g'))), p, adv, b, a)
    \<in> measure (\<lambda>(p, adv, b, a). 2 * length a + (if adv then 0 else 1))"
    by (cases t; cases u) auto
qed

declare scan.simps [simp del]

definition re_finditer :: "pattern \<Rightarrow> string \<Rightarrow> rmatch list" where
  "re_finditer p s = map snd (fst (scan p False [] s))"

text \<open>\<open>p.sub(f, s)\<close> with a function of the match, and with a constant replacement.\<close>

definition re_sub_fun :: "pattern \<Rightarrow> (rmatch \<Rightarrow> string) \<Rightarrow> string \<Rightarrow> string" where
  "re_sub_fun p f s =
     (case scan p False [] s of (xs, t) \<Rightarrow> concat (map (\<lambda>(gap, m). gap @ f m) xs) @ t)"

definition re_sub :: "pattern \<Rightarrow> string \<Rightarrow> string \<Rightarrow> string" where
  "re_sub p r s = re_sub_fun p (\<lambda>_. r) s"

text \<open>\<open>p.split(s)\<close>, and \<open>p.findall(s)\<close> for a pattern without groups.\<close>

definition re_split :: "pattern \<Rightarrow> string \<Rightarrow> string list" where
  "re_split p s = (case scan p False [] s of (xs, t) \<Rightarrow> map fst xs @ [t])"

definition re_findall :: "pattern \<Rightarrow> string \<Rightarrow> string list" where
  "re_findall p s = map m_text (re_finditer p s)"

text \<open>The gaps, the matches and the rest are a partition of the text.\<close>

lemma scan_partition:
  "scan p adv b a = (xs, t) \<Longrightarrow> concat (map (\<lambda>(gap, m). gap @ m_text m) xs) @ t = a"
proof (induction p adv b a arbitrary: xs t rule: scan.induct)
  case (1 p adv b a)
  show ?case
  proof (cases "search_from p adv b a")
    case None
    with "1.prems" show ?thesis by (simp add: scan.simps [of p adv b a])
  next
    case (Some x)
    obtain b1 b' a' g' where x: "x = (b1, b', a', g')" by (cases x) auto
    from Some x obtain u a1 where u: "a = u @ a1" "b1 = rev u @ b" "(b', a', g') \<in> set (ways p b1 a1)"
      by (auto dest: search_from_Some)
    then obtain w where w: "a1 = w @ a'" "b' = rev w @ b1" by (auto dest: ways_step)
    obtain xs' t' where r: "scan p (b' = b1) b' a' = (xs', t')" by fastforce
    have "concat (map (\<lambda>(gap, m). gap @ m_text m) xs') @ t' = a'"
      using "1.IH" [OF Some x [symmetric]] r by simp
    moreover have "xs = (rev (take (length b1 - length b) b1), mk_match b1 (b', a', g')) # xs'" "t = t'"
      using "1.prems" Some x r by (simp_all add: scan.simps [of p adv b a])
    ultimately show ?thesis using u w by (simp add: mk_match_def)
  qed
qed

lemma scan_matches_in:
  "scan p adv b a = (xs, t) \<Longrightarrow> m \<in> snd ` set xs \<Longrightarrow> match_in (length b) (rev b @ a) m"
proof (induction p adv b a arbitrary: xs t rule: scan.induct)
  case (1 p adv b a)
  from "1.prems" obtain x where Some: "search_from p adv b a = Some x"
    by (cases "search_from p adv b a") (auto simp: scan.simps [of p adv b a])
  obtain b1 b' a' g' where x: "x = (b1, b', a', g')" by (cases x) auto
  from Some x obtain u a1 where u: "a = u @ a1" "b1 = rev u @ b" "(b', a', g') \<in> set (ways p b1 a1)"
    by (auto dest: search_from_Some)
  then obtain w where w: "a1 = w @ a'" "b' = rev w @ b1" by (auto dest: ways_step)
  obtain xs' t' where r: "scan p (b' = b1) b' a' = (xs', t')" by fastforce
  have xs: "xs = (rev (take (length b1 - length b) b1), mk_match b1 (b', a', g')) # xs'"
    using "1.prems"(1) Some x r by (simp add: scan.simps [of p adv b a])
  show ?case
  proof (cases "m \<in> snd ` set xs'")
    case True
    have "match_in (length b') (rev b' @ a') m" using "1.IH" [OF Some x [symmetric]] r True by simp
    then show ?thesis using u w by (auto simp: match_in_def)
  next
    case False
    with "1.prems"(2) xs have "m = mk_match b1 (b', a', g')" by auto
    then show ?thesis using u by (auto intro!: mk_match_in)
  qed
qed

lemma re_finditer_in: "m \<in> set (re_finditer p s) \<Longrightarrow> match_in 0 s m"
proof -
  assume "m \<in> set (re_finditer p s)"
  moreover obtain xs t where "scan p False [] s = (xs, t)" by fastforce
  ultimately show ?thesis
    using scan_matches_in [of p False "[]" s xs t m] by (auto simp: re_finditer_def)
qed


lemma scan_is_way:
  "scan p adv b a = (xs, t) \<Longrightarrow> m \<in> snd ` set xs \<Longrightarrow> \<exists>b1 a1 st. st \<in> set (ways p b1 a1) \<and> m = mk_match b1 st"
proof (induction p adv b a arbitrary: xs t rule: scan.induct)
  case (1 p adv b a)
  from "1.prems" obtain x where Some: "search_from p adv b a = Some x"
    by (cases "search_from p adv b a") (auto simp: scan.simps [of p adv b a])
  obtain b1 st where x: "x = (b1, st)" by (cases x) auto
  from Some x obtain a1 where u: "st \<in> set (ways p b1 a1)" by (auto dest: search_from_Some)
  obtain xs' t' where r: "scan p (fst st = b1) (fst st) (fst (snd st)) = (xs', t')" by fastforce
  have xs: "xs = (rev (take (length b1 - length b) b1), mk_match b1 st) # xs'"
    using "1.prems"(1) Some x r by (simp add: scan.simps [of p adv b a])
  show ?case
  proof (cases "m \<in> snd ` set xs'")
    case True
    then show ?thesis using "1.IH" [OF Some x [symmetric] r] by simp
  next
    case False
    with "1.prems"(2) xs have "m = mk_match b1 st" by auto
    then show ?thesis using u by blast
  qed
qed

lemma re_finditer_is_way:
  assumes "m \<in> set (re_finditer p s)"
  shows "\<exists>b a st. st \<in> set (ways p b a) \<and> m = mk_match b st"
proof -
  obtain xs u where "scan p False [] s = (xs, u)" by fastforce
  with assms show ?thesis using scan_is_way [of p False "[]" s xs u m]
    by (auto simp: re_finditer_def)
qed

lemma re_finditer_group:
  assumes "m \<in> set (re_finditer p s)" and "m_group n m = Some t" and "n \<noteq> 0"
  shows "in_group p n t"
  using re_finditer_is_way [OF assms(1)] assms(2,3) mk_match_group by blast

lemma re_finditer_sets:
  "m \<in> set (re_finditer p s) \<Longrightarrow> sets_group n (rx p) \<Longrightarrow> n \<noteq> 0 \<Longrightarrow>
   \<exists>t. m_group n m = Some t \<and> in_group p n t"
  by (drule re_finditer_is_way) (auto intro: mk_match_sets_group)

lemma re_finditer_Nil: "re_finditer p s = [] \<longleftrightarrow> re_search p s = None"
  by (auto simp: re_finditer_def re_search_def scan.simps [of p False "[]" s]
      split: option.splits prod.splits)

lemma re_sub_none: "re_search p s = None \<Longrightarrow> re_sub_fun p f s = s"
  by (auto simp: re_sub_fun_def re_search_def scan.simps [of p False "[]" s])

lemma re_sub_id: "re_sub_fun p m_text s = s"
  using scan_partition [of p False "[]" s] by (simp add: re_sub_fun_def split: prod.splits)

lemma re_split_nonempty [simp]: "re_split p s \<noteq> []"
  by (simp add: re_split_def split: prod.splits)

end
