(* ===== verification/PyVal.thy ===== *)
theory PyVal
  imports PyFloat PyRegex
begin

text \<open>
  The dynamically typed values the code passes around (decoded JSON): \<open>None\<close>, booleans,
  integers, floats, strings, lists and dictionaries with string keys in insertion order; their
  truth, equality, conversion and printing as Python defines them.
\<close>

section \<open>Reading a float\<close>

text \<open>A digit part of a numeric literal: digits, with single underscores between digits.\<close>

fun digits_aux :: "bool \<Rightarrow> string \<Rightarrow> bool" where
  "digits_aux after_digit [] = after_digit"
| "digits_aux after_digit (c # cs) =
     (if is_digit c then digits_aux True cs
      else after_digit \<and> c = CHR ''_'' \<and> cs \<noteq> [] \<and> digits_aux False cs)"

definition digit_part :: "string \<Rightarrow> bool" where
  "digit_part s = digits_aux False s"

definition digits_only :: "string \<Rightarrow> string" where
  "digits_only s = filter is_digit s"

definition take_sign :: "string \<Rightarrow> bool \<times> string" where
  "take_sign s =
     (case s of
        c # cs \<Rightarrow> if c = CHR ''-'' then (True, cs) else if c = CHR ''+'' then (False, cs) else (False, s)
      | [] \<Rightarrow> (False, []))"

definition cut_at :: "(char \<Rightarrow> bool) \<Rightarrow> string \<Rightarrow> string \<times> string option" where
  "cut_at p s =
     (takeWhile (\<lambda>c. \<not> p c) s,
      case dropWhile (\<lambda>c. \<not> p c) s of [] \<Rightarrow> None | _ # r \<Rightarrow> Some r)"

definition pow10 :: "int \<Rightarrow> rat" where
  "pow10 e = (if 0 \<le> e then 10 ^ nat e else 1 / 10 ^ nat (- e))"

text \<open>The exponent of a literal: absent, or a sign and a digit part.\<close>

definition exponent_of :: "string option \<Rightarrow> int option" where
  "exponent_of ex =
     (case ex of
        None \<Rightarrow> Some 0
      | Some t \<Rightarrow>
          (case take_sign t of (neg, ds) \<Rightarrow>
             if digit_part ds then Some ((if neg then -1 else 1) * int_of_digits (digits_only ds))
             else None))"

definition decimal_of :: "string \<Rightarrow> string option \<Rightarrow> string option \<Rightarrow> rat option" where
  "decimal_of ip fp ex =
     (let f = (case fp of None \<Rightarrow> [] | Some t \<Rightarrow> t) in
      if (ip = [] \<or> digit_part ip) \<and> (f = [] \<or> digit_part f) \<and> \<not> (ip = [] \<and> f = [])
      then (case exponent_of ex of
              None \<Rightarrow> None
            | Some e \<Rightarrow>
                Some (of_int (int_of_digits (digits_only ip @ digits_only f)) *
                      pow10 (e - int (length (digits_only f)))))
      else None)"

text \<open>\<open>float(s)\<close> of a string: \<open>None\<close> is \<open>ValueError\<close>.\<close>

definition parse_float :: "string \<Rightarrow> pyfloat option" where
  "parse_float s =
     (case take_sign (strip s) of (neg, t) \<Rightarrow>
        let sgn = (\<lambda>x. if neg then fneg x else x) in
        if lower t = ''inf'' \<or> lower t = ''infinity'' then Some (sgn PInf)
        else if lower t = ''nan'' then Some NaN
        else (case cut_at (\<lambda>c. c = CHR ''e'' \<or> c = CHR ''E'') t of (m, ex) \<Rightarrow>
               case cut_at (\<lambda>c. c = CHR ''.'') m of (ip, fp) \<Rightarrow>
                 map_option (\<lambda>x. sgn (rnd x)) (decimal_of ip fp ex)))"

text \<open>\<open>int(s)\<close> of a string.\<close>

definition parse_int :: "string \<Rightarrow> int option" where
  "parse_int s =
     (case take_sign (strip s) of (neg, t) \<Rightarrow>
        if digit_part t then Some ((if neg then -1 else 1) * int_of_digits (digits_only t)) else None)"

text \<open>A text of digits and points denotes no negative number.\<close>

lemma digits_only_nonneg: "(0 :: rat) \<le> of_int (int_of_digits (digits_only s @ digits_only t))"
  by (rule iffD2 [OF of_int_0_le_iff], rule int_of_digits_nonneg) (auto simp: digits_only_def)

lemma pow10_nonneg: "0 \<le> pow10 e"
  by (simp add: pow10_def)

lemma decimal_of_nonneg: "decimal_of ip fp ex = Some x \<Longrightarrow> 0 \<le> x"
proof -
  assume "decimal_of ip fp ex = Some x"
  then obtain u e where "x = of_int (int_of_digits (digits_only ip @ digits_only u)) * pow10 e"
    by (auto simp: decimal_of_def Let_def simp del: of_int_mult split: option.splits if_splits)
  then show "0 \<le> x" by (simp only: mult_nonneg_nonneg digits_only_nonneg pow10_nonneg)
qed

lemma parse_float_nonneg:
  assumes "parse_float s = Some x" and s: "\<forall>c \<in> set s. is_digit c \<or> c = CHR ''.''"
  shows "fle (Fin 0) x"
proof -
  have sp: "\<not> is_space c" "to_lower c = c" "c \<noteq> CHR ''-''" "c \<noteq> CHR ''+''" "c \<noteq> CHR ''i''" "c \<noteq> CHR ''n''"
    if "c \<in> set s" for c
  proof -
    have n: "\<not> is_digit CHR ''-''" "\<not> is_digit CHR ''+''" "\<not> is_digit CHR ''i''" "\<not> is_digit CHR ''n''"
      by (simp_all add: is_digit_code)
    from s that consider (d) "is_digit c" | (p) "c = CHR ''.''" by blast
    then have "\<not> is_space c \<and> to_lower c = c \<and> c \<noteq> CHR ''-'' \<and> c \<noteq> CHR ''+'' \<and> c \<noteq> CHR ''i'' \<and> c \<noteq> CHR ''n''"
    proof cases
      case d
      with n show ?thesis by (metis is_digit_not_space to_lower_digit)
    next
      case p
      then show ?thesis by (simp add: is_space_code to_lower_def is_upper_code)
    qed
    then show "\<not> is_space c" "to_lower c = c" "c \<noteq> CHR ''-''" "c \<noteq> CHR ''+''" "c \<noteq> CHR ''i''"
      "c \<noteq> CHR ''n''" by blast+
  qed
  have f: "strip s = s" "take_sign s = (False, s)" "lower s = s"
    unfolding strip_def lower_def
    by (rule strip_by_id, use sp in blast) (use sp(2-4) in \<open>auto simp: take_sign_def map_idI split: list.splits\<close>)
  have ne: "s \<noteq> t" if "CHR ''n'' \<in> set t" for t using sp(6) that by blast
  have "s \<noteq> ''inf''" "s \<noteq> ''infinity''" "s \<noteq> ''nan''" by (rule ne, simp)+
  with f have "parse_float s =
      (case cut_at (\<lambda>c. c = CHR ''e'' \<or> c = CHR ''E'') s of (m, ex) \<Rightarrow>
         case cut_at (\<lambda>c. c = CHR ''.'') m of (ip, fp) \<Rightarrow> map_option rnd (decimal_of ip fp ex))"
    unfolding parse_float_def by (simp only: prod.case Let_def if_False simp_thms)
  moreover obtain m ex where "cut_at (\<lambda>c. c = CHR ''e'' \<or> c = CHR ''E'') s = (m, ex)" by (rule prod.exhaust)
  moreover obtain ip fp where "cut_at (\<lambda>c. c = CHR ''.'') m = (ip, fp)" by (rule prod.exhaust)
  ultimately have "map_option rnd (decimal_of ip fp ex) = Some x" using assms(1) by (simp only: prod.case)
  then show ?thesis using rnd_nonneg decimal_of_nonneg by auto
qed

text \<open>A non-empty string of digits reads as the integer it spells.\<close>

lemma digits_aux_all: "\<forall>c \<in> set s. is_digit c \<Longrightarrow> digits_aux b s = (b \<or> s \<noteq> [])"
  by (induction s arbitrary: b) simp_all

lemma cut_at_none: "\<forall>c \<in> set s. \<not> p c \<Longrightarrow> cut_at p s = (s, None)"
proof -
  assume h: "\<forall>c \<in> set s. \<not> p c"
  then have d: "dropWhile (\<lambda>c. \<not> p c) s = []" by (simp add: dropWhile_eq_Nil_conv)
  have t: "takeWhile (\<lambda>c. \<not> p c) s = s" using h by (simp add: takeWhile_eq_all_conv)
  show ?thesis unfolding cut_at_def d t by simp
qed

lemma parse_float_digits:
  assumes s: "\<forall>c \<in> set s. is_digit c" and ne: "s \<noteq> []"
  shows "parse_float s = Some (rnd (of_int (int_of_digits s)))"
proof -
  have other: "c \<noteq> d" if "c \<in> set s" "\<not> is_digit d" for c d using s that by auto
  have nd: "\<not> is_digit CHR ''-''" "\<not> is_digit CHR ''+''" "\<not> is_digit CHR ''n''" "\<not> is_digit CHR ''e''"
    "\<not> is_digit CHR ''E''" "\<not> is_digit CHR ''.''" by (simp_all add: is_digit_code)
  have f: "strip s = s" "lower s = s"
    unfolding strip_def lower_def by (rule strip_by_id, use s in auto) (use s in \<open>simp add: map_idI\<close>)
  have "take_sign s = (False, s)"
    using ne other [of _ "CHR ''-''"] other [of _ "CHR ''+''"] nd
    by (cases s) (auto simp: take_sign_def)
  moreover have n: "s \<noteq> t" if "CHR ''n'' \<in> set t" for t using other [of _ "CHR ''n''"] nd that by blast
  have "s \<noteq> ''inf''" "s \<noteq> ''infinity''" "s \<noteq> ''nan''" by (rule n, simp)+
  moreover have "cut_at (\<lambda>c. c = CHR ''e'' \<or> c = CHR ''E'') s = (s, None)" "cut_at (\<lambda>c. c = CHR ''.'') s = (s, None)"
    using other nd by (auto intro!: cut_at_none)
  moreover have "decimal_of s None None = Some (of_int (int_of_digits s))"
    using s ne by (simp add: decimal_of_def digit_part_def digits_aux_all exponent_of_def digits_only_def pow10_def)
  ultimately show ?thesis
    unfolding parse_float_def by (simp only: f prod.case Let_def if_False simp_thms option.map)
qed

section \<open>Printing a float\<close>

text \<open>The decimal exponent \<open>k\<close> of a positive value: \<open>10 ^ (k - 1) \<le> x < 10 ^ k\<close>.\<close>

definition dec_exp :: "rat \<Rightarrow> int" where
  "dec_exp x =
     (if 1 \<le> x then int (length (show_nat \<lfloor>x\<rfloor>))
      else 1 - int (length (show_nat (\<lceil>1 / x\<rceil> - 1))))"

text \<open>The shortest digit string which reads back as the value, the nearest one of that length.\<close>

definition repr_digits :: "nat \<Rightarrow> rat \<Rightarrow> int option" where
  "repr_digits n x =
     (let sc = pow10 (dec_exp x - int n); f = \<lfloor>x / sc\<rfloor>;
          ok = (\<lambda>c. rnd (of_int c * sc) = Fin x)
      in if ok f \<and> ok (f + 1)
         then (if x / sc - of_int f \<le> 1 / 2 then Some f else Some (f + 1))
         else if ok f then Some f else if ok (f + 1) then Some (f + 1) else None)"

fun repr_search :: "nat list \<Rightarrow> rat \<Rightarrow> int \<times> nat" where
  "repr_search [] x = (0, 0)"
| "repr_search (n # ns) x = (case repr_digits n x of Some c \<Rightarrow> (c, n) | None \<Rightarrow> repr_search ns x)"

definition repr_pos :: "rat \<Rightarrow> string" where
  "repr_pos x =
     (case repr_search [1..<18] x of (c, n) \<Rightarrow>
        let full = show_nat c;
            k = dec_exp x + int (length full) - int n;
            ds = rstrip_by (\<lambda>c. c = CHR ''0'') full
        in if -4 < k \<and> k \<le> 16
           then (if k \<le> 0 then ''0.'' @ replicate (nat (- k)) CHR ''0'' @ ds
                 else if int (length ds) \<le> k
                 then ds @ replicate (nat k - length ds) CHR ''0'' @ ''.0''
                 else take (nat k) ds @ ''.'' @ drop (nat k) ds)
           else take 1 ds @ (if length ds = 1 then [] else CHR ''.'' # drop 1 ds) @
                (if k - 1 < 0 then ''e-'' else ''e+'') @
                (let e = show_nat \<bar>k - 1\<bar> in if length e = 1 then CHR ''0'' # e else e))"

fun float_repr :: "pyfloat \<Rightarrow> string" where
  "float_repr (Fin x) =
     (if x = 0 then ''0.0'' else if 0 < x then repr_pos x else CHR ''-'' # repr_pos (- x))"
| "float_repr PInf = ''inf''"
| "float_repr NInf = ''-inf''"
| "float_repr NaN = ''nan''"

section \<open>Values\<close>

datatype pyval =
    VNone
  | VBool bool
  | VInt int
  | VFloat pyfloat
  | VStr string
  | VList "pyval list"
  | VDict "(string \<times> pyval) list"

type_synonym pydict = "(string \<times> pyval) list"

fun truthy :: "pyval \<Rightarrow> bool" where
  "truthy VNone = False"
| "truthy (VBool b) = b"
| "truthy (VInt i) = (i \<noteq> 0)"
| "truthy (VFloat f) = (f \<noteq> Fin 0)"
| "truthy (VStr s) = (s \<noteq> [])"
| "truthy (VList xs) = (xs \<noteq> [])"
| "truthy (VDict d) = (d \<noteq> [])"

text \<open>\<open>a or b\<close>.\<close>

definition or_val :: "pyval \<Rightarrow> pyval \<Rightarrow> pyval" where
  "or_val a b = (if truthy a then a else b)"

text \<open>The exact number a numeric value denotes; booleans are numbers.\<close>

fun num_val :: "pyval \<Rightarrow> pyfloat option" where
  "num_val (VBool b) = Some (Fin (if b then 1 else 0))"
| "num_val (VInt i) = Some (Fin (of_int i))"
| "num_val (VFloat f) = Some f"
| "num_val _ = None"

fun py_eq :: "pyval \<Rightarrow> pyval \<Rightarrow> bool" where
  "py_eq VNone w = (w = VNone)"
| "py_eq (VStr s) w = (w = VStr s)"
| "py_eq (VList xs) w = (case w of VList ys \<Rightarrow> list_all2 py_eq xs ys | _ \<Rightarrow> False)"
| "py_eq (VDict d) w =
     (case w of
        VDict e \<Rightarrow> length d = length e \<and>
          (\<forall>(k, v) \<in> set d. case map_of e k of None \<Rightarrow> False | Some u \<Rightarrow> py_eq v u)
      | _ \<Rightarrow> False)"
| "py_eq v w =
     (case (num_val v, num_val w) of (Some x, Some y) \<Rightarrow> feq x y | _ \<Rightarrow> False)"

definition is_none :: "pyval \<Rightarrow> bool" where
  "is_none v = (v = VNone)"

definition is_dict :: "pyval \<Rightarrow> bool" where
  "is_dict v = (case v of VDict _ \<Rightarrow> True | _ \<Rightarrow> False)"

definition is_list :: "pyval \<Rightarrow> bool" where
  "is_list v = (case v of VList _ \<Rightarrow> True | _ \<Rightarrow> False)"

definition is_str :: "pyval \<Rightarrow> bool" where
  "is_str v = (case v of VStr _ \<Rightarrow> True | _ \<Rightarrow> False)"

section \<open>Conversions\<close>

text \<open>\<open>float(v)\<close>.\<close>

fun float_of :: "pyval \<Rightarrow> pyfloat result" where
  "float_of (VBool b) = Inr (Fin (if b then 1 else 0))"
| "float_of (VInt i) = (let x = fint i in if is_finite x then Inr x else Inl OverflowError)"
| "float_of (VFloat f) = Inr f"
| "float_of (VStr s) = (case parse_float s of Some x \<Rightarrow> Inr x | None \<Rightarrow> Inl ValueError)"
| "float_of _ = Inl TypeError"

text \<open>\<open>int(v)\<close>: floats are truncated towards zero.\<close>

definition trunc :: "rat \<Rightarrow> int" where
  "trunc x = (if 0 \<le> x then \<lfloor>x\<rfloor> else - \<lfloor>- x\<rfloor>)"

fun int_of :: "pyval \<Rightarrow> int result" where
  "int_of (VBool b) = Inr (if b then 1 else 0)"
| "int_of (VInt i) = Inr i"
| "int_of (VFloat (Fin x)) = Inr (trunc x)"
| "int_of (VFloat NaN) = Inl ValueError"
| "int_of (VFloat _) = Inl OverflowError"
| "int_of (VStr s) = (case parse_int s of Some i \<Rightarrow> Inr i | None \<Rightarrow> Inl ValueError)"
| "int_of _ = Inl TypeError"

text \<open>
  \<open>repr(v)\<close> and \<open>str(v)\<close>.  A string is quoted with single quotes unless it holds a single
  quote and no double quote; backslashes, the quote and the control characters are escaped.
\<close>

definition hex_digit :: "nat \<Rightarrow> char" where
  "hex_digit n = ''0123456789abcdef'' ! n"

definition repr_char :: "char \<Rightarrow> char \<Rightarrow> string" where
  "repr_char q c =
     (if c = q \<or> c = CHR 0x5C then [CHR 0x5C, c]
      else if c = CHR 0x0A then [CHR 0x5C, CHR ''n'']
      else if c = CHR 0x0D then [CHR 0x5C, CHR ''r'']
      else if c = CHR 0x09 then [CHR 0x5C, CHR ''t'']
      else if code c < 32 \<or> code c = 127
      then [CHR 0x5C, CHR ''x'', hex_digit (code c div 16), hex_digit (code c mod 16)]
      else [c])"

definition repr_str :: "string \<Rightarrow> string" where
  "repr_str s =
     (let q = (if CHR 0x27 \<in> set s \<and> CHR 0x22 \<notin> set s then CHR 0x22 else CHR 0x27)
      in [q] @ concat (map (repr_char q) s) @ [q])"

fun py_repr :: "pyval \<Rightarrow> string" where
  "py_repr VNone = ''None''"
| "py_repr (VBool b) = (if b then ''True'' else ''False'')"
| "py_repr (VInt i) = show_int i"
| "py_repr (VFloat f) = float_repr f"
| "py_repr (VStr s) = repr_str s"
| "py_repr (VList xs) = ''['' @ join '', '' (map py_repr xs) @ '']''"
| "py_repr (VDict d) =
     ''{'' @ join '', '' (map (\<lambda>(k, v). repr_str k @ '': '' @ py_repr v) d) @ ''}''"

definition py_str :: "pyval \<Rightarrow> string" where
  "py_str v = (case v of VStr s \<Rightarrow> s | _ \<Rightarrow> py_repr v)"

text \<open>\<open>str(v or '''')\<close>, the idiom the code uses to read a text field.\<close>

definition str_or :: "pyval \<Rightarrow> string" where
  "str_or v = (if truthy v then py_str v else [])"

text \<open>\<open>str(v or '''').strip().lower()\<close>.\<close>

definition clean_lower :: "pyval \<Rightarrow> string" where
  "clean_lower v = lower (strip (str_or v))"

text \<open>\<open>str(t or '''')\<close> of a \<open>str | None\<close>.\<close>

definition text_or :: "string option \<Rightarrow> string" where
  "text_or t = (case t of Some s \<Rightarrow> s | None \<Rightarrow> [])"

section \<open>Dictionaries\<close>

definition dget :: "pydict \<Rightarrow> string \<Rightarrow> pyval" where
  "dget d k = (case map_of d k of Some v \<Rightarrow> v | None \<Rightarrow> VNone)"

definition dget_or :: "pydict \<Rightarrow> string \<Rightarrow> pyval \<Rightarrow> pyval" where
  "dget_or d k v = (case map_of d k of Some w \<Rightarrow> w | None \<Rightarrow> v)"

definition dhas :: "pydict \<Rightarrow> string \<Rightarrow> bool" where
  "dhas d k = (map_of d k \<noteq> None)"

text \<open>\<open>d[k] = v\<close>: a present key keeps its place, a new one goes to the end.\<close>

fun dput :: "pydict \<Rightarrow> string \<Rightarrow> pyval \<Rightarrow> pydict" where
  "dput [] k v = [(k, v)]"
| "dput ((k', w) # d) k v = (if k' = k then (k, v) # d else (k', w) # dput d k v)"

text \<open>\<open>del d[k]\<close>, and the dictionary after \<open>d.pop(k, None)\<close>.\<close>

definition ddel :: "pydict \<Rightarrow> string \<Rightarrow> pydict" where
  "ddel d k = filter (\<lambda>(k', _). k' \<noteq> k) d"

definition dupdate :: "pydict \<Rightarrow> pydict \<Rightarrow> pydict" where
  "dupdate d e = foldl (\<lambda>d (k, v). dput d k v) d e"

text \<open>The dictionary of a value, for \<open>dict(v or {})\<close> and \<open>v if isinstance(v, dict) else {}\<close>.\<close>

definition dict_of :: "pyval \<Rightarrow> pydict" where
  "dict_of v = (case v of VDict d \<Rightarrow> d | _ \<Rightarrow> [])"

text \<open>\<open>list(v or [])\<close>: a string iterates over its characters, a dictionary over its keys.\<close>

fun iter_of :: "pyval \<Rightarrow> pyval list result" where
  "iter_of (VList xs) = Inr xs"
| "iter_of (VStr s) = Inr (map (\<lambda>c. VStr [c]) s)"
| "iter_of (VDict d) = Inr (map (\<lambda>(k, _). VStr k) d)"
| "iter_of _ = Inl TypeError"

definition list_or_empty :: "pyval \<Rightarrow> pyval list result" where
  "list_or_empty v = (if truthy v then iter_of v else Inr [])"

text \<open>\<open>list(dict.fromkeys(xs))\<close>; lists and dictionaries are not hashable.\<close>

definition hashable :: "pyval \<Rightarrow> bool" where
  "hashable v = (\<not> is_list v \<and> \<not> is_dict v)"

definition fromkeys :: "pyval list \<Rightarrow> pyval list result" where
  "fromkeys xs =
     (if list_all hashable xs
      then Inr (foldl (\<lambda>acc x. if list_ex (py_eq x) acc then acc else acc @ [x]) [] xs)
      else Inl TypeError)"

section \<open>Facts\<close>

lemma dget_dput_same [simp]: "dget (dput d k v) k = v"
  by (induction d k v rule: dput.induct) (auto simp: dget_def)

lemma dget_dput_other [simp]: "k' \<noteq> k \<Longrightarrow> dget (dput d k v) k' = dget d k'"
  by (induction d k v rule: dput.induct) (auto simp: dget_def)

lemma map_of_dput: "map_of (dput d k v) = (map_of d)(k \<mapsto> v)"
  by (induction d k v rule: dput.induct) auto

lemma keys_dput [simp]: "fst ` set (dput d k v) = insert k (fst ` set d)"
  by (induction d k v rule: dput.induct) auto

lemma dhas_dput [simp]: "dhas (dput d k v) k' \<longleftrightarrow> k' = k \<or> dhas d k'"
  by (induction d k v rule: dput.induct) (auto simp: dhas_def)

lemma map_of_ddel: "map_of (ddel d k) = (map_of d)(k := None)"
  by (induction d) (auto simp: ddel_def fun_eq_iff)

lemma dhas_ddel [simp]: "dhas (ddel d k) k' \<longleftrightarrow> k' \<noteq> k \<and> dhas d k'"
  by (simp add: dhas_def map_of_ddel)

lemma dget_ddel [simp]: "dget (ddel d k) k' = (if k' = k then VNone else dget d k')"
  by (simp add: dget_def map_of_ddel)

lemma distinct_dput: "distinct (map fst d) \<Longrightarrow> distinct (map fst (dput d k v))"
proof (induction d k v rule: dput.induct)
  case (2 k' w d k v)
  then show ?case using keys_dput [of d k v] by (auto simp flip: set_map)
qed simp

lemma dput_same: "dget d k = v \<Longrightarrow> dhas d k \<Longrightarrow> dput d k v = d"
  by (induction d k v rule: dput.induct) (auto simp: dget_def dhas_def)

lemma py_eq_refl_str [simp]: "py_eq (VStr s) (VStr t) \<longleftrightarrow> s = t"
  by auto

lemma truthy_VNone_or [simp]: "or_val VNone v = v"
  by (simp add: or_val_def)

lemma str_or_VStr [simp]: "str_or (VStr s) = s"
  by (simp add: str_or_def py_str_def)

lemma str_or_VNone [simp]: "str_or VNone = []"
  by (simp add: str_or_def)

lemma text_or_simps [simp]: "text_or (Some s) = s" "text_or None = []"
  by (simp_all add: text_or_def)

text \<open>On strings \<open>list(dict.fromkeys(xs))\<close> is \<open>dedup\<close>.\<close>

lemma foldl_dedup:
  "distinct acc \<Longrightarrow>
   foldl (\<lambda>acc x. if x \<in> set acc then acc else acc @ [x]) acc xs =
     acc @ filter (\<lambda>x. x \<notin> set acc) (dedup xs)"
proof (induction xs arbitrary: acc)
  case (Cons x xs)
  show ?case
  proof (cases "x \<in> set acc")
    case True
    then have "filter (\<lambda>y. y \<notin> set acc) (filter (\<lambda>y. y \<noteq> x) (dedup xs)) =
        filter (\<lambda>y. y \<notin> set acc) (dedup xs)" by (auto simp: intro!: filter_cong)
    with Cons True show ?thesis by simp
  next
    case False
    with Cons.prems have "distinct (acc @ [x])" by simp
    moreover have "filter (\<lambda>y. y \<notin> set (acc @ [x])) (dedup xs) =
        filter (\<lambda>y. y \<notin> set acc) (filter (\<lambda>y. y \<noteq> x) (dedup xs))" by (auto intro!: filter_cong)
    ultimately show ?thesis using Cons.IH [of "acc @ [x]"] False by simp
  qed
qed simp

lemma fromkeys_Nil_iff: "fromkeys xs = Inr ys \<Longrightarrow> ys = [] \<longleftrightarrow> xs = []"
proof -
  have "acc \<noteq> [] \<Longrightarrow> foldl (\<lambda>acc x. if list_ex (py_eq x) acc then acc else acc @ [x]) acc zs \<noteq> []"
    for acc zs by (induction zs arbitrary: acc) simp_all
  then show "fromkeys xs = Inr ys \<Longrightarrow> ys = [] \<longleftrightarrow> xs = []"
    by (cases xs) (auto simp: fromkeys_def split: if_splits)
qed

lemma fromkeys_sub: "fromkeys xs = Inr ys \<Longrightarrow> set ys \<subseteq> set xs"
proof -
  have "set (foldl (\<lambda>acc x. if list_ex (py_eq x) acc then acc else acc @ [x]) acc zs) \<subseteq> set acc \<union> set zs"
    for acc zs
  proof (induction zs arbitrary: acc)
    case (Cons z zs)
    from Cons [of acc] Cons [of "acc @ [z]"] show ?case by auto
  qed simp
  from this [of "[]"] show "fromkeys xs = Inr ys \<Longrightarrow> set ys \<subseteq> set xs"
    by (auto simp: fromkeys_def split: if_splits)
qed

lemma fromkeys_strs: "fromkeys (map VStr ss) = Inr (map VStr (dedup ss))"
proof -
  have "foldl (\<lambda>acc x. if list_ex (py_eq x) acc then acc else acc @ [x]) (map VStr acc) (map VStr xs) =
      map VStr (foldl (\<lambda>acc x. if x \<in> set acc then acc else acc @ [x]) acc xs)" for acc xs
  proof (induction xs arbitrary: acc)
    case (Cons x xs)
    have "list_ex (py_eq (VStr x)) (map VStr acc) \<longleftrightarrow> x \<in> set acc"
      by (auto simp: list_ex_iff)
    then show ?case using Cons [of "acc @ [x]"] Cons [of acc] by simp
  qed simp
  from this [of "[]" ss] show ?thesis
    using foldl_dedup [of "[]" ss] by (simp add: fromkeys_def list_all_iff hashable_def is_list_def is_dict_def)
qed

end
