(* ===== verification/PriceNorm.thy ===== *)
theory PriceNorm
  imports PyVal
begin

text \<open>
  \<open>price_normalization.py\<close>: reading a price and its unit from broker text, the conversion to
  rupees, the rental conventions, the evidence for sale or rent, and the recovery of the one
  price a source slice states.
\<close>

section \<open>Units and patterns\<close>

definition unit_multipliers :: "(string \<times> int) list" where
  "unit_multipliers =
    [(''cr'', 10000000), (''crore'', 10000000), (''crores'', 10000000),
     (''lac'', 100000), (''lacs'', 100000), (''lakh'', 100000), (''lakhs'', 100000), (''l'', 100000),
     (''k'', 1000), (''thousand'', 1000), (''thousands'', 1000), (''abs'', 1)]"

definition explicit_price_re :: pattern where
  "explicit_price_re = rx_i (
     ''([%d,]+(?:[.:%x27%u2019]%d+)?)%s*[.%-/]*%s*'' @
     ''(cr|crores?|lac?s?|lakhs?|l|k|thousands?)%b'')"

definition rental_language_re :: pattern where
  "rental_language_re = rx_i (
     ''%b(?:rent|rental|lease|monthly|per%s+month|deposit|tenancy|'' @
     ''lock[- ]?in|notice%s+period|lease%s+out|for%s+rent|on%s+rent|'' @
     ''pkg|pckg|packg|package)%b'')"

definition sale_language_re :: pattern where
  "sale_language_re = rx_i (
     ''%b(?:sale|sell|resale|purchase|outright|outrate|for%s+sale|'' @
     ''available%s+sale|sale%s+price)%b|'' @
     ''%basking%b(?=%s*(?:price|amount|rs%.?|inr|%u20B9|%d))'')"

definition negated_rent_re :: pattern where
  "negated_rent_re = rx_i (
     ''%b(?:no|not|without)%s+(?:any%s+)?rent%b|'' @
     ''%brent%s+(?:negotiation|negotiable|not)%b'')"

definition preleased_re :: pattern where
  "preleased_re = rx_i
     ''%b(?:currently%s+on%s+lease|pre[- ]?(?:leased|rented)|already%s+leased)%b''"

definition preleased_rent_re :: pattern where
  "preleased_rent_re = rx_i
     ''%b(?:rent|rental|monthly|per%s+month|for%s+rent|on%s+rent)%b''"

definition shorthand_re :: pattern where
  "shorthand_re = rx_i ''(?<![%d.])(%d+%.%d+)%s*k%b''"

definition rent_context_re :: pattern where
  "rent_context_re = rx_i ''%b(?:rent|rental|monthly|lease|on%s+lease)%b''"

definition psf_quote_re :: pattern where
  "psf_quote_re = rx_i (
     ''(?:%u20B9|rs%.?%s*)%s*(%d+(?:%.%d+)?)%s*'' @
     ''(?:p%.?%s*s%.?%s*f|per%s*(?:sq%.?%s*ft|square%s*foot))%b'')"

definition package_re :: pattern where
  "package_re = rx_i ''%b(?:pkg|pckg|packg|package)%b''"

definition rent_quote_re :: pattern where
  "rent_quote_re = rx_i (
     ''(?<![A-Za-z0-9])(?:rent|rental|monthly%s+rent)%s*[:=%-]?%s*'' @
     ''(?:%u20B9|rs%.?%s*)?(?P<amount>%d[%d,.]*)%s*'' @
     ''(?P<unit>cr(?:ore|ores)?|lac(?:s)?|lakh(?:s)?|l|k|thousand(?:s)?)?'' @
     ''(?![A-Za-z])'')"

definition psf_after_re :: pattern where
  "psf_after_re = rx_i ''%b(?:psf|per%s+sq%.?%s*ft|per%s+square%s+foot)%b''"

definition rate_basis_re :: pattern where
  "rate_basis_re = rx_i (
     ''%b(?:psf|per%s+sq%.?%s*ft|per%s+square%s+foot|'' @
     ''(?:carpet|build[- ]?up|built[- ]?up|chargeable)(?:%s+(?:area|rate|basis))?)%b'')"

definition mask_negated_rent :: "string \<Rightarrow> string" where
  "mask_negated_rent text = re_sub negated_rent_re '' '' text"

section \<open>Explicit prices\<close>

text \<open>\<open>float\<close> of the first group, with the separators the pattern allows.\<close>

definition plain_amount :: "string \<Rightarrow> string" where
  "plain_amount s =
     replace [CHR 0x81] ''.'' (replace [CHR 0x27] ''.'' (replace '':'' ''.'' (replace '','' [] s)))"

definition price_unit :: "string \<Rightarrow> string" where
  "price_unit s = rstrip_chars ''s'' (lower s)"

definition parse_explicit_price :: "string option \<Rightarrow> (pyfloat \<times> string) option" where
  "parse_explicit_price raw_text =
     (case re_search explicit_price_re (text_or raw_text) of
        None \<Rightarrow> None
      | Some m \<Rightarrow>
          (case parse_float (plain_amount (group_or [] 1 m)) of
             None \<Rightarrow> None
           | Some amount \<Rightarrow>
               let unit = price_unit (group_or [] 2 m) in
               if unit \<in> {''lac'', ''lakh''} \<and> CHR '','' \<in> set (group_or [] 1 m)
                  \<and> fle (Fin 100000) amount
               then Some (amount, ''abs'')
               else Some (amount, unit)))"

section \<open>Evidence for the transaction type\<close>

record tx_details =
  source_type :: "string option"
  has_sale_evidence :: bool
  has_rent_evidence :: bool
  tx_mixed :: bool
  tx_exclusive :: bool
  tx_disagreement :: bool

definition source_transaction_type_details :: "string option \<Rightarrow> string option \<Rightarrow> tx_details" where
  "source_transaction_type_details raw_text proposed =
     (let text = text_or raw_text;
          evidence_text = mask_negated_rent text;
          has_rent0 = re_found rental_language_re evidence_text;
          has_sale =
            (re_found sale_language_re evidence_text \<or>
             (case parse_explicit_price (Some evidence_text) of
                Some (_, u) \<Rightarrow> u \<in> {''cr'', ''crore'', ''crores''} \<and> \<not> has_rent0
              | None \<Rightarrow> False));
          preleased_sale = (has_sale \<and> re_found preleased_re text);
          has_rent = (if preleased_sale then re_found preleased_rent_re evidence_text else has_rent0);
          stype = (if has_sale \<and> \<not> has_rent then Some ''sale''
                   else if has_rent \<and> \<not> has_sale then Some ''rent'' else None);
          valid_proposed = (if proposed \<in> {Some ''sale'', Some ''rent''} then proposed else None)
      in \<lparr>source_type = stype,
          has_sale_evidence = has_sale,
          has_rent_evidence = has_rent,
          tx_mixed = (has_sale \<and> has_rent),
          tx_exclusive = (stype \<noteq> None),
          tx_disagreement = (stype \<noteq> None \<and> valid_proposed \<noteq> None \<and> stype \<noteq> valid_proposed)\<rparr>)"

section \<open>Rupees\<close>

definition price_to_rupees :: "pyval \<Rightarrow> pyval \<Rightarrow> pyfloat option result" where
  "price_to_rupees value unit =
     (if value = VNone \<or> value = VStr [] then Inr None
      else catchE
        (bindE (float_of value) (\<lambda>amount.
           let multiplier = (case map_of unit_multipliers (clean_lower unit) of Some k \<Rightarrow> k | None \<Rightarrow> 1)
           in Inr (Some (fmul amount (fint multiplier)))))
        [TypeError, ValueError] (Inr None))"

definition canonical_price_rupees :: "pyval \<Rightarrow> pyval \<Rightarrow> string option \<Rightarrow> pyfloat option result" where
  "canonical_price_rupees value unit raw_text =
     (case parse_explicit_price raw_text of
        Some (amount, explicit_unit) \<Rightarrow> price_to_rupees (VFloat amount) (VStr explicit_unit)
      | None \<Rightarrow> price_to_rupees value unit)"

text \<open>The decimal \<open>k\<close> shorthand of rental quotes: \<open>1.30k\<close> is 1.30 lakh.\<close>

definition k_shorthand :: "string \<Rightarrow> pyfloat option" where
  "k_shorthand text =
     (case re_search shorthand_re text of
        None \<Rightarrow> None
      | Some m \<Rightarrow>
          (case parse_float (group_or [] 1 m) of
             Some x \<Rightarrow> if flt x (Fin 5) then Some (fmul x (Fin 100000)) else None
           | None \<Rightarrow> None))"

definition canonical_rental_price_rupees :: "pyval \<Rightarrow> pyval \<Rightarrow> string option \<Rightarrow> pyfloat option result" where
  "canonical_rental_price_rupees value unit raw_text =
     (let text = text_or raw_text in
      case k_shorthand text of
        Some x \<Rightarrow> Inr (Some x)
      | None \<Rightarrow>
          bindE (canonical_price_rupees value unit raw_text) (\<lambda>normalized.
            case normalized of
              None \<Rightarrow> Inr None
            | Some n \<Rightarrow>
                if parse_explicit_price (Some text) = None
                   \<and> re_found rent_context_re text
                   \<and> clean_lower unit \<in> {[], ''total'', ''abs'', ''absolute'', ''inr'', ''rupees''}
                   \<and> flt (Fin 0) n \<and> flt n (Fin 1000)
                then Inr (Some (fmul n (Fin 1000)))
                else Inr (Some n)))"

definition canonical_commercial_rental_price_rupees ::
    "pyval \<Rightarrow> pyval \<Rightarrow> string option \<Rightarrow> pyfloat option result" where
  "canonical_commercial_rental_price_rupees value unit raw_text =
     (let text = text_or raw_text;
          psf = (case re_search psf_quote_re text of
                   None \<Rightarrow> None
                 | Some m \<Rightarrow> parse_float (replace '','' [] (group_or [] 1 m)))
      in case psf of
           Some x \<Rightarrow> Inr (Some x)
         | None \<Rightarrow>
             (case k_shorthand text of
                Some x \<Rightarrow> Inr (Some x)
              | None \<Rightarrow>
                  if re_found package_re text then
                    (case parse_explicit_price (Some text) of
                       Some (amount, explicit_unit) \<Rightarrow>
                         price_to_rupees (VFloat amount) (VStr explicit_unit)
                     | None \<Rightarrow>
                         catchE
                           (bindE (float_of value) (\<lambda>amount.
                              Inr (Some (if flt (fabs amount) (Fin 10000)
                                         then fmul amount (Fin 100000) else amount))))
                           [TypeError, ValueError] (Inr None))
                  else canonical_price_rupees value unit raw_text))"

definition rent_price_needs_review :: "pyval \<Rightarrow> string option \<Rightarrow> bool result" where
  "rent_price_needs_review monthly_rent raw_text =
     bindE (price_to_rupees monthly_rent VNone) (\<lambda>amount.
       Inr (case amount of None \<Rightarrow> False | Some x \<Rightarrow> flt (Fin 5000000) x))"

section \<open>The price attached to a source slice\<close>

type_synonym attached = "pyfloat option \<times> string \<times> string"

definition rental_normalizer :: "bool \<Rightarrow> pyval \<Rightarrow> pyval \<Rightarrow> string option \<Rightarrow> pyfloat option result" where
  "rental_normalizer commercial =
     (if commercial then canonical_commercial_rental_price_rupees else canonical_rental_price_rupees)"

text \<open>\<open>float(...)\<close> outside a \<open>try\<close>: a text that is no number raises \<open>ValueError\<close>.\<close>

definition float_text :: "string \<Rightarrow> pyfloat result" where
  "float_text s = (case parse_float s of Some x \<Rightarrow> Inr x | None \<Rightarrow> Inl ValueError)"

text \<open>A rent quote with its label in front.\<close>

definition rent_answer :: "rmatch \<Rightarrow> string \<Rightarrow> pyfloat option \<Rightarrow> attached option" where
  "rent_answer m unit value =
     (let rate_context = take 40 (m_after m) in
      case re_search rate_basis_re rate_context of
        Some b \<Rightarrow>
          (case value of
             None \<Rightarrow> None
           | Some v \<Rightarrow>
               Some (Some v,
                 strip (m_text m) @ '' '' @ strip (take (length (m_before b @ m_text b)) rate_context),
                 ''per_sqft''))
      | None \<Rightarrow>
          (case value of
             None \<Rightarrow> None
           | Some v \<Rightarrow>
               if unit = ''abs'' \<and> flt v (Fin 5000) then None
               else Some (Some v, strip (m_text m), ''abs'')))"

definition labelled_rent :: "bool \<Rightarrow> string \<Rightarrow> rmatch \<Rightarrow> attached option result" where
  "labelled_rent commercial text m =
     (let amount_text = (case m_named rent_quote_re ''amount'' m of Some t \<Rightarrow> t | None \<Rightarrow> []);
          unit_text = (case m_named rent_quote_re ''unit'' m of Some t \<Rightarrow> t | None \<Rightarrow> []);
          unit0 = price_unit unit_text;
          unit = (if unit0 = [] then ''abs'' else unit0)
      in bindE (float_text (replace '','' [] amount_text)) (\<lambda>amount.
         bindE (rental_normalizer commercial (VFloat amount) (VStr unit) (Some text)) (\<lambda>value.
           Inr (rent_answer m unit value))))"

text \<open>A rent quote without a label.\<close>

definition bare_rent :: "bool \<Rightarrow> string \<Rightarrow> rmatch \<Rightarrow> attached option result" where
  "bare_rent commercial text m =
     bindE (float_text (plain_amount (group_or [] 1 m))) (\<lambda>amount.
       let unit = price_unit (group_or [] 2 m) in
       if re_found psf_after_re (take 40 (m_after m)) then Inr None
       else bindE (rental_normalizer commercial (VFloat amount) (VStr unit) (Some text)) (\<lambda>value.
         Inr (case value of
                None \<Rightarrow> None
              | Some v \<Rightarrow> Some (Some v, strip (m_text m), ''abs''))))"

definition sale_quote :: "rmatch \<Rightarrow> attached option result" where
  "sale_quote m =
     (if re_found psf_after_re (take 24 (m_after m)) then Inr None
      else bindE (float_text (plain_amount (group_or [] 1 m))) (\<lambda>amount.
        bindE (canonical_price_rupees (VFloat amount) (VStr (price_unit (group_or [] 2 m))) None) (\<lambda>value.
          Inr (Some (value, strip (m_text m), ''abs''))))) "

definition source_attached_price ::
    "string option \<Rightarrow> string option \<Rightarrow> bool \<Rightarrow> attached option result" where
  "source_attached_price raw_text transaction_type commercial =
     (let text = text_or raw_text;
          tx = lower (strip (text_or transaction_type));
          evidence = source_transaction_type_details (Some text) (Some tx)
      in if tx \<notin> {''rent'', ''sale''} \<or> \<not> tx_exclusive evidence \<or> tx_disagreement evidence
            \<or> tx_mixed evidence
         then Inr None
         else if tx = ''rent'' then
           (let ms = re_finditer rent_quote_re text in
            case ms of
              [m] \<Rightarrow> labelled_rent commercial text m
            | _ \<Rightarrow>
                let es = re_finditer explicit_price_re text in
                if ms = [] \<and> length es = 1 then bare_rent commercial text (hd es) else Inr None)
         else
           (case re_finditer explicit_price_re text of
              [m] \<Rightarrow> sale_quote m
            | _ \<Rightarrow> Inr None))"

section \<open>What the patterns read\<close>

definition amount_char :: "char \<Rightarrow> bool" where
  "amount_char c \<longleftrightarrow>
     is_digit c \<or> c = CHR '','' \<or> c = CHR ''.'' \<or> c = CHR '':'' \<or> c = CHR 0x27 \<or> c = CHR 0x81"

lemma amount_char_cases [simp]:
  "is_digit c \<Longrightarrow> amount_char c" "amount_char CHR '',''" "amount_char CHR ''.''"
  "amount_char CHR '':''" "amount_char CHR 0x27" "amount_char CHR 0x81"
  by (simp_all add: amount_char_def)

lemma to_lower_amount:
  "to_lower c = CHR '','' \<Longrightarrow> c = CHR '',''" "to_lower c = CHR ''.'' \<Longrightarrow> c = CHR ''.''"
  "to_lower c = CHR '':'' \<Longrightarrow> c = CHR '':''" "to_lower c = CHR 0x27 \<Longrightarrow> c = CHR 0x27"
  "to_lower c = CHR 0x81 \<Longrightarrow> c = CHR 0x81"
  by (cases c; auto simp: to_lower_def is_upper_code split: if_splits)+

lemma to_upper_amount:
  "to_upper c = CHR '','' \<Longrightarrow> c = CHR '',''" "to_upper c = CHR ''.'' \<Longrightarrow> c = CHR ''.''"
  "to_upper c = CHR '':'' \<Longrightarrow> c = CHR '':''" "to_upper c = CHR 0x27 \<Longrightarrow> c = CHR 0x27"
  "to_upper c = CHR 0x81 \<Longrightarrow> c = CHR 0x81"
  by (cases c; auto simp: to_upper_def is_lower_code split: if_splits)+

lemmas amount_case = to_lower_amount to_upper_amount

lemma price_groups:
  "groups_of 1 (rx explicit_price_re) =
     [RSeq
        (RSeq (RCls False [CDigit True, CChar CHR '',''])
          (RStar True (RCls False [CDigit True, CChar CHR '',''])))
        (RAlt
          (RSeq
            (RCls False [CChar CHR ''.'', CChar CHR '':'', CChar CHR 0x27, CChar CHR 0x81])
            (RSeq (RCls False [CDigit True]) (RStar True (RCls False [CDigit True]))))
          REps)]"
  by code_simp

lemma price_group_chars: "in_group explicit_price_re 1 t \<Longrightarrow> c \<in> set t \<Longrightarrow> amount_char c"
proof (erule in_group_over [rotated])
  show "list_all (over (rx_ignorecase explicit_price_re) amount_char) (groups_of 1 (rx explicit_price_re))"
    unfolding price_groups by (auto simp: cls_matches_def dest: amount_case)
qed

lemma chr_point [simp]: "chr_matches True CHR ''.'' c \<longleftrightarrow> c = CHR ''.''"
proof -
  have "to_lower CHR ''.'' = CHR ''.''" by (simp add: to_lower_def is_upper_code)
  then show ?thesis by (auto simp: chr_matches_def dest: amount_case)
qed

lemma ic_patterns [simp]:
  "rx_ignorecase explicit_price_re" "rx_ignorecase shorthand_re" "rx_ignorecase psf_quote_re"
  "rx_ignorecase rent_quote_re"
  by code_simp+

lemma shorthand_groups:
  "groups_of 1 (rx shorthand_re) =
     [RSeq
       (RSeq (RCls False [CDigit True]) (RStar True (RCls False [CDigit True])))
       (RSeq (RChar CHR ''.'')
         (RSeq (RCls False [CDigit True]) (RStar True (RCls False [CDigit True]))))]"
  by code_simp

lemma shorthand_group_chars:
  assumes "in_group shorthand_re 1 t" and "c \<in> set t"
  shows "is_digit c \<or> c = CHR ''.''"
proof -
  have "list_all (over (rx_ignorecase shorthand_re) (\<lambda>c. is_digit c \<or> c = CHR ''.'')) (groups_of 1 (rx shorthand_re))"
    unfolding shorthand_groups by (auto simp: cls_matches_def dest: amount_case)
  from in_group_over [OF this assms] show ?thesis .
qed

lemma psf_groups:
  "groups_of 1 (rx psf_quote_re) =
     [RSeq
       (RSeq (RCls False [CDigit True]) (RStar True (RCls False [CDigit True])))
       (RAlt
         (RSeq (RChar CHR ''.'')
           (RSeq (RCls False [CDigit True]) (RStar True (RCls False [CDigit True]))))
         REps)]"
  by code_simp

lemma psf_group_chars:
  assumes "in_group psf_quote_re 1 t" and "c \<in> set t"
  shows "is_digit c \<or> c = CHR ''.''"
proof -
  have "list_all (over (rx_ignorecase psf_quote_re) (\<lambda>c. is_digit c \<or> c = CHR ''.'')) (groups_of 1 (rx psf_quote_re))"
    unfolding psf_groups by (auto simp: cls_matches_def dest: amount_case)
  from in_group_over [OF this assms] show ?thesis .
qed

lemma rent_amount_groups:
  "groups_of 1 (rx rent_quote_re) =
     [RSeq (RCls False [CDigit True])
       (RStar True (RCls False [CDigit True, CChar CHR '','', CChar CHR ''.'']))]"
  by code_simp

lemma rent_amount_chars:
  assumes "in_group rent_quote_re 1 t" and "c \<in> set t"
  shows "is_digit c \<or> c = CHR '','' \<or> c = CHR ''.''"
proof -
  have "list_all (over (rx_ignorecase rent_quote_re) (\<lambda>c. is_digit c \<or> c = CHR '','' \<or> c = CHR ''.'')) (groups_of 1 (rx rent_quote_re))"
    unfolding rent_amount_groups by (auto simp: cls_matches_def dest: amount_case)
  from in_group_over [OF this assms] show ?thesis .
qed

lemma rent_amount_name [simp]: "m_named rent_quote_re ''amount'' m = m_group 1 m"
proof -
  have "map_of (rx_names rent_quote_re) ''amount'' = Some 1" by code_simp
  then show ?thesis by (simp add: m_named_def)
qed

text \<open>The units a price can be read with.\<close>

definition price_units :: "string list" where
  "price_units = [''cr'', ''crore'', ''la'', ''lac'', ''lakh'', ''l'', ''k'', ''thousand'']"

lemma price_unit_group: "in_group explicit_price_re 2 t \<Longrightarrow> price_unit t \<in> set price_units"
proof -
  assume t: "in_group explicit_price_re 2 t"
  have "list_all (\<lambda>r. case words r of None \<Rightarrow> False
        | Some ws \<Rightarrow> list_all (\<lambda>w. List.member price_units (rstrip_chars ''s'' w)) ws)
      (groups_of 2 (rx explicit_price_re))" by code_simp
  from in_group_words [OF this t] show ?thesis by (simp add: price_unit_def)
qed

section \<open>Amounts are not negative\<close>

lemma plain_amount_nonneg:
  assumes "parse_float (plain_amount s) = Some x" and "\<forall>c \<in> set s. amount_char c"
  shows "fle (Fin 0) x"
proof (rule parse_float_nonneg [OF assms(1)])
  show "\<forall>c \<in> set (plain_amount s). is_digit c \<or> c = CHR ''.''"
    using assms(2) by (auto simp: plain_amount_def set_replace1 amount_char_def split: if_splits)
qed

lemma comma_amount_nonneg:
  assumes "parse_float (replace '','' [] s) = Some x"
    and "\<forall>c \<in> set s. is_digit c \<or> c = CHR '','' \<or> c = CHR ''.''"
  shows "fle (Fin 0) x"
  by (rule parse_float_nonneg [OF assms(1)]) (use assms(2) in \<open>auto simp: set_replace1\<close>)

lemma group_or_in:
  assumes "\<And>t. m_group n m = Some t \<Longrightarrow> in_group p n t" and "\<And>t. in_group p n t \<Longrightarrow> \<forall>c \<in> set t. P c"
  shows "\<forall>c \<in> set (group_or [] n m). P c"
  using assms by (cases "m_group n m") (auto simp: group_or_def)

lemma price_sets_unit: "sets_group 2 (rx explicit_price_re)"
  by code_simp

lemma unit_multiplier_bounds:
  "map_of unit_multipliers u = Some k \<Longrightarrow> 0 < k \<and> k \<le> 10000000"
proof -
  assume "map_of unit_multipliers u = Some k"
  then have "(u, k) \<in> set unit_multipliers" by (rule map_of_SomeD)
  moreover have "list_all (\<lambda>(u, k). 0 < k \<and> k \<le> 10000000) unit_multipliers"
    by (simp add: unit_multipliers_def)
  ultimately show ?thesis by (auto simp: list_all_iff)
qed

text \<open>A price given as a float has a value in rupees, of the same sign.\<close>

lemma price_to_rupees_float:
  assumes "fle (Fin 0) a"
  shows "\<exists>x. price_to_rupees (VFloat a) u = Inr (Some x) \<and> fle (Fin 0) x"
proof -
  define k where "k = (case map_of unit_multipliers (clean_lower u) of Some k \<Rightarrow> k | None \<Rightarrow> 1)"
  have k: "0 < k" "k \<le> 10000000"
    using unit_multiplier_bounds by (auto simp: k_def split: option.splits)
  then have "fint k = Fin (of_int k)" by (simp add: fint_def rnd_of_int)
  then have "price_to_rupees (VFloat a) u = Inr (Some (fmul a (Fin (of_int k))))"
    by (simp add: price_to_rupees_def k_def)
  then show ?thesis using fmul_nonneg [OF assms, of "of_int k"] k by simp
qed

lemma k_shorthand_bounds:
  assumes "k_shorthand text = Some x"
  shows "fle (Fin 0) x \<and> fle x (Fin 500000)"
proof -
  from assms obtain m y where m: "re_search shorthand_re text = Some m"
    and y: "parse_float (group_or [] 1 m) = Some y" "flt y (Fin 5)" "x = fmul y (Fin 100000)"
    by (auto simp: k_shorthand_def split: option.splits if_splits)
  have "\<forall>c \<in> set (group_or [] 1 m). is_digit c \<or> c = CHR ''.''"
    by (rule group_or_in) (use re_search_group [OF m] shorthand_group_chars in auto)
  from parse_float_nonneg [OF y(1) this] have nn: "fle (Fin 0) y" .
  then obtain z where z: "y = Fin z" "0 \<le> z" "z < 5" using y(2) by (cases y) (auto simp: fle_def)
  have "fle (rnd (z * 100000)) (rnd 500000)" by (rule rnd_mono) (use z in simp)
  moreover have "rnd 500000 = Fin 500000" by (rule rnd_numeral) simp
  ultimately show ?thesis using y(3) z fmul_nonneg [OF nn, of 100000] by (simp add: fmul_def)
qed

lemma parse_explicit_price_facts:
  assumes "parse_explicit_price raw = Some (a, u)"
  shows "fle (Fin 0) a \<and> u \<in> insert ''abs'' (set price_units)"
proof -
  from assms obtain m where m: "re_search explicit_price_re (text_or raw) = Some m"
    and a: "parse_float (plain_amount (group_or [] 1 m)) = Some a"
    and u: "u = ''abs'' \<or> u = price_unit (group_or [] 2 m)"
    by (auto simp: parse_explicit_price_def Let_def split: option.splits if_splits)
  have "fle (Fin 0) a"
    by (rule plain_amount_nonneg [OF a], rule group_or_in)
       (use re_search_group [OF m] price_group_chars in auto)
  moreover have "price_unit (group_or [] 2 m) \<in> set price_units"
    using re_search_sets [OF m price_sets_unit] price_unit_group by (auto simp: group_or_def)
  ultimately show ?thesis using u by auto
qed

lemma canonical_price_float:
  assumes "fle (Fin 0) a"
  shows "\<exists>x. canonical_price_rupees (VFloat a) u t = Inr (Some x) \<and> fle (Fin 0) x"
proof (cases "parse_explicit_price t")
  case None
  then show ?thesis using price_to_rupees_float [OF assms] by (simp add: canonical_price_rupees_def)
next
  case (Some au)
  then show ?thesis
    using parse_explicit_price_facts [of t] price_to_rupees_float
    by (cases au) (auto simp: canonical_price_rupees_def)
qed

lemma psf_nonneg:
  assumes "re_search psf_quote_re text = Some m" and "parse_float (replace '','' [] (group_or [] 1 m)) = Some x"
  shows "fle (Fin 0) x"
proof (rule comma_amount_nonneg [OF assms(2)], rule group_or_in)
  show "m_group 1 m = Some t \<Longrightarrow> in_group psf_quote_re 1 t" for t
    using re_search_group [OF assms(1)] by simp
  show "in_group psf_quote_re 1 t \<Longrightarrow> \<forall>c \<in> set t. is_digit c \<or> c = CHR '','' \<or> c = CHR ''.''" for t
    using psf_group_chars by blast
qed

text \<open>With a float both rental normalisers return an amount, and no negative one.\<close>

lemma rental_normalizer_float:
  assumes "fle (Fin 0) a"
  shows "\<exists>x. rental_normalizer com (VFloat a) u t = Inr (Some x) \<and> fle (Fin 0) x"
proof (cases com)
  case False
  show ?thesis
  proof (cases "k_shorthand (text_or t)")
    case None
    obtain x where "canonical_price_rupees (VFloat a) u t = Inr (Some x)" "fle (Fin 0) x"
      using canonical_price_float [OF assms] by blast
    then show ?thesis using None False fmul_nonneg [of x 1000]
      by (simp add: rental_normalizer_def canonical_rental_price_rupees_def Let_def)
  next
    case (Some x)
    then show ?thesis using False k_shorthand_bounds [OF Some]
      by (simp add: rental_normalizer_def canonical_rental_price_rupees_def)
  qed
next
  case True
  let ?psf = "case re_search psf_quote_re (text_or t) of
     None \<Rightarrow> None | Some m \<Rightarrow> parse_float (replace '','' [] (group_or [] 1 m))"
  have pkg: "fle (Fin 0) (if flt (fabs a) (Fin 10000) then fmul a (Fin 100000) else a)"
    using assms fmul_nonneg [OF assms, of 100000] by simp
  consider (psf) x where "?psf = Some x" | (short) x where "?psf = None" "k_shorthand (text_or t) = Some x"
    | (pkg) "?psf = None" "k_shorthand (text_or t) = None" "re_found package_re (text_or t)"
    | (other) "?psf = None" "k_shorthand (text_or t) = None" "\<not> re_found package_re (text_or t)"
    by blast
  then show ?thesis
  proof cases
    case psf
    then have "fle (Fin 0) x" by (auto split: option.splits intro: psf_nonneg)
    with psf True show ?thesis
      by (simp add: rental_normalizer_def canonical_commercial_rental_price_rupees_def)
  next
    case short
    then show ?thesis using True k_shorthand_bounds [OF short(2)]
      by (simp add: rental_normalizer_def canonical_commercial_rental_price_rupees_def)
  next
    case pkg': pkg
    show ?thesis
    proof (cases "parse_explicit_price (Some (text_or t))")
      case None
      then show ?thesis using pkg' True pkg
        by (simp add: rental_normalizer_def canonical_commercial_rental_price_rupees_def)
    next
      case (Some au)
      then show ?thesis
        using pkg' True price_to_rupees_float [of "fst au" "VStr (snd au)"]
          parse_explicit_price_facts [of "Some (text_or t)" "fst au" "snd au"]
        by (auto simp: rental_normalizer_def canonical_commercial_rental_price_rupees_def
            split: prod.splits)
    qed
  next
    case other
    then show ?thesis using True canonical_price_float [OF assms]
      by (simp add: rental_normalizer_def canonical_commercial_rental_price_rupees_def)
  qed
qed

section \<open>The attached price is grounded in the source\<close>

text \<open>What a recovered price must be: a non-negative amount with a quote of the text, where a
  rate per area quotes the price and its basis.\<close>

definition grounded :: "string \<Rightarrow> attached \<Rightarrow> bool" where
  "grounded text x =
     (case x of (v, quote, basis) \<Rightarrow>
        (\<exists>a. v = Some a \<and> fle (Fin 0) a) \<and>
        (basis = ''abs'' \<and> sublist quote text \<or>
         basis = ''per_sqft'' \<and>
           (\<exists>q r. quote = q @ '' '' @ r \<and> sublist q text \<and> sublist r text)))"

lemma m_after_sublist: "match_in k s m \<Longrightarrow> sublist (m_after m) s"
  unfolding match_in_def sublist_def by (metis append.right_neutral append.assoc)

lemma take_sublist: "sublist t s \<Longrightarrow> sublist (take n t) s"
  using sublist_take [of n t] by (meson sublist_order.order_trans)

lemma strip_in: "sublist t s \<Longrightarrow> sublist (strip t) s"
  using strip_sublist [of t] by (meson sublist_order.order_trans)

lemma quoted_nonneg:
  assumes "m \<in> set (re_finditer explicit_price_re text)"
    and "float_text (plain_amount (group_or [] 1 m)) = Inr a"
  shows "fle (Fin 0) a"
proof (rule plain_amount_nonneg)
  show "parse_float (plain_amount (group_or [] 1 m)) = Some a"
    using assms(2) by (auto simp: float_text_def split: option.splits)
  show "\<forall>c \<in> set (group_or [] 1 m). amount_char c"
    by (rule group_or_in) (use re_finditer_group [OF assms(1)] price_group_chars in auto)
qed

lemma rent_answer_cases:
  assumes "rent_answer m w v = Some x"
  obtains a where "v = Some a" "x = (Some a, strip (m_text m), ''abs'')"
  | a k where "v = Some a"
      "x = (Some a, strip (m_text m) @ '' '' @ strip (take k (take 40 (m_after m))), ''per_sqft'')"
  using assms unfolding rent_answer_def Let_def
  by (cases "re_search rate_basis_re (take 40 (m_after m))"; cases v)
    (simp_all split: if_splits, metis)

lemma labelled_rent_value:
  assumes "labelled_rent com text m = Inr (Some x)"
  shows "\<exists>a u v w. float_text (replace '','' [] (group_or [] 1 m)) = Inr a \<and>
    rental_normalizer com (VFloat a) u (Some text) = Inr v \<and> rent_answer m w v = Some x"
proof -
  have amount: "(case m_group (Suc 0) m of Some t \<Rightarrow> t | None \<Rightarrow> []) = group_or [] 1 m"
    by (simp add: group_or_def split: option.splits)
  from assms show ?thesis
    unfolding labelled_rent_def Let_def bindE_Inr_iff by (simp only: rent_amount_name amount One_nat_def) blast
qed

lemma labelled_rent_grounded:
  assumes m: "m \<in> set (re_finditer rent_quote_re text)"
    and r: "labelled_rent com text m = Inr (Some x)"
  shows "grounded text x"
proof -
  have chars: "\<forall>c \<in> set (group_or [] 1 m). is_digit c \<or> c = CHR '','' \<or> c = CHR ''.''"
    by (rule group_or_in [where p = rent_quote_re])
       (use re_finditer_group [OF m] rent_amount_chars in auto)
  obtain a u v w where a: "float_text (replace '','' [] (group_or [] 1 m)) = Inr a"
    and v: "rental_normalizer com (VFloat a) u (Some text) = Inr v" and x: "rent_answer m w v = Some x"
    using labelled_rent_value [OF r] by blast
  have "fle (Fin 0) a"
    using a comma_amount_nonneg [OF _ chars] by (auto simp: float_text_def split: option.splits)
  from rental_normalizer_float [OF this] v obtain b where b: "v = Some b" "fle (Fin 0) b"
    by (metis old.sum.inject(2))
  have q: "sublist (strip (m_text m)) text" "sublist (strip (take k (take 40 (m_after m)))) text" for k
    using re_finditer_in [OF m]
    by (auto intro!: strip_in take_sublist dest: match_in_sublist m_after_sublist)
  from x show ?thesis
  proof (cases rule: rent_answer_cases)
    case (1 c)
    with b q show ?thesis by (simp add: grounded_def)
  next
    case (2 c k)
    with b q show ?thesis unfolding grounded_def by blast
  qed
qed

lemma bare_rent_grounded:
  assumes m: "m \<in> set (re_finditer explicit_price_re text)"
    and r: "bare_rent com text m = Inr (Some x)"
  shows "grounded text x"
proof -
  from r obtain a where a: "float_text (plain_amount (group_or [] 1 m)) = Inr a"
    by (auto simp: bare_rent_def bindE_Inr_iff)
  have nn: "rental_normalizer com (VFloat a) u t = Inr (Some v) \<Longrightarrow> fle (Fin 0) v" for u t v
    using rental_normalizer_float [OF quoted_nonneg [OF m a], of com u t] by auto
  have q: "sublist (strip (m_text m)) text"
    using re_finditer_in [OF m] by (auto intro!: strip_in dest: match_in_sublist)
  from r a nn q show ?thesis
    by (auto simp: bare_rent_def Let_def bindE_Inr_iff grounded_def split: option.splits if_splits)
qed

lemma sale_quote_grounded:
  assumes m: "m \<in> set (re_finditer explicit_price_re text)"
    and r: "sale_quote m = Inr (Some x)"
  shows "grounded text x"
proof -
  from r obtain a where a: "float_text (plain_amount (group_or [] 1 m)) = Inr a"
    by (auto simp: sale_quote_def bindE_Inr_iff split: if_splits)
  obtain v where "canonical_price_rupees (VFloat a) (VStr (price_unit (group_or [] 2 m))) None = Inr (Some v)"
    "fle (Fin 0) v"
    using canonical_price_float [OF quoted_nonneg [OF m a]] by blast
  moreover have "sublist (strip (m_text m)) text"
    using re_finditer_in [OF m] by (auto intro!: strip_in dest: match_in_sublist)
  ultimately show ?thesis using r a by (auto simp: sale_quote_def grounded_def split: if_splits)
qed

text \<open>The cases of a recovered price.\<close>

lemma source_attached_price_cases:
  obtains (none) "source_attached_price raw tx com = Inr None"
  | (labelled) m where "m \<in> set (re_finditer rent_quote_re (text_or raw))"
      "source_attached_price raw tx com = labelled_rent com (text_or raw) m"
  | (bare) m where "m \<in> set (re_finditer explicit_price_re (text_or raw))"
      "source_attached_price raw tx com = bare_rent com (text_or raw) m"
  | (sale) m where "m \<in> set (re_finditer explicit_price_re (text_or raw))"
      "source_attached_price raw tx com = sale_quote m"
proof -
  have one: "length es = Suc 0 \<Longrightarrow> hd es \<in> set es" for es :: "rmatch list" by (cases es) auto
  have "source_attached_price raw tx com = Inr None \<or>
      (\<exists>m \<in> set (re_finditer rent_quote_re (text_or raw)).
        source_attached_price raw tx com = labelled_rent com (text_or raw) m) \<or>
      (\<exists>m \<in> set (re_finditer explicit_price_re (text_or raw)).
        source_attached_price raw tx com = bare_rent com (text_or raw) m) \<or>
      (\<exists>m \<in> set (re_finditer explicit_price_re (text_or raw)).
        source_attached_price raw tx com = sale_quote m)"
    unfolding source_attached_price_def Let_def by (auto dest: one split: list.splits)
  then show ?thesis using that by blast
qed

lemma source_attached_price_type:
  assumes "source_attached_price raw tx com = Inr (Some x)"
  defines "t \<equiv> lower (strip (text_or tx))"
  shows "source_type (source_transaction_type_details (Some (text_or raw)) (Some t)) = Some t"
  using assms
  by (auto simp: source_attached_price_def source_transaction_type_details_def Let_def split: if_splits)

text \<open>When the recovery raises: an amount the pattern accepts is no number for \<open>float\<close>.\<close>

lemma rental_normalizer_no_error:
  "fle (Fin 0) a \<Longrightarrow> rental_normalizer com (VFloat a) u t \<noteq> Inl e"
  using rental_normalizer_float [of a com u t] by auto

lemma float_text_Inl [simp]: "float_text s = Inl e \<longleftrightarrow> e = ValueError \<and> parse_float s = None"
  by (auto simp: float_text_def split: option.splits)

lemma labelled_rent_error:
  assumes m: "m \<in> set (re_finditer rent_quote_re text)" and r: "labelled_rent com text m = Inl e"
  shows "e = ValueError \<and> parse_float (replace '','' [] (group_or [] 1 m)) = None"
proof -
  have amount: "(case m_group (Suc 0) m of Some t \<Rightarrow> t | None \<Rightarrow> []) = group_or [] 1 m"
    by (simp add: group_or_def split: option.splits)
  have chars: "\<forall>c \<in> set (group_or [] 1 m). is_digit c \<or> c = CHR '','' \<or> c = CHR ''.''"
    by (rule group_or_in [where p = rent_quote_re])
       (use re_finditer_group [OF m] rent_amount_chars in auto)
  have nn: "float_text (replace '','' [] (group_or [] 1 m)) = Inr a \<Longrightarrow> fle (Fin 0) a" for a
    using comma_amount_nonneg [OF _ chars] by (auto simp: float_text_def split: option.splits)
  from r show ?thesis
    unfolding labelled_rent_def Let_def bindE_Inl_iff
    using nn rental_normalizer_no_error
    by (simp only: rent_amount_name amount One_nat_def float_text_Inl) blast
qed

lemma bare_rent_error:
  assumes m: "m \<in> set (re_finditer explicit_price_re text)" and r: "bare_rent com text m = Inl e"
  shows "e = ValueError \<and> parse_float (plain_amount (group_or [] 1 m)) = None"
  using r rental_normalizer_no_error [OF quoted_nonneg [OF m]]
  by (auto simp: bare_rent_def Let_def bindE_Inl_iff split: if_splits)

lemma sale_quote_error:
  assumes m: "m \<in> set (re_finditer explicit_price_re text)" and r: "sale_quote m = Inl e"
  shows "e = ValueError \<and> parse_float (plain_amount (group_or [] 1 m)) = None"
proof -
  have "canonical_price_rupees (VFloat a) u t \<noteq> Inl e"
    if "float_text (plain_amount (group_or [] 1 m)) = Inr a" for a u t
    using canonical_price_float [OF quoted_nonneg [OF m that], of u t] by auto
  with r show ?thesis by (auto simp: sale_quote_def bindE_Inl_iff split: if_splits)
qed

section \<open>Properties\<close>

text \<open>
  C28: The price recovered from a source slice is grounded in it.  Whatever
  \<open>source_attached_price\<close> returns is a non-negative amount (never \<open>None\<close>) whose quote is a slice
  of the text (for a rate per area, two slices: the price and its basis), and it is returned only
  when the text's own language gives evidence for exactly the transaction type asked for.
\<close>

theorem source_attached_price_grounded:
  assumes "source_attached_price raw tx com = Inr (Some x)"
  shows "grounded (text_or raw) x \<and>
    source_type (source_transaction_type_details (Some (text_or raw)) (Some (lower (strip (text_or tx))))) =
      Some (lower (strip (text_or tx)))"
  using assms source_attached_price_type [OF assms]
  by (cases rule: source_attached_price_cases [of raw tx com])
    (simp_all add: labelled_rent_grounded bare_rent_grounded sale_quote_grounded)

theorem source_attached_price_grounded_witness:
  "grounded ''rent 9k'' (Some (Fin 9000), ''rent 9k'', ''abs'')"
proof -
  have "source_attached_price (Some ''rent 9k'') (Some ''rent'') False =
      Inr (Some (Some (Fin 9000), ''rent 9k'', ''abs''))" by code_simp
  from source_attached_price_grounded [OF this] show ?thesis by simp
qed

text \<open>
  The only exception of \<open>source_attached_price\<close> is \<open>ValueError\<close>, and it is raised when the
  single quote its patterns accept is no number for \<open>float\<close>, such as a lone comma before a unit.
\<close>

theorem source_attached_price_error:
  assumes "source_attached_price raw tx com = Inl e"
  shows "e = ValueError \<and>
    (\<exists>m \<in> set (re_finditer rent_quote_re (text_or raw)). parse_float (replace '','' [] (group_or [] 1 m)) = None) \<or>
    e = ValueError \<and>
    (\<exists>m \<in> set (re_finditer explicit_price_re (text_or raw)). parse_float (plain_amount (group_or [] 1 m)) = None)"
proof (cases rule: source_attached_price_cases [of raw tx com])
  case (labelled m)
  with labelled_rent_error [of m "text_or raw" com e] assms show ?thesis by auto
next
  case (bare m)
  with bare_rent_error [of m "text_or raw" com e] assms show ?thesis by auto
next
  case (sale m)
  with sale_quote_error [of m "text_or raw" e] assms show ?thesis by auto
qed (use assms in simp)

theorem source_attached_price_error_witness:
  "\<exists>m \<in> set (re_finditer explicit_price_re ''for rent, L&T''). parse_float (plain_amount (group_or [] 1 m)) = None"
proof -
  have "source_attached_price (Some ''for rent, L&T'') (Some ''rent'') False = Inl ValueError"
    and r: "re_finditer rent_quote_re ''for rent, L&T'' = []" by code_simp+
  from source_attached_price_error [OF this(1)] r show ?thesis by simp
qed

text \<open>
  A price the source states wins over the provider's: with an explicit price in the raw text
  the canonical amount is that price times its unit's multiplier (between 1 and one crore),
  whatever value and unit the provider proposed, and it is never negative and never missing.
\<close>

theorem canonical_price_explicit:
  assumes "parse_explicit_price raw = Some (a, u)"
  shows "\<exists>k x. 1 \<le> k \<and> k \<le> 10000000 \<and> x = fmul a (fint k) \<and> fle (Fin 0) x \<and>
    (\<forall>v w. canonical_price_rupees v w raw = Inr (Some x))"
proof -
  define k where "k = (case map_of unit_multipliers (clean_lower (VStr u)) of Some k \<Rightarrow> k | None \<Rightarrow> 1)"
  have k: "1 \<le> k" "k \<le> 10000000"
    using unit_multiplier_bounds by (fastforce simp: k_def split: option.splits)+
  have r: "canonical_price_rupees v w raw = Inr (Some (fmul a (fint k)))" for v w
    using assms by (simp add: canonical_price_rupees_def price_to_rupees_def k_def)
  moreover have "fle (Fin 0) (fmul a (fint k))"
    using price_to_rupees_float [of a "VStr u"] parse_explicit_price_facts [OF assms]
    by (auto simp: price_to_rupees_def k_def)
  ultimately show ?thesis using k by blast
qed

theorem canonical_price_explicit_witness:
  "\<exists>x. canonical_price_rupees (VInt (-7)) (VStr ''cr'') (Some ''9k'') = Inr (Some x) \<and> fle (Fin 0) x"
proof -
  have "parse_explicit_price (Some ''9k'') = Some (Fin 9, ''k'')" by code_simp
  from canonical_price_explicit [OF this] show ?thesis by blast
qed

end
