(* ===== verification/PricePlaus.thy ===== *)
theory PricePlaus
  imports PyVal
begin

text \<open>
  \<open>price_plausibility.py\<close>: an extracted price is checked against rate times area, and against
  the numbers the source text states; an implausible one is flagged and never deleted.
\<close>

section \<open>Numbers\<close>

definition number_re :: pattern where
  "number_re = rx_i (
     ''(?<![%w])(?P<number>%d[%d,]*(?:[.:%x27%u2019]%d+)?)'' @
     ''(?:%s*(?P<unit>crores?|cr|lakhs?|lacs?|lakh|lac|l|thousands?|thousand|k|m|million))?%b'')"

definition plaus_multipliers :: "(string \<times> int) list" where
  "plaus_multipliers =
    [(''cr'', 10000000), (''crore'', 10000000), (''lac'', 100000), (''lakh'', 100000),
     (''l'', 100000), (''k'', 1000), (''thousand'', 1000), (''m'', 1000000), (''million'', 1000000)]"

definition plaus_multiplier :: "string \<Rightarrow> int" where
  "plaus_multiplier u = (case map_of plaus_multipliers u of Some k \<Rightarrow> k | None \<Rightarrow> 1)"

definition number_of :: "pyval \<Rightarrow> pyfloat option result" where
  "number_of v =
     catchE (bindE (float_of v) (\<lambda>x. Inr (if is_finite x then Some x else None)))
       [TypeError, ValueError] (Inr None)"

section \<open>Rate times area\<close>

definition price_total_from_psf ::
    "pyval \<Rightarrow> pyval \<Rightarrow> pyval \<Rightarrow> pyfloat \<Rightarrow> (pyfloat option \<times> bool) result" where
  "price_total_from_psf price price_per_sqft area_sqft tolerance =
     bindE (number_of price) (\<lambda>total.
     bindE (number_of price_per_sqft) (\<lambda>rate0.
     bindE (number_of area_sqft) (\<lambda>area0.
       Inr (case (rate0, area0) of
              (Some rate, Some area) \<Rightarrow>
                if fle rate (Fin 0) \<or> fle area (Fin 0) then (total, False)
                else
                  (let derived = fmul rate area in
                   case total of
                     None \<Rightarrow> (Some derived, False)
                   | Some t \<Rightarrow>
                       if fle t (Fin 0) then (Some derived, False)
                       else (Some derived,
                         flt tolerance
                           (fdiv (fabs (fsub t derived))
                             (fmax (fmax (fabs t) (fabs derived)) (Fin 1)))))
            | _ \<Rightarrow> (total, False)))))"

section \<open>Grounding\<close>

definition source_number :: "rmatch \<Rightarrow> pyfloat option" where
  "source_number m =
     (let n = (case m_named number_re ''number'' m of Some t \<Rightarrow> t | None \<Rightarrow> []);
          u = (case m_named number_re ''unit'' m of Some t \<Rightarrow> t | None \<Rightarrow> [])
      in map_option
           (\<lambda>amount. fmul amount (fint (plaus_multiplier (rstrip_chars ''s'' (casefold u)))))
           (parse_float (replace [CHR 0x81] ''.'' (replace [CHR 0x27] ''.''
             (replace '':'' ''.'' (replace '','' [] n))))))"

definition source_numbers :: "pyval \<Rightarrow> pyfloat list" where
  "source_numbers source_text =
     List.map_filter source_number (re_finditer number_re (str_or source_text))"

definition numeric_value_is_grounded :: "pyval \<Rightarrow> pyval \<Rightarrow> pyfloat \<Rightarrow> bool result" where
  "numeric_value_is_grounded val source_text tolerance =
     bindE (number_of val) (\<lambda>c.
       Inr (case c of
              None \<Rightarrow> True
            | Some candidate \<Rightarrow>
                if fle candidate (Fin 0) then True
                else list_ex
                  (\<lambda>observed. \<not> fle observed (Fin 0) \<and>
                     fle (fabs (fsub candidate observed))
                       (fmax (Fin 1) (fmul (fabs candidate) tolerance)))
                  (source_numbers source_text)))"

text \<open>The default tolerances of the two checks, the float literals 0.50 and 0.01.\<close>

definition psf_tolerance :: pyfloat where
  "psf_tolerance = flit (1 / 2)"

definition grounding_tolerance :: pyfloat where
  "grounding_tolerance = flit (1 / 100)"

section \<open>Collecting the prices\<close>

definition total_keys :: "string list" where
  "total_keys =
    [''monthly_rent'', ''total_asking_price'', ''computed_total_asking_price'',
     ''price_per_sqft'', ''rent_per_sqft'']"

definition positive :: "pyfloat option \<Rightarrow> pyfloat list" where
  "positive a = (case a of Some x \<Rightarrow> if flt (Fin 0) x then [x] else [] | None \<Rightarrow> [])"

definition extracted_price_values :: "pydict \<Rightarrow> pyfloat list result" where
  "extracted_price_values item =
     bindE
       (case dget item ''price'' of
          VDict price \<Rightarrow>
            bindE (number_of (dget price ''amount'')) (\<lambda>a.
              Inr (map
                (\<lambda>x. fmul x (fint (plaus_multiplier (rstrip_chars ''s'' (casefold (str_or (dget price ''unit'')))))))
                (positive a)))
        | _ \<Rightarrow> Inr [])
       (\<lambda>vs. bindE (mapE (\<lambda>k. bindE (number_of (dget item k)) (\<lambda>a. Inr (positive a))) total_keys)
         (\<lambda>ws. Inr (dedup (vs @ concat ws))))"

section \<open>The guard\<close>

definition guard_price :: "pydict \<Rightarrow> pydict" where
  "guard_price checked = dict_of (dget checked ''price'')"

definition guard_unit :: "pydict \<Rightarrow> string" where
  "guard_unit checked = casefold (str_or (dget (guard_price checked) ''unit''))"

definition guard_rate :: "pydict \<Rightarrow> pyval" where
  "guard_rate checked =
     (let math = dict_of (dget checked ''price_math'');
          rate = or_val (or_val (or_val (dget checked ''price_per_sqft'') (dget checked ''rent_per_sqft''))
            (dget math ''rate'')) (dget math ''price_per_sqft'')
      in if is_none rate \<and> guard_unit checked \<in> {''per_sqft'', ''psf''}
         then dget (guard_price checked) ''amount'' else rate)"

definition guard_area :: "pydict \<Rightarrow> pyval" where
  "guard_area checked =
     (let math = dict_of (dget checked ''price_math'')
      in or_val (or_val (or_val (dget checked ''carpet_area_sqft'') (dget checked ''area_sqft''))
        (dget math ''area'')) (dget math ''area_sqft''))"

definition guard_total :: "pydict \<Rightarrow> pyval" where
  "guard_total checked =
     (let total = or_val (or_val (dget checked ''total_asking_price'') (dget checked ''monthly_rent''))
        (dget checked ''computed_total_asking_price'')
      in if is_none total \<and> guard_unit checked \<notin> {''per_sqft'', ''psf''}
         then dget (guard_price checked) ''amount'' else total)"

text \<open>The values that still need the source: a total derived from rate and area does not.\<close>

definition ungrounded_candidates :: "pydict \<Rightarrow> bool \<Rightarrow> pyfloat list \<Rightarrow> pyfloat list result" where
  "ungrounded_candidates checked arithmetic_failure vs =
     (let total = guard_total checked in
      if \<not> is_none total \<and> \<not> is_none (guard_rate checked) \<and> \<not> is_none (guard_area checked)
         \<and> \<not> arithmetic_failure
      then bindE (number_of total) (\<lambda>tn.
        Inr (case tn of
               None \<Rightarrow> vs
             | Some t \<Rightarrow>
                 filter (\<lambda>v. flt (fmax (Fin 1) (fmul (fabs t) (flit (1 / 100)))) (fabs (fsub v t))) vs))
      else Inr vs)"

text \<open>\<open>all(...)\<close> stops at the first value that is not grounded.\<close>

fun allE :: "('a \<Rightarrow> bool result) \<Rightarrow> 'a list \<Rightarrow> bool result" where
  "allE p [] = Inr True"
| "allE p (x # xs) = bindE (p x) (\<lambda>b. if b then allE p xs else Inr False)"

definition guard_review :: "pydict \<Rightarrow> pydict result" where
  "guard_review checked =
     (let c1 = dput checked ''needs_review'' (VBool True) in
      bindE (number_of (dget c1 ''extraction_confidence_score'')) (\<lambda>score.
        let c2 = (case score of
                    Some s \<Rightarrow> dput c1 ''extraction_confidence_score'' (VFloat (fmin s (flit (4 / 10))))
                  | None \<Rightarrow> c1)
        in Inr (if casefold (str_or (dget c2 ''extraction_confidence'')) = ''high''
                then dput c2 ''extraction_confidence'' (VStr ''low'') else c2)))"

definition apply_price_plausibility_guard :: "pydict \<Rightarrow> pyval \<Rightarrow> pydict result" where
  "apply_price_plausibility_guard item source_text =
     (let checked = item in
      bindE (list_or_empty (dget checked ''validation_flags'')) (\<lambda>flags.
      bindE (price_total_from_psf (guard_total checked) (guard_rate checked) (guard_area checked)
        psf_tolerance) (\<lambda>(_, arithmetic_failure).
      bindE (extracted_price_values checked) (\<lambda>all_vs.
      bindE (ungrounded_candidates checked arithmetic_failure all_vs) (\<lambda>vs.
      bindE (allE (\<lambda>v. numeric_value_is_grounded (VFloat v) source_text grounding_tolerance) vs) (\<lambda>ok.
        let grounding_failure = (vs \<noteq> [] \<and> \<not> ok);
            flags2 = flags
              @ (if arithmetic_failure then [VStr ''price_psf_math_implausible''] else [])
              @ (if grounding_failure then [VStr ''price_value_not_traceable_to_source''] else [])
        in bindE (if arithmetic_failure \<or> grounding_failure then guard_review checked else Inr checked)
             (\<lambda>out. bindE (fromkeys flags2) (\<lambda>fs.
               Inr (dput out ''validation_flags'' (VList fs))))))))))"

section \<open>The arithmetic check\<close>

lemma number_of_int:
  "\<bar>n\<bar> < 2 ^ 53 \<Longrightarrow> number_of (VInt n) = Inr (Some (Fin (of_int n)))"
  by (simp add: number_of_def fint_def rnd_of_int is_finite_def Let_def)

lemma rnd_two_thirds: "flt (Fin (1 / 2)) (rnd (2 / 3))"
  by (simp add: float_eval)

text \<open>The relative deviation of two positive integers, one at least three times the other.\<close>

lemma deviation_flagged:
  assumes "0 < a" and "3 * a \<le> b" and "b < 2 ^ 53" and "x = a \<and> y = b \<or> x = b \<and> y = a"
  shows "flt psf_tolerance
    (fdiv (fabs (fsub (Fin (of_int x)) (Fin (of_int y))))
      (fmax (fmax (fabs (Fin (of_int x))) (fabs (Fin (of_int y)))) (Fin 1)))"
proof -
  let ?d = "of_int b - of_int a :: rat"
  have pos: "(0 :: rat) < of_int a" "(1 :: rat) \<le> of_int b" "(of_int a :: rat) < of_int b"
    using assms by simp_all
  have "rnd (of_int (b - a)) = Fin (of_int (b - a))" "rnd (of_int (a - b)) = Fin (of_int (a - b))"
    by (rule rnd_of_int, use assms in linarith)+
  then have sub: "fabs (fsub (Fin (of_int x)) (Fin (of_int y))) = Fin ?d"
    using assms(4) pos by (auto simp: fsub_def)
  have mx: "fmax (fmax (fabs (Fin (of_int x))) (fabs (Fin (of_int y)))) (Fin 1) = Fin (of_int b)"
    using assms(4) pos by (auto simp: fmax_def)
  have "(3 :: rat) * of_int a \<le> of_int b"
    using assms(2) by (metis of_int_le_iff of_int_mult of_int_numeral)
  then have "2 / 3 \<le> ?d / of_int b" using pos by (simp add: field_simps)
  then have "fle (rnd (2 / 3)) (rnd (?d / of_int b))" by (rule rnd_mono)
  with rnd_two_thirds have "flt (Fin (1 / 2)) (rnd (?d / of_int b))"
    by (cases "rnd (2 / 3)"; cases "rnd (?d / of_int b)") (auto simp: fle_def)
  moreover have "psf_tolerance = Fin (1 / 2)" by (simp add: psf_tolerance_def float_eval)
  ultimately show ?thesis using sub mx by (simp add: fdiv_def)
qed

text \<open>
  The area check catches every slip of a factor of three or more.  For a positive integral
  rate and area and a positive total below \<open>2 ^ 53\<close>, \<open>price_total_from_psf\<close> returns the product
  rate times area, and it flags the total whenever one of the two is at least three times the
  other, so every ten-fold or hundred-fold slip is flagged.
\<close>

theorem price_psf_factor_flagged:
  assumes "0 < r" "0 < a" "0 < t" "r * a < 2 ^ 53" "t < 2 ^ 53"
    and "3 * (r * a) \<le> t \<or> 3 * t \<le> r * a"
  shows "price_total_from_psf (VInt t) (VInt r) (VInt a) psf_tolerance =
    Inr (Some (Fin (of_int (r * a))), True)"
proof -
  have "r * 1 \<le> r * a" "1 * a \<le> r * a" using assms(1,2) by (intro mult_left_mono mult_right_mono; simp)+
  then have lt: "r < 2 ^ 53" "a < 2 ^ 53" using assms(4) by simp_all
  have p: "0 < r * a" using assms(1,2) by simp
  have d: "fmul (Fin (of_int r)) (Fin (of_int a)) = Fin (of_int (r * a))"
    using rnd_of_int [of "r * a"] p assms(4) by (simp add: fmul_def)
  have f: "flt psf_tolerance
    (fdiv (fabs (fsub (Fin (of_int t)) (Fin (of_int (r * a)))))
      (fmax (fmax (fabs (Fin (of_int t))) (fabs (Fin (of_int (r * a))))) (Fin 1)))"
    using assms(6)
  proof
    assume "3 * (r * a) \<le> t"
    from deviation_flagged [OF p this assms(5), of t "r * a"] show ?thesis by simp
  next
    assume "3 * t \<le> r * a"
    from deviation_flagged [OF assms(3) this assms(4), of t "r * a"] show ?thesis by simp
  qed
  show ?thesis
    using assms lt number_of_int [of t] number_of_int [of r] number_of_int [of a] f [unfolded Let_def]
    by (simp add: price_total_from_psf_def d [simplified] fle_def)
qed

theorem price_psf_factor_flagged_witness:
  "price_total_from_psf (VInt 150000000) (VInt 15000) (VInt 1000) psf_tolerance =
     Inr (Some (Fin 15000000), True)"
  using price_psf_factor_flagged [of 15000 1000 150000000] by simp

section \<open>What the guard changes\<close>

definition guard_keys :: "string list" where
  "guard_keys =
    [''needs_review'', ''extraction_confidence_score'', ''extraction_confidence'', ''validation_flags'']"

lemma guard_key_neq:
  "k \<notin> set guard_keys \<Longrightarrow>
   k \<noteq> ''needs_review'' \<and> k \<noteq> ''extraction_confidence_score'' \<and> k \<noteq> ''extraction_confidence'' \<and>
   k \<noteq> ''validation_flags''"
  by (simp add: guard_keys_def)

lemma guard_review_frame:
  "guard_review c = Inr out \<Longrightarrow> k \<notin> set guard_keys \<Longrightarrow> dget out k = dget c k"
  by (drule guard_key_neq) (auto simp: guard_review_def Let_def bindE_Inr_iff split: option.splits if_splits)

lemma guard_review_marks: "guard_review c = Inr out \<Longrightarrow> dget out ''needs_review'' = VBool True"
  by (auto simp: guard_review_def Let_def bindE_Inr_iff split: option.splits if_splits)

lemma number_of_finite: "number_of v = Inr (Some s) \<Longrightarrow> is_finite s"
  by (auto simp: number_of_def catchE_def bindE_def split: sum.splits if_splits)

lemma guard_review_score:
  assumes "guard_review c = Inr out" and "number_of (dget c ''extraction_confidence_score'') = Inr (Some s)"
  shows "\<exists>s'. dget out ''extraction_confidence_score'' = VFloat s' \<and> fle s' s \<and> fle s' (flit (4 / 10))"
proof -
  obtain q where s: "s = Fin q"
    using number_of_finite [OF assms(2)] by (auto simp: is_finite_def split: pyfloat.splits)
  have l: "flit (4 / 10) = Fin (3602879701896397 / 9007199254740992)" by (simp add: float_eval)
  have "dget out ''extraction_confidence_score'' = VFloat (fmin s (flit (4 / 10)))"
    using assms by (auto simp: guard_review_def Let_def split: if_splits)
  then show ?thesis using s l by (auto simp: fmin_def fle_def)
qed

text \<open>
  The guard flags and never deletes.  Every key of the item other than the four review fields
  keeps its value; nothing changes but the flag list unless the arithmetic or the grounding check
  failed, and then the item is marked for review with at least one flag, and a numeric confidence
  score is lowered to at most 0.4 and never raised.
\<close>

theorem price_guard_safe:
  assumes "apply_price_plausibility_guard item src = Inr out"
  shows "(\<forall>k. k \<notin> set guard_keys \<longrightarrow> dget out k = dget item k) \<and>
    (\<exists>fs. dget out ''validation_flags'' = VList fs \<and>
      ((\<forall>k. k \<noteq> ''validation_flags'' \<longrightarrow> dget out k = dget item k) \<or>
       dget out ''needs_review'' = VBool True \<and> fs \<noteq> [] \<and>
       (\<forall>s. number_of (dget item ''extraction_confidence_score'') = Inr (Some s) \<longrightarrow>
         (\<exists>s'. dget out ''extraction_confidence_score'' = VFloat s' \<and> fle s' s \<and>
           fle s' (flit (4 / 10))))))"
proof -
  obtain flags2 fs mid failed where
    out: "out = dput mid ''validation_flags'' (VList fs)"
    and fs: "fromkeys flags2 = Inr fs"
    and mid: "(if failed then guard_review item else Inr item) = Inr mid"
    and ne: "failed \<Longrightarrow> flags2 \<noteq> []"
    using assms
    unfolding apply_price_plausibility_guard_def Let_def
    by (fastforce simp: bindE_Inr_iff)
  have fne: "failed \<Longrightarrow> fs \<noteq> []" using fromkeys_Nil_iff [OF fs] ne by simp
  have frame: "k \<notin> set guard_keys \<Longrightarrow> dget out k = dget item k" for k
    using mid guard_review_frame [of item mid k] guard_key_neq [of k] out by (cases failed) auto
  show ?thesis
  proof (cases failed)
    case False
    with mid out frame show ?thesis by auto
  next
    case True
    with mid have "guard_review item = Inr mid" by simp
    with guard_review_marks [OF this] guard_review_score [OF this] out frame fne True
    show ?thesis by auto
  qed
qed

text \<open>The two tolerances as doubles, for evaluation.\<close>

lemma tolerance_code [code]:
  "psf_tolerance = Fin (1 / 2)"
  "grounding_tolerance = Fin (5764607523034235 / 576460752303423488)"
  by (simp_all add: psf_tolerance_def grounding_tolerance_def float_eval)

text \<open>A price the text does not state is flagged, marked for review and kept.\<close>

definition untraceable_item :: pydict where
  "untraceable_item = [(''monthly_rent'', VInt 5000), (''bhk'', VInt 2)]"

definition untraceable_flagged :: pydict where
  "untraceable_flagged =
    [(''monthly_rent'', VInt 5000), (''bhk'', VInt 2), (''needs_review'', VBool True),
     (''validation_flags'', VList [VStr ''price_value_not_traceable_to_source''])]"

theorem price_guard_safe_witness:
  "dget untraceable_flagged ''monthly_rent'' = dget untraceable_item ''monthly_rent''"
proof -
  have "apply_price_plausibility_guard untraceable_item (VStr ''see pics'') = Inr untraceable_flagged" by code_simp
  from price_guard_safe [OF this] show ?thesis by (simp add: guard_keys_def)
qed

end
