(* ===== verification/RegexCase.thy ===== *)
theory RegexCase
  imports PyRegex
begin

text \<open>
  Regular expressions and the case of letters, and anchored patterns: a pattern that tests every character alike in both
  cases, as each \<open>IGNORECASE\<close> pattern does, matches a text and its lower-case form at the same
  places, and substitution commutes with lower-casing.
\<close>

section \<open>Expressions blind to case\<close>

fun blind :: "bool \<Rightarrow> re \<Rightarrow> bool" where
  "blind ic (RChar d) = (\<forall>c. chr_matches ic d (to_lower c) = chr_matches ic d c)"
| "blind ic (RCls neg is) = (\<forall>c. cls_matches ic neg is (to_lower c) = cls_matches ic neg is c)"
| "blind ic (RSeq r1 r2) = (blind ic r1 \<and> blind ic r2)"
| "blind ic (RAlt r1 r2) = (blind ic r1 \<and> blind ic r2)"
| "blind ic (RStar greedy r) = blind ic r"
| "blind ic (RGrp n r) = blind ic r"
| "blind ic (RLook p r) = blind ic r"
| "blind ic (RBehind p r) = blind ic r"
| "blind ic _ = True"

lemma to_lower_bits: "to_lower c = (if is_upper c then set_bit5 True c else c)"
  by (simp add: to_lower_def)

lemma to_upper_lower [simp]: "to_upper (to_lower c) = to_upper c"
  by (cases c) (auto simp: to_upper_def to_lower_def is_lower_code is_upper_code)

lemma lower_or_upper: "c = to_lower c \<or> c = to_upper c"
  by (cases c) (auto simp: to_upper_def to_lower_def is_lower_code is_upper_code)

lemma cls_blind: "cls_matches True neg is (to_lower c) = cls_matches True neg is c"
proof -
  have "(citem_matches i (to_lower c) \<or> citem_matches i (to_upper c)) =
      (citem_matches i c \<or> citem_matches i (to_lower c) \<or> citem_matches i (to_upper c))" for i
    using lower_or_upper [of c] by metis
  then show ?thesis by (simp add: cls_matches_def)
qed

lemma to_lower_eq_cases: "to_lower d = to_lower c \<Longrightarrow> to_lower (to_lower d) = to_lower c"
  by simp

lemma ignorecase_blind: "blind True r"
proof (induction r)
  case (RChar d)
  have "chr_matches True d c = (to_lower c = to_lower d)" for c
    by (auto simp: chr_matches_def)
  then show ?case by simp
qed (simp_all add: cls_blind)

text \<open>The same as a computation: only the upper-case letters have another lower case.\<close>

definition upper_letters :: string where
  "upper_letters = ''ABCDEFGHIJKLMNOPQRSTUVWXYZ''"

lemma is_upper_letter: "is_upper c \<Longrightarrow> c \<in> set upper_letters"
proof -
  assume "is_upper c"
  then have "code c \<in> set [65..<91]" unfolding is_upper_def set_upt by simp
  also have "[65..<91] = map of_char upper_letters" by code_simp
  finally show ?thesis by (auto simp: image_iff)
qed

definition blind_chr :: "bool \<Rightarrow> char \<Rightarrow> char \<Rightarrow> bool" where
  "blind_chr ic d c = (chr_matches ic d (to_lower c) = chr_matches ic d c)"

definition blind_cls :: "bool \<Rightarrow> bool \<Rightarrow> citem list \<Rightarrow> char \<Rightarrow> bool" where
  "blind_cls ic neg is c = (cls_matches ic neg is (to_lower c) = cls_matches ic neg is c)"

fun blind_code :: "bool \<Rightarrow> re \<Rightarrow> bool" where
  "blind_code ic (RChar d) = list_all (blind_chr ic d) upper_letters"
| "blind_code ic (RCls neg is) = list_all (blind_cls ic neg is) upper_letters"
| "blind_code ic (RSeq r1 r2) = (blind_code ic r1 \<and> blind_code ic r2)"
| "blind_code ic (RAlt r1 r2) = (blind_code ic r1 \<and> blind_code ic r2)"
| "blind_code ic (RStar greedy r) = blind_code ic r"
| "blind_code ic (RGrp n r) = blind_code ic r"
| "blind_code ic (RLook p r) = blind_code ic r"
| "blind_code ic (RBehind p r) = blind_code ic r"
| "blind_code ic _ = True"

lemma blind_code: "blind_code ic r \<Longrightarrow> blind ic r"
proof -
  have h: "list_all (\<lambda>c. P (to_lower c) = P c) upper_letters \<Longrightarrow> P (to_lower c) = P c" for P c
    using is_upper_letter [of c] by (cases "is_upper c") (auto simp: list_all_iff to_lower_def)
  show "blind_code ic r \<Longrightarrow> blind ic r"
  proof (induction r)
    case (RChar d)
    then show ?case using h [of "chr_matches ic d"] by (simp add: blind_chr_def [abs_def])
  next
    case (RCls neg items)
    then show ?case using h [of "cls_matches ic neg items"] by (simp add: blind_cls_def [abs_def])
  qed simp_all
qed

section \<open>Matching the lower-case text\<close>

definition low_st :: "mstate \<Rightarrow> mstate" where
  "low_st st = (case st of (b, a, g) \<Rightarrow> (lower b, lower a, map (\<lambda>(n, i, t). (n, i, lower t)) g))"

lemma low_st_simp [simp]:
  "low_st (b, a, g) = (lower b, lower a, map (\<lambda>(n, i, t). (n, i, lower t)) g)"
  by (simp add: low_st_def)

lemma low_st_parts [simp]:
  "fst (low_st st) = lower (fst st)" "fst (snd (low_st st)) = lower (fst (snd st))"
  by (cases st, simp)+

lemma is_word_lower [simp]: "is_word (to_lower c) = is_word c"
proof -
  have "is_alpha (to_lower c) = is_alpha c"
    by (cases c) (auto simp: is_alpha_def to_lower_def is_lower_code is_upper_code)
  moreover have "to_lower c = CHR ''_'' \<longleftrightarrow> c = CHR ''_''"
    by (cases c) (auto simp: to_lower_def is_upper_code)
  ultimately show ?thesis by (simp add: is_word_def)
qed

lemma newline_lower [simp]: "to_lower c = CHR 0x0A \<longleftrightarrow> c = CHR 0x0A"
  by (cases c) (auto simp: to_lower_def is_upper_code)

lemma at_word_lower [simp]: "at_word (lower s) = at_word s"
  by (simp add: at_word_def lower_def split: list.splits)

lemma at_bol_lower [simp]: "at_bol ml (lower s) = at_bol ml s"
  by (simp add: at_bol_def lower_def split: list.splits)

lemma at_eol_lower [simp]: "at_eol ml (lower s) = at_eol ml s"
  by (auto simp: at_eol_def lower_def split: list.splits)

lemma lower_Cons: "lower (c # s) = to_lower c # lower s"
  by (simp add: lower_def)

lemma lower_append [simp]: "lower (s @ t) = lower s @ lower t"
  by (simp add: lower_def)

lemma lower_simps [simp]: "lower [] = []" "lower (rev s) = rev (lower s)"
  "lower (take k s) = take k (lower s)" "lower (drop k s) = drop k (lower s)"
  by (simp_all add: lower_def rev_map take_map drop_map)

lemma ms_lower:
  "blind ic r \<Longrightarrow> ms ic ml r (low_st st) = map low_st (ms ic ml r st)"
proof (induction ic ml r st rule: ms.induct)
  case (2 ic ml d b a g)
  then show ?case by (cases a) (auto simp: lower_Cons)
next
  case (3 ic ml b a g)
  then show ?case by (cases a) (auto simp: lower_Cons)
next
  case (4 ic ml neg items b a g)
  then show ?case by (cases a) (auto simp: lower_Cons)
next
  case (5 ic ml r1 r2 st)
  then show ?case by (simp add: map_concat o_def cong: map_cong)
next
  case (7 ic ml greedy r b a g)
  let ?more = "\<lambda>b a g. concat (map (\<lambda>st'. if shorter (fst (snd st')) a
      then ms ic ml (RStar greedy r) st' else []) (ms ic ml r (b, a, g)))"
  have "?more (lower b) (lower a) (map (\<lambda>(n, i, t). (n, i, lower t)) g) = map low_st (?more b a g)"
    using 7 by (auto simp: map_concat o_def simp flip: low_st_simp intro!: arg_cong [where f = concat] cong: map_cong)
  then show ?case
    unfolding low_st_simp by (simp add: ms.simps(7) [of ic ml greedy] Let_def)
next
  case (8 ic ml n r b a g)
  then have "ms ic ml r (low_st (b, a, g)) = map low_st (ms ic ml r (b, a, g))" by simp
  then show ?case by (auto simp: o_def split: prod.splits)
next
  case (12 ic ml p r b a g)
  then show ?case by auto
next
  case (13 ic ml p r b a g)
  show ?case
  proof (cases b)
    case (Cons c cs)
    then have "ms ic ml r (low_st ([], [c], g)) = map low_st (ms ic ml r ([], [c], g))"
      using 13 by simp
    then show ?thesis using Cons by (simp add: lower_Cons)
  qed simp
qed simp_all

definition blind_pattern :: "pattern \<Rightarrow> bool" where
  "blind_pattern p = blind (rx_ignorecase p) (rx p)"

lemma ignorecase_pattern: "rx_ignorecase p \<Longrightarrow> blind_pattern p"
  by (simp add: blind_pattern_def ignorecase_blind)

lemma blind_pattern_code: "blind_code (rx_ignorecase p) (rx p) \<Longrightarrow> blind_pattern p"
  by (simp add: blind_pattern_def blind_code)

lemma ways_lower: "blind_pattern p \<Longrightarrow> ways p (lower b) (lower a) = map low_st (ways p b a)"
  using ms_lower [of "rx_ignorecase p" "rx p" "rx_multiline p" "(b, a, [])"]
  by (simp add: ways_def blind_pattern_def)

lemma ways_same_place:
  assumes "st \<in> set (ways p b a)"
  shows "lower (fst st) = lower b \<longleftrightarrow> fst st = b"
proof -
  obtain b' a' g' where "st = (b', a', g')" by (cases st) auto
  with assms ways_step [of b' a' g' p b a] obtain t where "fst st = rev t @ b" by auto
  then show ?thesis by (auto dest: arg_cong [where f = length])
qed

lemma filter_ways_lower:
  assumes "blind_pattern p"
  shows "filter (\<lambda>st. adv \<longrightarrow> fst st \<noteq> lower b) (ways p (lower b) (lower a)) =
    map low_st (filter (\<lambda>st. adv \<longrightarrow> fst st \<noteq> b) (ways p b a))"
proof -
  have "filter (\<lambda>st. adv \<longrightarrow> lower (fst st) \<noteq> lower b) (ways p b a) =
      filter (\<lambda>st. adv \<longrightarrow> fst st \<noteq> b) (ways p b a)"
    by (rule filter_cong) (simp_all add: ways_same_place)
  then show ?thesis by (simp add: ways_lower [OF assms] filter_map o_def)
qed

lemma search_from_lower:
  "blind_pattern p \<Longrightarrow>
   search_from p adv (lower b) (lower a) =
     map_option (\<lambda>(b1, st). (lower b1, low_st st)) (search_from p adv b a)"
proof (induction p adv b a rule: search_from.induct)
  case (1 p adv b)
  show ?case
    using filter_ways_lower [OF "1.prems", of adv b "[]"] by (auto split: list.splits)
next
  case (2 p adv b c cs)
  show ?case
  proof (cases "filter (\<lambda>st. adv \<longrightarrow> fst st \<noteq> b) (ways p b (c # cs))")
    case Nil
    with filter_ways_lower [OF "2.prems", of adv b "c # cs"] "2.IH" [OF Nil "2.prems"]
    show ?thesis by (simp add: lower_Cons)
  next
    case (Cons st sts)
    with filter_ways_lower [OF "2.prems", of adv b "c # cs"]
    show ?thesis by (simp add: lower_Cons)
  qed
qed

definition low_match :: "rmatch \<Rightarrow> rmatch" where
  "low_match m =
     \<lparr>m_before = lower (m_before m), m_text = lower (m_text m), m_after = lower (m_after m),
      m_groups = map (\<lambda>(n, i, t). (n, i, lower t)) (m_groups m)\<rparr>"

lemma mk_match_lower: "mk_match (lower b) (low_st st) = low_match (mk_match b st)"
  by (cases st) (simp add: mk_match_def low_match_def)

lemma scan_lower:
  "blind_pattern p \<Longrightarrow>
   scan p adv (lower b) (lower a) =
     (case scan p adv b a of (xs, t) \<Rightarrow> (map (\<lambda>(gap, m). (lower gap, low_match m)) xs, lower t))"
proof (induction p adv b a rule: scan.induct)
  case (1 p adv b a)
  show ?case
  proof (cases "search_from p adv b a")
    case None
    with search_from_lower [OF "1.prems", of adv b a] show ?thesis
      by (simp add: scan.simps [of p adv b a] scan.simps [of p adv "lower b"])
  next
    case (Some x)
    obtain b1 st where x: "x = (b1, st)" by (cases x) auto
    have s: "search_from p adv (lower b) (lower a) = Some (lower b1, low_st st)"
      using search_from_lower [OF "1.prems", of adv b a] Some x by simp
    from search_from_Some Some x obtain a1 where "st \<in> set (ways p b1 a1)" by blast
    from ways_same_place [OF this] have e: "(lower (fst st) = lower b1) = (fst st = b1)" .
    show ?thesis
      using "1.IH" [OF Some x [symmetric] "1.prems"] Some x s
      by (simp add: scan.simps [of p adv b a] scan.simps [of p adv "lower b"] e mk_match_lower
          split: prod.splits)
  qed
qed

text \<open>Substitution commutes with lower-casing.\<close>

lemma re_sub_lower:
  assumes "blind_pattern p"
  shows "re_sub p (lower r) (lower s) = lower (re_sub p r s)"
proof -
  have c: "lower (concat xs) = concat (map lower xs)" for xs by (induction xs) simp_all
  show ?thesis
    using scan_lower [OF assms, of False "[]" s]
    by (auto simp: re_sub_def re_sub_fun_def c o_def split: prod.splits intro!: arg_cong [where f = concat])
qed

lemma re_search_lower:
  "blind_pattern p \<Longrightarrow> re_search p (lower s) = map_option low_match (re_search p s)"
  using search_from_lower [of p False "[]" s]
  by (cases "search_from p False [] s") (auto simp: re_search_def simp flip: mk_match_lower)

lemma re_found_lower: "blind_pattern p \<Longrightarrow> re_found p (lower s) = re_found p s"
  by (simp add: re_found_def re_search_lower)

lemma re_match_lower:
  "blind_pattern p \<Longrightarrow> re_match p (lower s) = map_option low_match (re_match p s)"
  using ways_lower [of p "[]" s] mk_match_lower [of "[]"]
  by (auto simp: re_match_def split: list.splits)

text \<open>The methods of strings.\<close>

lemma is_space_lower [simp]: "is_space (to_lower c) = is_space c"
  by (cases c) (auto simp: is_space_code to_lower_def is_upper_code)

lemma strip_by_lower:
  assumes "\<And>c. p (to_lower c) = p c"
  shows "strip_by p (lower s) = lower (strip_by p s)"
proof -
  have d: "dropWhile p (lower t) = lower (dropWhile p t)" for t
    by (induction t) (simp_all add: lower_Cons assms)
  then show ?thesis
    using d [of s] d [of "rev (dropWhile p s)"] by (simp add: strip_by_def rstrip_by_def lstrip_by_def)
qed

lemma strip_lower: "strip (lower s) = lower (strip s)"
  by (simp add: strip_def strip_by_lower)

section \<open>Anchored patterns\<close>

text \<open>An expression that can only end at the end of the text.\<close>

fun ends_eol :: "re \<Rightarrow> bool" where
  "ends_eol REol = True"
| "ends_eol (RSeq r1 r2) = ends_eol r2"
| "ends_eol (RAlt r1 r2) = (ends_eol r1 \<and> ends_eol r2)"
| "ends_eol (RGrp n r) = ends_eol r"
| "ends_eol _ = False"

lemma ms_ends_eol:
  "st' \<in> set (ms ic ml r st) \<Longrightarrow> ends_eol r \<Longrightarrow> at_eol ml (fst (snd st'))"
proof (induction r arbitrary: st st' rule: ends_eol.induct)
  case 1
  then show ?case by (cases st) (auto split: if_splits)
next
  case (4 n r)
  obtain b a g where "st = (b, a, g)" by (cases st) auto
  with 4 obtain x where "x \<in> set (ms ic ml r st)" "fst (snd st') = fst (snd x)"
    by (auto split: prod.splits)
  with "4.IH" [of x st] "4.prems"(2) show ?case by simp
next
  case (3 r1 r2)
  then have "st' \<in> set (ms ic ml r1 st) \<or> st' \<in> set (ms ic ml r2 st)" by auto
  moreover have "ends_eol r1" "ends_eol r2" using "3.prems" by simp_all
  ultimately show ?case using "3.IH" by blast
qed auto

text \<open>A match of such a pattern from the start reads the whole text, but for a final newline.\<close>

lemma re_match_whole:
  assumes "re_match p s = Some m" and "ends_eol (rx p)" and "\<not> rx_multiline p"
  shows "\<exists>t \<in> lang (rx_ignorecase p) (rx p). s = t \<or> s = t @ [CHR 0x0A]"
proof -
  from assms(1) obtain st where st: "st \<in> set (ways p [] s)"
    by (auto simp: re_match_def split: list.splits)
  then have "at_eol False (fst (snd st))"
    using ms_ends_eol [OF _ assms(2)] assms(3) by (auto simp: ways_def)
  then have "fst (snd st) = [] \<or> fst (snd st) = [CHR 0x0A]"
    by (auto simp: at_eol_def split: list.splits)
  moreover obtain t where "t \<in> lang (rx_ignorecase p) (rx p)" "s = t @ fst (snd st)"
    using ms_lang [OF st [unfolded ways_def]] by auto
  ultimately show ?thesis by auto
qed

text \<open>Expressions that read no digit.\<close>

fun digit_free_item :: "citem \<Rightarrow> bool" where
  "digit_free_item (CChar d) = (\<not> is_digit d)"
| "digit_free_item (CSpace p) = p"
| "digit_free_item _ = False"

fun digit_free :: "re \<Rightarrow> bool" where
  "digit_free (RChar d) = (\<not> is_digit d)"
| "digit_free RAny = False"
| "digit_free (RCls neg is) = (\<not> neg \<and> list_all digit_free_item is)"
| "digit_free (RSeq r1 r2) = (digit_free r1 \<and> digit_free r2)"
| "digit_free (RAlt r1 r2) = (digit_free r1 \<and> digit_free r2)"
| "digit_free (RStar greedy r) = digit_free r"
| "digit_free (RGrp n r) = digit_free r"
| "digit_free _ = True"

lemma digit_free_item_matches: "digit_free_item i \<Longrightarrow> citem_matches i c \<Longrightarrow> \<not> is_digit c"
  by (cases i) auto

lemma digit_free_over: "digit_free r \<Longrightarrow> over ic (\<lambda>c. \<not> is_digit c) r"
proof (induction r)
  case (RChar d)
  then show ?case by (auto simp: chr_matches_def dest: arg_cong [where f = is_digit])
next
  case (RCls neg items)
  then show ?case
    by (auto simp: cls_matches_def list_all_iff list_ex_iff)
      (metis digit_free_item_matches is_digit_to_lower is_digit_to_upper)+
qed auto

lemma digit_free_match:
  assumes "re_match p s = Some m" and "digit_free (rx p)" and "ends_eol (rx p)" and "\<not> rx_multiline p"
  shows "\<not> list_ex is_digit s"
proof -
  obtain t where t: "t \<in> lang (rx_ignorecase p) (rx p)" "s = t \<or> s = t @ [CHR 0x0A]"
    using re_match_whole [OF assms(1,3,4)] by blast
  have "\<forall>c \<in> set t. \<not> is_digit c"
    using over_lang [OF digit_free_over [OF assms(2)] t(1)] by blast
  moreover have "\<not> is_digit CHR 0x0A" by (simp add: is_digit_code)
  ultimately show ?thesis using t(2) by (auto simp: list_ex_iff)
qed

end
