(* ===== verification/TableStore.thy ===== *)
theory TableStore
  imports PyVal
begin

text \<open>
  The hosted table service the code stores its rows in (a PostgREST client).  Its operations are
  parameters of the model, as a record of functions on a service state; \<open>None\<close> is an exception.
  The locale \<open>row_store\<close> states what the code relies on, which is the documented behaviour of an
  upsert and of an equality filter; the tables below satisfy it.
\<close>

section \<open>The interface\<close>

type_synonym filters = "(string \<times> pyval) list"

record 's rest =
  rest_select :: "'s \<Rightarrow> string \<Rightarrow> filters \<Rightarrow> pydict list option"
  rest_upsert :: "'s \<Rightarrow> string \<Rightarrow> string list \<Rightarrow> pydict \<Rightarrow> 's option"
  rest_upserts :: "'s \<Rightarrow> string \<Rightarrow> string list \<Rightarrow> pydict list \<Rightarrow> ('s \<times> pydict list) option"
  rest_insert :: "'s \<Rightarrow> string \<Rightarrow> pydict list \<Rightarrow> 's option"
  rest_delete :: "'s \<Rightarrow> string \<Rightarrow> filters \<Rightarrow> 's option"
  rest_rpc :: "'s \<Rightarrow> string \<Rightarrow> pydict \<Rightarrow> 's option"

text \<open>The filter that names a row by the columns of a key.\<close>

definition key_filter :: "string list \<Rightarrow> pydict \<Rightarrow> filters" where
  "key_filter ks row = map (\<lambda>k. (k, dget row k)) ks"

definition row_matches :: "filters \<Rightarrow> pydict \<Rightarrow> bool" where
  "row_matches fs row = list_all (\<lambda>(k, v). dget row k = v) fs"

locale row_store =
  fixes ops :: "'s rest"
  assumes upsert_written:
      "rest_upsert ops s t ks row = Some s' \<Longrightarrow> distinct (map fst row) \<Longrightarrow>
       set ks \<subseteq> fst ` set row \<Longrightarrow>
       \<exists>r rs. rest_select ops s' t (key_filter ks row) = Some (r # rs) \<and>
         (\<forall>(k, v) \<in> set row. dget r k = v)"
    and upsert_other_table:
      "rest_upsert ops s t ks row = Some s' \<Longrightarrow> t' \<noteq> t \<Longrightarrow>
       rest_select ops s' t' fs = rest_select ops s t' fs"
    and upsert_other_row:
      "rest_upsert ops s t ks row = Some s' \<Longrightarrow> distinct (map fst row) \<Longrightarrow>
       set ks \<subseteq> fst ` set row \<Longrightarrow> (k, v) \<in> set fs \<Longrightarrow> k \<in> set ks \<Longrightarrow> v \<noteq> dget row k \<Longrightarrow> rest_select ops s' t fs = rest_select ops s t fs"
    and select_matches:
      "rest_select ops s t fs = Some rs \<Longrightarrow> r \<in> set rs \<Longrightarrow> row_matches fs r"

text \<open>
  The operations on many rows at once: a deleted row is gone and no other is, and what a batch leaves
  is what was there or what it wrote.
\<close>

definition written_from :: "pydict list \<Rightarrow> pydict \<Rightarrow> bool" where
  "written_from rows r = (\<exists>row \<in> set rows. \<forall>k \<in> fst ` set row. dget r k = dget row k)"

locale batch_store = row_store +
  assumes delete_gone: "rest_delete ops s t fs = Some s' \<Longrightarrow> rest_select ops s' t fs = Some []"
    and delete_other_table: "rest_delete ops s t fs = Some s' \<Longrightarrow> t' \<noteq> t \<Longrightarrow>
      rest_select ops s' t' gs = rest_select ops s t' gs"
    and delete_other_row: "rest_delete ops s t fs = Some s' \<Longrightarrow> (k, v) \<in> set fs \<Longrightarrow> (k, v') \<in> set gs \<Longrightarrow>
      v \<noteq> v' \<Longrightarrow> rest_select ops s' t gs = rest_select ops s t gs"
    and upserts_rows: "rest_upserts ops s t ks rows = Some (s', out) \<Longrightarrow> rest_select ops s t fs = Some old \<Longrightarrow>
      rest_select ops s' t fs = Some rs \<Longrightarrow> r \<in> set rs \<Longrightarrow>
      (\<And>row. row \<in> set rows \<Longrightarrow> distinct (map fst row)) \<Longrightarrow> r \<in> set old \<or> written_from rows r"
    and upserts_other_table: "rest_upserts ops s t ks rows = Some (s', out) \<Longrightarrow> t' \<noteq> t \<Longrightarrow>
      rest_select ops s' t' fs = rest_select ops s t' fs"
    and upserts_other_row: "rest_upserts ops s t ks rows = Some (s', out) \<Longrightarrow> k \<in> set ks \<Longrightarrow> (k, v) \<in> set fs \<Longrightarrow>
      (\<And>row. row \<in> set rows \<Longrightarrow> distinct (map fst row) \<and> set ks \<subseteq> fst ` set row \<and> dget row k \<noteq> v) \<Longrightarrow>
      rest_select ops s' t fs = rest_select ops s t fs"
    and insert_other_row: "rest_insert ops s t rows = Some s' \<Longrightarrow> (k, v) \<in> set fs \<Longrightarrow>
      (\<And>row. row \<in> set rows \<Longrightarrow> distinct (map fst row) \<and> k \<in> fst ` set row \<and> dget row k \<noteq> v) \<Longrightarrow>
      rest_select ops s' t fs = rest_select ops s t fs"
    and insert_other_table: "rest_insert ops s t rows = Some s' \<Longrightarrow> t' \<noteq> t \<Longrightarrow>
      rest_select ops s' t' fs = rest_select ops s t' fs"

section \<open>Tables\<close>

text \<open>A table is the list of its rows with their table's name; a new row gets the next identifier.\<close>

record tables =
  tb_rows :: "(string \<times> pydict) list"
  tb_next :: int

definition tb_select :: "tables \<Rightarrow> string \<Rightarrow> filters \<Rightarrow> pydict list option" where
  "tb_select s t fs = Some (map snd (filter (\<lambda>(t', r). t' = t \<and> row_matches fs r) (tb_rows s)))"

definition is_hit :: "string \<Rightarrow> string list \<Rightarrow> pydict \<Rightarrow> string \<times> pydict \<Rightarrow> bool" where
  "is_hit t ks row x = (fst x = t \<and> row_matches (key_filter ks row) (snd x))"

text \<open>The columns of the new row replace the old ones.\<close>

definition tb_upsert :: "tables \<Rightarrow> string \<Rightarrow> string list \<Rightarrow> pydict \<Rightarrow> tables option" where
  "tb_upsert s t ks row =
     (if list_ex (is_hit t ks row) (tb_rows s)
      then Some (s\<lparr>tb_rows := map (\<lambda>x. if is_hit t ks row x then (t, dupdate (snd x) row) else x) (tb_rows s)\<rparr>)
      else Some (s\<lparr>tb_rows := tb_rows s @ [(t, dupdate [(''id'', VInt (tb_next s))] row)],
                   tb_next := tb_next s + 1\<rparr>))"

text \<open>A batch is written row by row; the answer is the rows as they are stored then.\<close>

fun tb_upserts :: "tables \<Rightarrow> string \<Rightarrow> string list \<Rightarrow> pydict list \<Rightarrow> (tables \<times> pydict list) option" where
  "tb_upserts s t ks [] = Some (s, [])"
| "tb_upserts s t ks (row # rows) =
     Option.bind (tb_upsert s t ks row) (\<lambda>s1.
     Option.bind (tb_upserts s1 t ks rows) (\<lambda>(s2, out).
     Option.bind (tb_select s1 t (key_filter ks row)) (\<lambda>rs. Some (s2, take 1 rs @ out))))"

fun tb_insert :: "tables \<Rightarrow> string \<Rightarrow> pydict list \<Rightarrow> tables option" where
  "tb_insert s t [] = Some s"
| "tb_insert s t (row # rows) =
     tb_insert (s\<lparr>tb_rows := tb_rows s @ [(t, dupdate [(''id'', VInt (tb_next s))] row)], tb_next := tb_next s + 1\<rparr>) t rows"

definition tb_delete :: "tables \<Rightarrow> string \<Rightarrow> filters \<Rightarrow> tables option" where
  "tb_delete s t fs = Some (s\<lparr>tb_rows := filter (\<lambda>(t', r). \<not> (t' = t \<and> row_matches fs r)) (tb_rows s)\<rparr>)"

definition tb_rpc :: "tables \<Rightarrow> string \<Rightarrow> pydict \<Rightarrow> tables option" where
  "tb_rpc s f args = Some s"

definition table_ops :: "tables rest" where
  "table_ops = \<lparr>rest_select = tb_select, rest_upsert = tb_upsert, rest_upserts = tb_upserts,
    rest_insert = tb_insert, rest_delete = tb_delete, rest_rpc = tb_rpc\<rparr>"

section \<open>The tables satisfy the interface\<close>

lemma dget_dput: "dget (dput d k v) k' = (if k' = k then v else dget d k')"
  by simp

lemma dget_dupdate:
  "distinct (map fst row) \<Longrightarrow>
   dget (dupdate d row) k = (case map_of row k of Some v \<Rightarrow> v | None \<Rightarrow> dget d k)"
proof (induction row arbitrary: d)
  case (Cons x row)
  obtain k' v where x: "x = (k', v)" by (cases x) auto
  have "map_of row k' = None" using Cons.prems x by (simp add: map_of_eq_None_iff)
  with Cons.IH [of "dput d k' v"] Cons.prems x show ?case
    by (auto simp: dupdate_def split: option.splits)
qed (simp add: dupdate_def)

lemma dget_dupdate_notin: "k \<notin> fst ` set row \<Longrightarrow> dget (dupdate d row) k = dget d k"
proof (induction row arbitrary: d)
  case (Cons x row)
  then show ?case by (cases x) (auto simp: dupdate_def)
qed (simp add: dupdate_def)

lemma dget_dupdate_in:
  "distinct (map fst row) \<Longrightarrow> (k, v) \<in> set row \<Longrightarrow> dget (dupdate d row) k = v"
  by (simp add: dget_dupdate)

lemma dget_in: "distinct (map fst row) \<Longrightarrow> (k, v) \<in> set row \<Longrightarrow> dget row k = v"
  by (simp add: dget_def)

lemma key_filter_in: "k \<in> set ks \<Longrightarrow> (k, dget row k) \<in> set (key_filter ks row)"
  by (auto simp: key_filter_def)

lemma row_matches_key: "row_matches (key_filter ks row) r \<longleftrightarrow> (\<forall>k \<in> set ks. dget r k = dget row k)"
  by (auto simp: row_matches_def key_filter_def list_all_iff)

lemma updated_matches:
  assumes "distinct (map fst row)" and "set ks \<subseteq> fst ` set row"
  shows "row_matches (key_filter ks row) (dupdate d row)"
proof -
  have "dget (dupdate d row) k = dget row k" if "k \<in> set ks" for k
  proof -
    from that assms(2) obtain v where "(k, v) \<in> set row" by auto
    with assms(1) show ?thesis by (simp add: dget_dupdate_in dget_in)
  qed
  then show ?thesis by (simp add: row_matches_key)
qed

lemma filter_map_unchanged:
  "(\<And>x. x \<in> set xs \<Longrightarrow> h x \<Longrightarrow> \<not> P x \<and> \<not> P (f x)) \<Longrightarrow>
   filter P (map (\<lambda>x. if h x then f x else x) xs) = filter P xs"
  by (induction xs) auto

lemma row_matches_not: "(k, v) \<in> set fs \<Longrightarrow> dget r k \<noteq> v \<Longrightarrow> \<not> row_matches fs r"
  by (auto simp: row_matches_def list_all_iff intro!: bexI [where x = "(k, v)"])

lemma tb_upsert_rows:
  "tb_upsert s t ks row = Some s' \<Longrightarrow>
   tb_rows s' =
     (if list_ex (is_hit t ks row) (tb_rows s)
      then map (\<lambda>x. if is_hit t ks row x then (t, dupdate (snd x) row) else x) (tb_rows s)
      else tb_rows s @ [(t, dupdate [(''id'', VInt (tb_next s))] row)])"
  by (auto simp: tb_upsert_def split: if_splits)

text \<open>After an upsert some row has the key, and every row with the key has the columns written.\<close>

lemma tb_upsert_hits:
  assumes u: "tb_upsert s t ks row = Some s'"
    and d: "distinct (map fst row)" and k: "set ks \<subseteq> fst ` set row"
  shows "\<exists>x \<in> set (tb_rows s'). is_hit t ks row x"
    and "\<forall>x \<in> set (tb_rows s'). is_hit t ks row x \<longrightarrow> (\<exists>d0. snd x = dupdate d0 row)"
proof -
  have new: "is_hit t ks row (t, dupdate d0 row)" for d0
    using updated_matches [OF d k] by (simp add: is_hit_def)
  show "\<exists>x \<in> set (tb_rows s'). is_hit t ks row x"
  proof (cases "list_ex (is_hit t ks row) (tb_rows s)")
    case True
    then obtain x where x: "x \<in> set (tb_rows s)" "is_hit t ks row x" by (auto simp: list_ex_iff)
    then have "(t, dupdate (snd x) row) \<in> set (tb_rows s')"
      using True by (auto simp: tb_upsert_rows [OF u] image_iff intro!: bexI [of _ x])
    with new show ?thesis by blast
  qed (use new in \<open>auto simp: tb_upsert_rows [OF u]\<close>)
  show "\<forall>x \<in> set (tb_rows s'). is_hit t ks row x \<longrightarrow> (\<exists>d0. snd x = dupdate d0 row)"
    by (auto simp: tb_upsert_rows [OF u] list_ex_iff)
qed

lemma tb_upsert_select:
  assumes u: "tb_upsert s t ks row = Some s'"
    and no: "\<And>r. is_hit t ks row (t, r) \<Longrightarrow> t = t' \<Longrightarrow> \<not> row_matches fs r"
      "\<And>d0. t = t' \<Longrightarrow> \<not> row_matches fs (dupdate d0 row)"
  shows "tb_select s' t' fs = tb_select s t' fs"
proof -
  let ?P = "\<lambda>(t'', r). t'' = t' \<and> row_matches fs r"
  have "filter ?P (map (\<lambda>x. if is_hit t ks row x then (t, dupdate (snd x) row) else x) (tb_rows s)) =
      filter ?P (tb_rows s)"
    by (rule filter_map_unchanged) (use no in \<open>auto simp: is_hit_def\<close>)
  then have "filter ?P (tb_rows s') = filter ?P (tb_rows s)"
    using no by (auto simp: tb_upsert_rows [OF u])
  then show ?thesis by (simp add: tb_select_def)
qed

interpretation tables: row_store table_ops
proof
  fix s s' :: tables and t t' :: string and ks :: "string list" and row r :: pydict and fs :: filters
    and k :: string and v :: pyval and rs
  {
    assume "rest_select table_ops s t fs = Some rs" and "r \<in> set rs"
    then show "row_matches fs r" by (auto simp: table_ops_def tb_select_def)
  }
  assume "rest_upsert table_ops s t ks row = Some s'"
  then have u: "tb_upsert s t ks row = Some s'" by (simp add: table_ops_def)
  show "t' \<noteq> t \<Longrightarrow> rest_select table_ops s' t' fs = rest_select table_ops s t' fs"
    using tb_upsert_select [OF u] by (simp add: table_ops_def)
  assume d: "distinct (map fst row)" and k: "set ks \<subseteq> fst ` set row"
  show "\<exists>r rs. rest_select table_ops s' t (key_filter ks row) = Some (r # rs) \<and>
         (\<forall>(k, v) \<in> set row. dget r k = v)"
  proof -
    let ?h = "\<lambda>(t', r). t' = t \<and> row_matches (key_filter ks row) r"
    obtain x xs where x: "filter ?h (tb_rows s') = x # xs"
      using tb_upsert_hits(1) [OF u d k]
      by (cases "filter ?h (tb_rows s')") (auto simp: is_hit_def filter_empty_conv)
    from filter_head [OF x] have "x \<in> set (tb_rows s')" "is_hit t ks row x" by (auto simp: is_hit_def)
    with tb_upsert_hits(2) [OF u d k] obtain d0 where "snd x = dupdate d0 row" by blast
    with x dget_dupdate_in [OF d] show ?thesis by (auto simp: table_ops_def tb_select_def)
  qed
  assume f: "(k, v) \<in> set fs" "k \<in> set ks" "v \<noteq> dget row k"
  have old: "\<not> row_matches fs r" if "row_matches (key_filter ks row) r" for r
    using that f by (intro row_matches_not [OF f(1)]) (simp add: row_matches_key)
  have "tb_select s' t fs = tb_select s t fs"
    by (rule tb_upsert_select [OF u]) (simp_all add: is_hit_def old updated_matches [OF d k])
  then show "rest_select table_ops s' t fs = rest_select table_ops s t fs"
    by (simp add: table_ops_def)
qed

section \<open>The tables satisfy the interface of batches\<close>

lemma tb_upsert_new:
  "tb_upsert s t ks row = Some s' \<Longrightarrow> (t', r) \<in> set (tb_rows s') \<Longrightarrow>
   (t', r) \<in> set (tb_rows s) \<or> t' = t \<and> (\<exists>d. r = dupdate d row)"
  by (auto simp: tb_upsert_rows split: if_splits)

lemma tb_upserts_new:
  "tb_upserts s t ks rows = Some (s', out) \<Longrightarrow> (t', r) \<in> set (tb_rows s') \<Longrightarrow>
   (t', r) \<in> set (tb_rows s) \<or> t' = t \<and> (\<exists>d. \<exists>row \<in> set rows. r = dupdate d row)"
proof (induction rows arbitrary: s out)
  case (Cons row rows)
  then obtain s1 out1 where s1: "tb_upsert s t ks row = Some s1" "tb_upserts s1 t ks rows = Some (s', out1)"
    by (auto simp: bind_eq_Some_conv)
  from Cons.IH [OF s1(2) Cons.prems(2)] tb_upsert_new [OF s1(1)] show ?case by fastforce
qed simp

lemma tb_upserts_select:
  assumes "tb_upserts s t ks rows = Some (s', out)"
    and "\<And>s1 s2 row. row \<in> set rows \<Longrightarrow> tb_upsert s1 t ks row = Some s2 \<Longrightarrow> tb_select s2 t' fs = tb_select s1 t' fs"
  shows "tb_select s' t' fs = tb_select s t' fs"
  using assms
proof (induction rows arbitrary: s out)
  case (Cons row rows)
  then obtain s1 out1 where s1: "tb_upsert s t ks row = Some s1" "tb_upserts s1 t ks rows = Some (s', out1)"
    by (auto simp: bind_eq_Some_conv)
  have "tb_select s' t' fs = tb_select s1 t' fs" by (rule Cons.IH [OF s1(2)]) (use Cons.prems(2) in auto)
  moreover have "tb_select s1 t' fs = tb_select s t' fs" by (rule Cons.prems(2) [OF _ s1(1)]) simp
  ultimately show ?case by simp
qed simp

lemma tb_insert_select: "tb_insert s t rows = Some s' \<Longrightarrow> t' \<noteq> t \<Longrightarrow> tb_select s' t' fs = tb_select s t' fs"
  by (induction s t rows rule: tb_insert.induct) (auto simp: tb_select_def)

lemma tb_insert_other:
  assumes "tb_insert s t rows = Some s'" and "(k, v) \<in> set fs"
    and "\<And>row. row \<in> set rows \<Longrightarrow> distinct (map fst row) \<and> k \<in> fst ` set row \<and> dget row k \<noteq> v"
  shows "tb_select s' t fs = tb_select s t fs"
  using assms
proof (induction s t rows rule: tb_insert.induct)
  case (2 s t row rows)
  let ?s = "s\<lparr>tb_rows := tb_rows s @ [(t, dupdate [(''id'', VInt (tb_next s))] row)], tb_next := tb_next s + 1\<rparr>"
  have "distinct (map fst row)" "k \<in> fst ` set row" "dget row k \<noteq> v" using "2.prems"(3) by auto
  then have "dget (dupdate d row) k \<noteq> v" for d by (auto simp: dget_dupdate_in dget_in)
  then have "\<not> row_matches fs (dupdate d row)" for d using "2.prems"(2) by (intro row_matches_not)
  then have "tb_select ?s t fs = tb_select s t fs" by (simp add: tb_select_def)
  moreover have "tb_select s' t fs = tb_select ?s t fs" using "2.prems" by (intro "2.IH") auto
  ultimately show ?case by simp
qed simp

lemma in_tb_select: "tb_select s t fs = Some rs \<Longrightarrow> r \<in> set rs \<longleftrightarrow> (t, r) \<in> set (tb_rows s) \<and> row_matches fs r"
  by (auto simp: tb_select_def image_iff split: prod.splits)

lemma row_matches_differ: "(k, v) \<in> set fs \<Longrightarrow> (k, v') \<in> set gs \<Longrightarrow> v \<noteq> v' \<Longrightarrow> row_matches gs r \<Longrightarrow> \<not> row_matches fs r"
proof
  assume h: "(k, v) \<in> set fs" "(k, v') \<in> set gs" "v \<noteq> v'" "row_matches gs r" "row_matches fs r"
  then have "dget r k = v'" "dget r k = v" by (auto simp: row_matches_def list_all_iff)
  with h(3) show False by simp
qed

lemma tb_upsert_ops [simp]: "rest_upsert table_ops = tb_upsert" "rest_select table_ops = tb_select"
  by (simp_all add: table_ops_def)

interpretation batch_tables: batch_store table_ops
proof
  fix s s' :: tables and t t' :: string and ks :: "string list" and rows out old rs :: "pydict list" and r :: pydict
    and fs gs :: filters and k :: string and v v' :: pyval
  {
    assume "rest_delete table_ops s t fs = Some s'"
    then have d: "tb_rows s' = filter (\<lambda>(t', r). \<not> (t' = t \<and> row_matches fs r)) (tb_rows s)"
      by (auto simp: table_ops_def tb_delete_def)
    show "rest_select table_ops s' t fs = Some []"
      by (auto simp: table_ops_def tb_select_def d filter_empty_conv)
    show "t' \<noteq> t \<Longrightarrow> rest_select table_ops s' t' gs = rest_select table_ops s t' gs"
      by (auto simp: table_ops_def tb_select_def d intro!: arg_cong [where f = "map snd"] filter_cong)
    show "(k, v) \<in> set fs \<Longrightarrow> (k, v') \<in> set gs \<Longrightarrow> v \<noteq> v' \<Longrightarrow> rest_select table_ops s' t gs = rest_select table_ops s t gs"
      using row_matches_differ [of k v fs v' gs]
      by (auto simp: table_ops_def tb_select_def d intro!: arg_cong [where f = "map snd"] filter_cong)
  }
  show "rest_select table_ops s' t fs = rest_select table_ops s t fs"
    if "rest_insert table_ops s t rows = Some s'" "(k, v) \<in> set fs"
      "\<And>row. row \<in> set rows \<Longrightarrow> distinct (map fst row) \<and> k \<in> fst ` set row \<and> dget row k \<noteq> v"
    using tb_insert_other [of s t rows s' k v fs] that by (simp add: table_ops_def)
  show "rest_insert table_ops s t rows = Some s' \<Longrightarrow> t' \<noteq> t \<Longrightarrow>
      rest_select table_ops s' t' fs = rest_select table_ops s t' fs"
    using tb_insert_select by (simp add: table_ops_def)
  assume "rest_upserts table_ops s t ks rows = Some (s', out)"
  then have u: "tb_upserts s t ks rows = Some (s', out)" by (simp add: table_ops_def)
  show "t' \<noteq> t \<Longrightarrow> rest_select table_ops s' t' fs = rest_select table_ops s t' fs"
    using tb_upserts_select [OF u, of t' fs] tb_upsert_select by (simp add: table_ops_def)
  show "rest_select table_ops s' t fs = rest_select table_ops s t fs"
    if "k \<in> set ks" "(k, v) \<in> set fs"
      and w: "\<And>row. row \<in> set rows \<Longrightarrow> distinct (map fst row) \<and> set ks \<subseteq> fst ` set row \<and> dget row k \<noteq> v"
  proof -
    have "tb_select s2 t fs = tb_select s1 t fs" if "row \<in> set rows" "tb_upsert s1 t ks row = Some s2" for s1 s2 row
      using tables.upsert_other_row [of s1 t ks row s2 k v fs] \<open>k \<in> set ks\<close> \<open>(k, v) \<in> set fs\<close> w [OF that(1)] that(2)
      by (simp add: eq_commute)
    then show ?thesis using tb_upserts_select [OF u, of t fs] by (simp add: table_ops_def)
  qed
  assume old: "rest_select table_ops s t fs = Some old" and new: "rest_select table_ops s' t fs = Some rs" "r \<in> set rs"
    and d: "\<And>row. row \<in> set rows \<Longrightarrow> distinct (map fst row)"
  from new have "(t, r) \<in> set (tb_rows s')" "row_matches fs r" by (auto simp: table_ops_def in_tb_select)
  from tb_upserts_new [OF u this(1)] show "r \<in> set old \<or> written_from rows r"
  proof
    assume "(t, r) \<in> set (tb_rows s)"
    then show ?thesis using old \<open>row_matches fs r\<close> by (auto simp: table_ops_def in_tb_select)
  next
    assume "t = t \<and> (\<exists>d. \<exists>row \<in> set rows. r = dupdate d row)"
    then obtain e row where row: "row \<in> set rows" "r = dupdate e row" by blast
    have "dget r k = dget row k" if "k \<in> fst ` set row" for k
    proof -
      from that obtain v where "(k, v) \<in> set row" by auto
      then show ?thesis using d [OF row(1)] by (simp add: row(2) dget_dupdate_in dget_in)
    qed
    with row(1) have "written_from rows r" unfolding written_from_def by blast
    then show ?thesis ..
  qed
qed

end
