(* ===== verification/ExtractionDedup.thy ===== *)
theory ExtractionDedup
  imports RegexCase TableStore
begin

text \<open>
  \<open>extraction_dedup.py\<close>: the canonical form a message is hashed by, the filter that keeps
  messages without a listing from the extractor, and the two caches of extraction results.

  SHA-256 is a parameter \<open>sha\<close> of the caches, the table service the parameter \<open>ops\<close>.
\<close>

section \<open>The canonical form\<close>

definition ws_re :: pattern where
  "ws_re = rx_plain ''%s+''"

definition zero_width_re :: pattern where
  "zero_width_re = rx_plain ''[%u200b-%u200f%u2060%ufeff]''"

definition forward_banner_re :: pattern where
  "forward_banner_re = rx_i
     ''^%s*(?:>+%s*)?(?:forwarded(?:%s+many%s+times)?|fwd|fw)%s*[:%-%u2013]?%s*''"

definition normalize_for_hash :: "string \<Rightarrow> string" where
  "normalize_for_hash text =
     (if text = [] then []
      else casefold (strip (re_sub ws_re '' '' (re_sub forward_banner_re [] (re_sub zero_width_re [] (nfkc text))))))"

definition content_hash :: "(string \<Rightarrow> string) \<Rightarrow> string \<Rightarrow> string" where
  "content_hash sha text = sha (normalize_for_hash text)"

section \<open>The skip filter\<close>

definition min_extractable_chars :: nat where
  "min_extractable_chars = 30"

definition chatter_re :: pattern where
  "chatter_re = seq_i
     [RBol,
      alt_of
       [''ok(?:ay)?'', ''thanks?'', ''thank%s+you'', ''ty'', ''tysm'', ''yes'', ''yep'', ''no'', ''nope'',
        ''hi'', ''hello'', ''hey'',
        ''good%s+(?:morning|afternoon|evening|night)'', ''gm'', ''gn'', ''gud%s+mrng'',
        ''welcome'', ''noted'', ''done'', ''sure'', ''k'', ''kk'', ''hmm+'', ''haan'', ''ha'', ''nahi'',
        ''theek'', ''thik'', ''ji'',
        ''congrats'', ''congratulations'', ''great'', ''nice'', ''super'', ''perfect'',
        ''please%s+share'', ''share%s+details?'', ''any%s+update'', ''updates?'',
        ''deleted%s+this%s+message'', ''this%s+message%s+was%s+deleted'',
        ''joined%s+using%s+this%s+group'', ''left'', ''removed'', ''added''],
      re_of ''[%s%.,!?%U0001F44D%U0001F64F%U0001F60A%U0001F604%U0001F389%u2764%uFE0F%u2705%u2795]*$'']"

definition placeholder_re :: pattern where
  "placeholder_re = rx_i (
     ''^%s*%[?%s*(?:image|video|audio|document|sticker|gif|photo|voice|'' @
     ''media%s+omitted|no%s+text)%s*%]?%s*$'')"

definition property_signal_re :: pattern where
  "property_signal_re = seq_i
     [alt_of
       [''%d%s*(?:bhk|rk%b)'', ''%bbhk%b'', ''%brk%b'',
        ''sq%.?%s?ft'', ''sqft'', ''sq%.?%s?mtr'', ''carpet'', ''built%s*up'', ''saleable'',
        ''%brent%b'', ''%bsale%b'', ''%blease%b'', ''resale'', ''%bbuy%b'', ''%bsell%b'',
        ''lakh'', ''lacs?%b'', ''%bcr%b'', ''crore'', ''%u20B9'', ''%brs%.?%b'', ''inr%b'',
        ''%bprice%b'', ''budget'', ''deposit'', ''brokerage'',
        ''available'', ''require(?:ment|d)?%b'', ''looking%s+for'',
        ''%bwanted%s*[:%-]'',
        ''%bwanted%s+(?:a|an|%d|one|two|three|flat|shop|office|apartment|property|space|bhk)%b'',
        ''%bneed%s+(?:a|an|%d|one|two|three|flat|shop|office|apartment|property|space|bhk|urgent)%b'',
        ''%bflat%b'', ''apartment'', ''%bshop%b'', ''office'', ''villa'', ''bungalow'', ''%bplot%b'',
        ''penthouse'', ''studio'', ''duplex'', ''godown'', ''warehouse'', ''showroom'',
        ''%bpg%b'', ''paying%s+guest'', ''co%s*-?%s*living'', ''hostel'',
        ''(?:single|double|triple|twin|quad)%s+sharing'', ''sharing%s+basis'',
        ''%b%d+%s*k%b'',
        ''furnished'', ''unfurnished'', ''vacant'', ''possession'',
        ''floor%b'', ''tower'', ''wing%b'', ''society'', ''building'', ''project'']]"

datatype skip_reason =
    SKIP_EMPTY | SKIP_PLACEHOLDER | SKIP_TOO_SHORT | SKIP_CHATTER | SKIP_NO_SIGNAL

definition should_skip :: "string option \<Rightarrow> skip_reason option" where
  "should_skip text =
     (case text of
        None \<Rightarrow> Some SKIP_EMPTY
      | Some t \<Rightarrow>
          let stripped = strip t in
          if stripped = [] then Some SKIP_EMPTY
          else if re_match placeholder_re stripped \<noteq> None then Some SKIP_PLACEHOLDER
          else if re_match chatter_re stripped \<noteq> None then Some SKIP_CHATTER
          else if length stripped < min_extractable_chars then Some SKIP_TOO_SHORT
          else if \<not> re_found property_signal_re stripped then Some SKIP_NO_SIGNAL
          else None)"

section \<open>The tenant cache\<close>

definition extraction_cache_version :: string where
  "extraction_cache_version = ''source-slice-v4-model-first''"

definition cache_hash :: "(string \<Rightarrow> string) \<Rightarrow> string \<Rightarrow> string" where
  "cache_hash sha text =
     content_hash sha (normalize_for_hash text @ [CHR 0x0A] @ extraction_cache_version)"

definition cache_table :: string where
  "cache_table = ''extraction_cache''"

text \<open>Hit accounting: best effort, a failure changes nothing.\<close>

definition record_hit :: "'s rest \<Rightarrow> 's \<Rightarrow> pyval \<Rightarrow> 's" where
  "record_hit ops s row_id =
     (if \<not> truthy row_id then s
      else case rest_rpc ops s ''increment_extraction_cache_hit'' [(''p_id'', row_id)] of
             Some s' \<Rightarrow> s' | None \<Rightarrow> s)"

text \<open>\<open>storage\<close> may be missing: \<open>None\<close>.\<close>

definition cache_lookup ::
    "(string \<Rightarrow> string) \<Rightarrow> 's rest option \<Rightarrow> 's \<Rightarrow> string \<Rightarrow> string \<Rightarrow> pydict option \<times> 's" where
  "cache_lookup sha storage s tenant_id text =
     (case storage of
        None \<Rightarrow> (None, s)
      | Some ops \<Rightarrow>
          if tenant_id = [] then (None, s)
          else
            (case rest_select ops s cache_table
                    [(''tenant_id'', VStr tenant_id), (''content_hash'', VStr (cache_hash sha text))] of
               None \<Rightarrow> (None, s)
             | Some rows \<Rightarrow>
                 (case take 1 rows of
                    [] \<Rightarrow> (None, s)
                  | row # _ \<Rightarrow>
                      (case dget row ''extraction'' of
                         VDict payload \<Rightarrow> (Some payload, record_hit ops s (dget row ''id''))
                       | _ \<Rightarrow> (None, s)))))"

definition item_count :: "pyval \<Rightarrow> int" where
  "item_count items =
     (case or_val items (VList []) of VList xs \<Rightarrow> int (length xs) | _ \<Rightarrow> 0)"

definition provider_field :: "string option \<Rightarrow> pydict \<Rightarrow> pyval" where
  "provider_field provider_used payload =
     (case provider_used of
        Some p \<Rightarrow> or_val (VStr p) (dget payload ''provider_used'')
      | None \<Rightarrow> dget payload ''provider_used'')"

definition cache_row ::
    "(string \<Rightarrow> string) \<Rightarrow> string \<Rightarrow> string \<Rightarrow> pydict \<Rightarrow> string option \<Rightarrow> pydict" where
  "cache_row sha tenant_id text payload provider_used =
     [(''tenant_id'', VStr tenant_id),
      (''content_hash'', VStr (cache_hash sha text)),
      (''extraction'', VDict payload),
      (''provider_used'', provider_field provider_used payload),
      (''item_count'', VInt (item_count (dget payload ''extractions'')))]"

definition cache_store ::
    "(string \<Rightarrow> string) \<Rightarrow> 's rest option \<Rightarrow> 's \<Rightarrow> string \<Rightarrow> string \<Rightarrow> pyval \<Rightarrow> string option \<Rightarrow> 's" where
  "cache_store sha storage s tenant_id text payload provider_used =
     (case (storage, payload) of
        (Some ops, VDict p) \<Rightarrow>
          if tenant_id = [] \<or> dget p ''extraction_source'' \<noteq> VStr ''ai'' then s
          else
            (case rest_upsert ops s cache_table [''tenant_id'', ''content_hash'']
                    (cache_row sha tenant_id text p provider_used) of
               Some s' \<Rightarrow> s'
             | None \<Rightarrow> s)
      | _ \<Rightarrow> s)"

section \<open>The shared cache\<close>

definition shared_identity_keys :: "string list" where
  "shared_identity_keys =
    [''broker'', ''broker_id'', ''broker_name'', ''broker_phone'', ''sender'', ''sender_id'',
     ''sender_name'', ''sender_phone'', ''push_name'', ''contact'', ''contacts'',
     ''contact_details'', ''contact_numbers'', ''phone'', ''phone_number'', ''phone_numbers'',
     ''primary_contact'', ''whatsapp'', ''whatsapp_number'', ''raw_message'', ''raw_payload'',
     ''source_text'', ''message'', ''message_text'',
     ''source_slice'', ''raw_text'', ''raw_body'']"

definition identity_key :: "string \<Rightarrow> bool" where
  "identity_key k = List.member shared_identity_keys (casefold k)"

fun strip_identity :: "pyval \<Rightarrow> pyval" where
  "strip_identity (VDict d) =
     VDict (map (\<lambda>(k, c). (k, strip_identity c)) (filter (\<lambda>(k, _). \<not> identity_key k) d))"
| "strip_identity (VList xs) = VList (map strip_identity xs)"
| "strip_identity v = v"

definition shared_reusable_payload :: "pydict \<Rightarrow> pydict" where
  "shared_reusable_payload payload = dict_of (strip_identity (VDict payload))"

definition shared_table :: string where
  "shared_table = ''shared_extraction_results''"

text \<open>An observation needs a message and a tenant; its failures are swallowed.\<close>

definition record_shared_observation ::
    "'s rest \<Rightarrow> 's \<Rightarrow> int \<Rightarrow> int option \<Rightarrow> string option \<Rightarrow> string \<Rightarrow> 's" where
  "record_shared_observation ops s shared_result_id raw_message_id tenant_id outcome =
     (case (raw_message_id, tenant_id) of
        (Some m, Some t) \<Rightarrow>
          if m = 0 \<or> t = [] then s
          else
            (case rest_upsert ops s ''shared_extraction_observations'' [''raw_message_id'']
                    [(''raw_message_id'', VInt m), (''tenant_id'', VStr t),
                     (''shared_result_id'', VInt shared_result_id), (''outcome'', VStr outcome)] of
               Some s' \<Rightarrow> s'
             | None \<Rightarrow> s)
      | _ \<Rightarrow> s)"

text \<open>\<open>int(row[''id''])\<close>: a row without the column raises \<open>KeyError\<close>.\<close>

definition row_id :: "pydict \<Rightarrow> int result" where
  "row_id row = (if dhas row ''id'' then int_of (dget row ''id'') else Inl KeyError)"

definition shared_cache_lookup ::
    "(string \<Rightarrow> string) \<Rightarrow> 's rest option \<Rightarrow> 's \<Rightarrow> string \<Rightarrow> int option \<Rightarrow> string option \<Rightarrow>
     (pydict option \<times> 's) result" where
  "shared_cache_lookup sha storage s text raw_message_id tenant_id =
     (case storage of
        None \<Rightarrow> Inr (None, s)
      | Some ops \<Rightarrow>
          if text = [] then Inr (None, s)
          else
            (case rest_select ops s shared_table [(''content_hash'', VStr (cache_hash sha text))] of
               None \<Rightarrow> Inr (None, s)
             | Some rows \<Rightarrow>
                 (case take 1 rows of
                    [] \<Rightarrow> Inr (None, s)
                  | row # _ \<Rightarrow>
                      (case dget row ''extraction'' of
                         VDict payload \<Rightarrow>
                           let s1 = (case row_id row of
                                       Inr i \<Rightarrow>
                                         (case rest_rpc ops s ''increment_shared_extraction_hit''
                                                 [(''p_id'', VInt i)] of
                                            Some s' \<Rightarrow> s' | None \<Rightarrow> s)
                                     | Inl _ \<Rightarrow> s)
                           in bindE (row_id row) (\<lambda>i.
                                Inr (Some (shared_reusable_payload payload),
                                  record_shared_observation ops s1 i raw_message_id tenant_id ''reused''))
                       | _ \<Rightarrow> Inr (None, s)))))"

definition shared_row :: "(string \<Rightarrow> string) \<Rightarrow> string \<Rightarrow> pydict \<Rightarrow> string option \<Rightarrow> pydict" where
  "shared_row sha text payload provider_used =
     (let reusable = shared_reusable_payload payload in
      [(''content_hash'', VStr (cache_hash sha text)),
       (''extraction'', VDict reusable),
       (''provider_used'', provider_field provider_used payload),
       (''item_count'', VInt (item_count (dget reusable ''extractions'')))])"

text \<open>The origin is recorded when the row can be read back; every exception ends the call quietly.\<close>

definition shared_cache_store ::
    "(string \<Rightarrow> string) \<Rightarrow> 's rest option \<Rightarrow> 's \<Rightarrow> string \<Rightarrow> pyval \<Rightarrow> string option \<Rightarrow> int option \<Rightarrow>
     string option \<Rightarrow> 's" where
  "shared_cache_store sha storage s text payload provider_used raw_message_id tenant_id =
     (case (storage, payload) of
        (Some ops, VDict p) \<Rightarrow>
          if text = [] \<or> dget p ''extraction_source'' \<noteq> VStr ''ai'' then s
          else
            (case rest_upsert ops s shared_table [''content_hash''] (shared_row sha text p provider_used) of
               None \<Rightarrow> s
             | Some s1 \<Rightarrow>
                 (case rest_select ops s1 shared_table [(''content_hash'', VStr (cache_hash sha text))] of
                    None \<Rightarrow> s1
                  | Some rows \<Rightarrow>
                      (case take 1 rows of
                         [] \<Rightarrow> s1
                       | row # _ \<Rightarrow>
                           (case row_id row of
                              Inl _ \<Rightarrow> s1
                            | Inr i \<Rightarrow>
                                record_shared_observation ops s1 i raw_message_id tenant_id ''origin''))))
      | _ \<Rightarrow> s)"

section \<open>Facts about the patterns\<close>

lemma blind_ws: "blind_pattern ws_re"
  by (rule blind_pattern_code) code_simp

lemma blind_zero_width: "blind_pattern zero_width_re"
  by (rule blind_pattern_code) code_simp

lemma blind_banner: "blind_pattern forward_banner_re"
  by (rule ignorecase_pattern) code_simp

lemma chatter_facts: "digit_free (rx chatter_re)" "ends_eol (rx chatter_re)" "\<not> rx_multiline chatter_re"
  by code_simp+

lemma placeholder_facts:
  "digit_free (rx placeholder_re)" "ends_eol (rx placeholder_re)" "\<not> rx_multiline placeholder_re"
  by code_simp+

section \<open>Properties\<close>

lemma normalize_lower: "normalize_for_hash (lower t) = normalize_for_hash t"
proof -
  have "lower '' '' = '' ''" by (simp add: lower_def to_lower_def is_upper_code)
  then have "re_sub ws_re '' '' (lower s) = lower (re_sub ws_re '' '' s)"
      "re_sub forward_banner_re [] (lower s) = lower (re_sub forward_banner_re [] s)"
      "re_sub zero_width_re [] (lower s) = lower (re_sub zero_width_re [] s)" for s
    using re_sub_lower [OF blind_ws, of "'' ''" s] re_sub_lower [OF blind_banner, of "[]" s]
      re_sub_lower [OF blind_zero_width, of "[]" s] by simp_all
  then show ?thesis by (simp add: normalize_for_hash_def nfkc_def casefold_def strip_lower)
qed

text \<open>
  Case is cosmetic for the fingerprint: two messages that differ only in the case of their
  letters have the same canonical form, so whatever the hash function they share one cache entry
  (\<open>2 BHK\<close> and \<open>2 bhk\<close>), forwarding banners and zero-width characters included.
\<close>

theorem hash_ignores_case:
  assumes "lower t = lower u"
  shows "normalize_for_hash t = normalize_for_hash u \<and> cache_hash sha t = cache_hash sha u"
proof -
  have "normalize_for_hash t = normalize_for_hash u"
    using normalize_lower [of t] normalize_lower [of u] assms by simp
  then show ?thesis by (simp add: cache_hash_def)
qed

theorem hash_ignores_case_witness:
  "normalize_for_hash ''FWD: 2 BHK Rent'' = normalize_for_hash ''fwd: 2 bhk rent''"
proof -
  have "lower ''FWD: 2 BHK Rent'' = lower ''fwd: 2 bhk rent''" by code_simp
  from hash_ignores_case [OF this] show ?thesis by simp
qed

lemma skip_needs_no_digit:
  assumes "list_ex is_digit s"
  shows "re_match placeholder_re s = None" "re_match chatter_re s = None"
proof -
  show "re_match placeholder_re s = None"
    using digit_free_match [OF _ placeholder_facts] assms by (cases "re_match placeholder_re s") auto
  show "re_match chatter_re s = None"
    using digit_free_match [OF _ chatter_facts] assms by (cases "re_match chatter_re s") auto
qed

text \<open>
  The filter never drops a listing with a number as chatter or as a placeholder: for a message
  that holds a digit the extraction is skipped exactly when the stripped text is shorter than
  30 characters or has no property signal.
\<close>

theorem skip_with_digit:
  assumes "list_ex is_digit (strip t)"
  shows "should_skip (Some t) =
    (if length (strip t) < 30 then Some SKIP_TOO_SHORT
     else if re_found property_signal_re (strip t) then None else Some SKIP_NO_SIGNAL)"
  using assms skip_needs_no_digit [OF assms]
  by (auto simp: should_skip_def Let_def min_extractable_chars_def)

theorem skip_with_digit_witness:
  "should_skip (Some ''ok thanks 2 bhk'') = Some SKIP_TOO_SHORT"
proof -
  have d: "list_ex is_digit (strip ''ok thanks 2 bhk'')" and l: "length (strip ''ok thanks 2 bhk'') < 30"
    by code_simp+
  from skip_with_digit [OF d] l show ?thesis by simp
qed

section \<open>The caches against the table service\<close>

context row_store
begin

lemma written_row:
  assumes "rest_upsert ops s t ks row = Some s'" and "distinct (map fst row)"
    and "set ks \<subseteq> fst ` set row" and "fs = key_filter ks row"
  obtains r rs where "rest_select ops s' t fs = Some (r # rs)" "\<And>k v. (k, v) \<in> set row \<Longrightarrow> dget r k = v"
  using upsert_written [OF assms(1-3)] assms(4) by fastforce

lemma cache_hit:
  assumes up: "rest_upsert ops s cache_table [''tenant_id'', ''content_hash'']
      (cache_row sha tenant text p prov) = Some s1"
    and ai: "dget p ''extraction_source'' = VStr ''ai''" and ten: "tenant \<noteq> []"
    and same: "normalize_for_hash text' = normalize_for_hash text"
  shows "fst (cache_lookup sha (Some ops)
      (cache_store sha (Some ops) s tenant text (VDict p) prov) tenant text') = Some p"
proof -
  have h: "cache_hash sha text' = cache_hash sha text" using same by (simp add: cache_hash_def)
  obtain r rs where r: "rest_select ops s1 cache_table
      [(''tenant_id'', VStr tenant), (''content_hash'', VStr (cache_hash sha text))] = Some (r # rs)"
    "\<And>k v. (k, v) \<in> set (cache_row sha tenant text p prov) \<Longrightarrow> dget r k = v"
    by (rule written_row [OF up]) (auto simp: cache_row_def key_filter_def dget_def)
  have "dget r ''extraction'' = VDict p" by (rule r(2)) (simp add: cache_row_def)
  then show ?thesis
    using r(1) up ai ten h by (simp add: cache_store_def cache_lookup_def)
qed

lemma cache_other_tenant:
  assumes "tenant' \<noteq> tenant"
  shows "fst (cache_lookup sha (Some ops) (cache_store sha (Some ops) s tenant text v prov) tenant' text') =
    fst (cache_lookup sha (Some ops) s tenant' text')"
proof -
  have sel: "rest_select ops s1 cache_table ((''tenant_id'', VStr tenant') # fs) =
      rest_select ops s cache_table ((''tenant_id'', VStr tenant') # fs)"
    if "rest_upsert ops s cache_table [''tenant_id'', ''content_hash''] (cache_row sha tenant text p prov) = Some s1"
    for s1 p fs
    by (rule upsert_other_row [OF that, where k = "''tenant_id''" and v = "VStr tenant'"])
       (use assms in \<open>auto simp: cache_row_def dget_def\<close>)
  show ?thesis
    by (auto simp: cache_store_def cache_lookup_def sel split: pyval.splits option.splits list.splits)
qed

end

text \<open>
  C9: The tenant cache returns what was stored and only to its tenant.  With a table service that
  keeps its documented behaviour, after a model extraction was stored a lookup by the same tenant
  of any text with the same canonical form returns exactly that payload, and a lookup by any
  other tenant answers what it answered before.
\<close>

theorem cache_roundtrip:
  assumes "row_store ops"
    and "rest_upsert ops s cache_table [''tenant_id'', ''content_hash'']
      (cache_row sha tenant text p prov) \<noteq> None"
    and "dget p ''extraction_source'' = VStr ''ai''" and "tenant \<noteq> []"
    and "normalize_for_hash text' = normalize_for_hash text"
  shows "fst (cache_lookup sha (Some ops)
      (cache_store sha (Some ops) s tenant text (VDict p) prov) tenant text') = Some p \<and>
    (\<forall>other t2. other \<noteq> tenant \<longrightarrow>
      fst (cache_lookup sha (Some ops)
        (cache_store sha (Some ops) s tenant text (VDict p) prov) other t2) =
      fst (cache_lookup sha (Some ops) s other t2))"
proof -
  obtain s1 where "rest_upsert ops s cache_table [''tenant_id'', ''content_hash'']
      (cache_row sha tenant text p prov) = Some s1" using assms(2) by blast
  from row_store.cache_hit [OF assms(1) this assms(3-5)] row_store.cache_other_tenant [OF assms(1)]
  show ?thesis by simp
qed

definition empty_tables :: tables where
  "empty_tables = \<lparr>tb_rows = [], tb_next = 1\<rparr>"

theorem cache_roundtrip_witness:
  "fst (cache_lookup id (Some table_ops)
      (cache_store id (Some table_ops) empty_tables ''t1'' ''2 BHK''
        (VDict [(''extraction_source'', VStr ''ai'')]) None) ''t1'' ''2 bhk'') =
    Some [(''extraction_source'', VStr ''ai'')]"
proof -
  have n: "normalize_for_hash ''2 bhk'' = normalize_for_hash ''2 BHK''" by code_simp
  have u: "rest_upsert table_ops empty_tables cache_table [''tenant_id'', ''content_hash'']
      (cache_row id ''t1'' ''2 BHK'' [(''extraction_source'', VStr ''ai'')] None) \<noteq> None"
    by (simp add: table_ops_def tb_upsert_def)
  show ?thesis
    using cache_roundtrip [OF tables.row_store_axioms u _ _ n] by (simp add: dget_def)
qed

section \<open>What the shared cache gives away\<close>

fun all_keys :: "pyval \<Rightarrow> string list" where
  "all_keys (VDict d) = map fst d @ concat (map (\<lambda>(k, c). all_keys c) d)"
| "all_keys (VList xs) = concat (map all_keys xs)"
| "all_keys v = []"

lemma strip_identity_keys: "k \<in> set (all_keys (strip_identity v)) \<Longrightarrow> \<not> identity_key k"
proof (induction v rule: strip_identity.induct)
  case (1 d)
  then show ?case by (auto simp: split_beta) blast
qed auto

lemma strip_identity_idem: "strip_identity (strip_identity v) = strip_identity v"
proof (induction v rule: strip_identity.induct)
  case (1 d)
  then show ?case by (auto simp: filter_map o_def split_beta intro!: map_cong filter_cong)
qed auto

lemma shared_lookup_payload:
  assumes "shared_cache_lookup sha storage s text m t = Inr (Some q, s')"
  obtains p where "q = shared_reusable_payload p"
proof (cases storage)
  case (Some ops)
  let ?rows = "rest_select ops s shared_table [(''content_hash'', VStr (cache_hash sha text))]"
  show thesis
  proof (cases ?rows)
    case rows: (Some rows)
    show thesis
    proof (cases "take 1 rows")
      case (Cons row rest)
      with assms Some rows that show thesis
        by (cases "dget row ''extraction''")
          (auto simp: shared_cache_lookup_def Let_def bindE_Inr_iff simp del: take_eq_Nil split: if_splits)
    qed (use assms Some rows in \<open>auto simp: shared_cache_lookup_def split: if_splits\<close>)
  qed (use assms Some in \<open>auto simp: shared_cache_lookup_def split: if_splits\<close>)
qed (use assms in \<open>simp add: shared_cache_lookup_def\<close>)

text \<open>
  C12: The shared cache never hands out the identity of a sender: whatever rows the service returns,
  a payload that \<open>shared_cache_lookup\<close> answers has no identity key at any depth, and neither has
  the row that \<open>shared_cache_store\<close> writes.
\<close>

theorem shared_cache_no_identity:
  assumes "shared_cache_lookup sha storage s text m t = Inr (Some q, s')"
  shows "(\<forall>k \<in> set (all_keys (VDict q)). \<not> identity_key k) \<and>
    (\<forall>k \<in> set (all_keys (dget (shared_row sha text2 p prov) ''extraction'')). \<not> identity_key k)"
proof -
  have v: "VDict (shared_reusable_payload p) = strip_identity (VDict p)" for p
    by (simp add: shared_reusable_payload_def dict_of_def)
  have no: "\<forall>k \<in> set (all_keys (VDict (shared_reusable_payload p))). \<not> identity_key k" for p
    unfolding v using strip_identity_keys by blast
  obtain p' where q: "q = shared_reusable_payload p'" by (rule shared_lookup_payload [OF assms])
  have row: "dget (shared_row sha text2 p prov) ''extraction'' = VDict (shared_reusable_payload p)"
    by (simp add: shared_row_def Let_def dget_def)
  show ?thesis unfolding q row using no [of p] no [of p'] by blast
qed

definition leaky_tables :: tables where
  "leaky_tables =
    \<lparr>tb_rows =
       [(''shared_extraction_results'',
         [(''id'', VInt 7), (''content_hash'', VStr (cache_hash id ''2 BHK'')),
          (''extraction'', VDict
            [(''bhk'', VInt 2),
             (''items'', VList [VDict [(''Broker_Name'', VStr ''A''), (''area'', VInt 900)]])])])],
     tb_next = 8\<rparr>"

theorem shared_cache_no_identity_witness:
  "list_all (\<lambda>k. \<not> identity_key k)
     (all_keys (VDict [(''bhk'', VInt 2), (''items'', VList [VDict [(''area'', VInt 900)]])]))"
proof -
  have "shared_cache_lookup id (Some table_ops) leaky_tables ''2 BHK'' None None =
      Inr (Some [(''bhk'', VInt 2), (''items'', VList [VDict [(''area'', VInt 900)]])], leaky_tables)"
    by code_simp
  from shared_cache_no_identity [OF this] show ?thesis by (simp only: list_all_iff) blast
qed

end
