(* ===== verification/MarketScope.thy ===== *)
theory MarketScope
  imports PyVal
begin

text \<open>
  \<open>extraction_scope.py\<close>: extraction is limited to the localities selected in the workspace's
  market preferences; a message is in scope when its text names one of them as whole words.
\<close>

section \<open>The selection\<close>

definition locality_aliases :: "string \<Rightarrow> string list" where
  "locality_aliases l =
     (if l = ''bkc'' then [''bkc'', ''bandra kurla'', ''bandra kurla complex''] else [l])"

definition fold_text :: "pyval \<Rightarrow> string" where
  "fold_text v =
     join '' '' (split_ws (re_sub (rx_plain ''[^%w]+'') '' '' (casefold (nfkc (str_or v)))))"

definition scope_values :: "string list \<Rightarrow> pyval \<Rightarrow> string list result" where
  "scope_values vs candidates0 =
     (let candidates = or_val candidates0 (VList []);
          cs = (if is_str candidates then VList [candidates] else candidates)
      in bindE (iter_of cs) (\<lambda>xs.
           Inr (foldl (\<lambda>acc v. let folded = fold_text v in
                  if folded \<noteq> [] \<and> folded \<notin> set acc then acc @ [folded] else acc) vs xs)))"

definition configured_market_localities :: "pyval \<Rightarrow> string list result" where
  "configured_market_localities preferences =
     (case preferences of
        VDict d \<Rightarrow>
          foldE (\<lambda>vs key. scope_values vs (dget d key)) [] [''primary_localities'', ''nearby_localities'']
      | _ \<Rightarrow> Inr [])"

section \<open>Matching\<close>

text \<open>The pattern of a phrase with its text escaped: \<open>(?<!\w)phrase(?!\w)\<close>.\<close>

definition phrase_re :: "string \<Rightarrow> pattern" where
  "phrase_re c =
     \<lparr>rx = RSeq (RBehind False (RCls False [CWord True]))
             (RSeq (mk_seq (map RChar c)) (RLook False (RCls False [CWord True]))),
      rx_names = [], rx_ignorecase = False, rx_multiline = False\<rparr>"

definition message_matches_market_scope :: "string \<Rightarrow> string list \<Rightarrow> bool" where
  "message_matches_market_scope message localities =
     (let haystack = fold_text (VStr message) in
      if haystack = [] \<or> localities = [] then False
      else list_ex (\<lambda>l. list_ex (\<lambda>c. re_found (phrase_re c) haystack) (locality_aliases l)) localities)"

datatype scope_reason = Market_scope_unconfigured | Outside_market_scope

definition market_scope_skip_reason :: "string \<Rightarrow> pyval \<Rightarrow> scope_reason option result" where
  "market_scope_skip_reason message preferences =
     bindE (configured_market_localities preferences) (\<lambda>localities.
       Inr (if localities = [] then Some Market_scope_unconfigured
            else if \<not> message_matches_market_scope message localities then Some Outside_market_scope
            else None))"

section \<open>Whole words\<close>

text \<open>The specification: the phrase occurs between two places that are no word characters.\<close>

definition phrase_in :: "string \<Rightarrow> string \<Rightarrow> bool" where
  "phrase_in c s \<longleftrightarrow>
     (\<exists>u v. s = u @ c @ v \<and> (u = [] \<or> \<not> is_word (last u)) \<and> (v = [] \<or> \<not> is_word (hd v)))"

lemma ms_word [simp]: "cls_matches False False [CWord True] c = is_word c"
  by (simp add: cls_matches_def)

lemma ms_literal:
  "ms False ml (mk_seq (map RChar c)) (b, a, g) =
     (if prefix c a then [(rev c @ b, drop (length c) a, g)] else [])"
proof (induction c arbitrary: b a)
  case (Cons x c)
  show ?case
  proof (cases c)
    case Nil
    then show ?thesis by (cases a) (auto simp: chr_matches_def)
  next
    case (Cons y ys)
    with Cons.IH show ?thesis by (cases a) (auto simp: chr_matches_def)
  qed
qed simp

lemma phrase_ways:
  "ways (phrase_re c) b a =
     (if (b = [] \<or> \<not> is_word (hd b)) \<and> prefix c a \<and>
         (drop (length c) a = [] \<or> \<not> is_word (hd (drop (length c) a)))
      then [(rev c @ b, drop (length c) a, [])] else [])"
proof -
  have l: "ms False False (RLook False (RCls False [CWord True])) (b', a', g) =
      (if a' = [] \<or> \<not> is_word (hd a') then [(b', a', g)] else [])" for b' a' g
    by (cases a') simp_all
  have bh: "ms False False (RBehind False (RCls False [CWord True])) (b, a, []) =
      (if b = [] \<or> \<not> is_word (hd b) then [(b, a, [])] else [])"
    by (cases b) simp_all
  show ?thesis
    unfolding ways_def phrase_re_def by (auto simp: bh ms_literal l simp del: ms.simps(12,13))
qed

lemma phrase_found: "re_found (phrase_re c) s = phrase_in c s"
proof -
  have "re_found (phrase_re c) s \<longleftrightarrow> (\<exists>t u. s = t @ u \<and> ways (phrase_re c) (rev t) u \<noteq> [])"
    using search_from_None [of "phrase_re c" "[]" s]
    by (auto simp: re_found_def re_search_def)
  also have "\<dots> \<longleftrightarrow> (\<exists>t u. s = t @ u \<and> (t = [] \<or> \<not> is_word (last t)) \<and> prefix c u \<and>
       (drop (length c) u = [] \<or> \<not> is_word (hd (drop (length c) u))))"
    by (auto simp: phrase_ways hd_rev)
  also have "\<dots> \<longleftrightarrow> phrase_in c s"
  proof -
    have "prefix c u \<and> Q (drop (length c) u) \<longleftrightarrow> (\<exists>v. u = c @ v \<and> Q v)" for u and Q :: "string \<Rightarrow> bool"
      by (auto simp: prefix_def)
    from this [of _ "\<lambda>v. v = [] \<or> \<not> is_word (hd v)"] show ?thesis
      unfolding phrase_in_def by blast
  qed
  finally show ?thesis .
qed

lemma scope_values_inv:
  assumes "scope_values vs w = Inr vs'" and "distinct vs" and "[] \<notin> set vs"
  shows "distinct vs' \<and> [] \<notin> set vs'"
proof -
  have "distinct acc \<and> [] \<notin> set acc \<Longrightarrow>
      distinct (foldl (\<lambda>acc v. let folded = fold_text v in
        if folded \<noteq> [] \<and> folded \<notin> set acc then acc @ [folded] else acc) acc xs) \<and>
      [] \<notin> set (foldl (\<lambda>acc v. let folded = fold_text v in
        if folded \<noteq> [] \<and> folded \<notin> set acc then acc @ [folded] else acc) acc xs)" for acc xs
  proof (induction xs arbitrary: acc)
    case (Cons x xs)
    have "distinct (let folded = fold_text x in if folded \<noteq> [] \<and> folded \<notin> set acc then acc @ [folded] else acc) \<and>
        [] \<notin> set (let folded = fold_text x in if folded \<noteq> [] \<and> folded \<notin> set acc then acc @ [folded] else acc)"
      using Cons.prems by (auto simp: Let_def)
    from Cons.IH [OF this] show ?case by simp
  qed simp
  with assms show ?thesis by (auto simp: scope_values_def Let_def bindE_Inr_iff)
qed

lemma configured_inv:
  assumes "configured_market_localities prefs = Inr ls"
  shows "distinct ls \<and> [] \<notin> set ls"
proof (cases prefs)
  case (VDict d)
  with assms have "foldE (\<lambda>vs key. scope_values vs (dget d key)) []
      [''primary_localities'', ''nearby_localities''] = Inr ls"
    by (simp add: configured_market_localities_def)
  then show ?thesis
    by (rule foldE_inv [where P = "\<lambda>vs. distinct vs \<and> [] \<notin> set vs"])
       (auto dest: scope_values_inv)
qed (use assms in \<open>simp_all add: configured_market_localities_def\<close>)

text \<open>
  C38: Extraction is allowed exactly for messages that name a selected locality.  The skip reason is
  \<open>None\<close> if and only if the preferences give a selection and the folded message holds one of the
  aliases of one of its localities as whole words; without a selection the scope fails closed.
\<close>

theorem market_scope_iff:
  "market_scope_skip_reason message prefs = Inr None \<longleftrightarrow>
   (\<exists>ls l c. configured_market_localities prefs = Inr ls \<and> l \<in> set ls \<and> c \<in> set (locality_aliases l) \<and>
      phrase_in c (fold_text (VStr message)))"
proof -
  have ne: "fold_text (VStr message) \<noteq> []"
    if "configured_market_localities prefs = Inr ls" "l \<in> set ls" "c \<in> set (locality_aliases l)"
      "phrase_in c (fold_text (VStr message))" for ls l c
  proof
    assume "fold_text (VStr message) = []"
    with that(4) have "c = []" by (simp add: phrase_in_def)
    with that(3) have "l = []" by (auto simp: locality_aliases_def split: if_splits)
    with that(2) configured_inv [OF that(1)] show False by simp
  qed
  show ?thesis
  proof (cases "configured_market_localities prefs")
    case (Inr ls)
    have "message_matches_market_scope message ls \<longleftrightarrow>
        (\<exists>l c. l \<in> set ls \<and> c \<in> set (locality_aliases l) \<and> phrase_in c (fold_text (VStr message)))"
      using ne [OF Inr] by (auto simp: message_matches_market_scope_def Let_def list_ex_iff phrase_found)
    moreover have "\<not> message_matches_market_scope message []"
      by (simp add: message_matches_market_scope_def Let_def)
    ultimately show ?thesis using Inr by (auto simp: market_scope_skip_reason_def)
  qed (simp add: market_scope_skip_reason_def)
qed

end
