(* ===== verification/MessageIdentity.thy ===== *)
theory MessageIdentity
  imports ExtractionDedup
begin

text \<open>
  \<open>message_identity.py\<close>: which WhatsApp events are transport events, who a message's author is,
  and the fingerprint of an author's content.  SHA-256 is the parameter \<open>sha\<close>.
\<close>

section \<open>Transport events\<close>

definition protocol_message_types :: "string list" where
  "protocol_message_types =
    [''protocol'', ''protocolmessage'', ''senderkeydistributionmessage'', ''sender_key_distribution_message'']"

definition protocol_payload_keys :: "string list" where
  "protocol_payload_keys = [''senderKeyDistributionMessage'', ''protocolMessage'']"

fun payload_has_key :: "string list \<Rightarrow> pyval \<Rightarrow> bool" where
  "payload_has_key ks (VDict d) =
     (list_ex (\<lambda>k. dhas d k) ks \<or> list_ex (\<lambda>(_, c). payload_has_key ks c) d)"
| "payload_has_key ks (VList xs) = list_ex (payload_has_key ks) xs"
| "payload_has_key ks _ = False"

definition is_protocol_event :: "string \<Rightarrow> string \<Rightarrow> pyval \<Rightarrow> bool" where
  "is_protocol_event message message_type raw_payload =
     (if replace '' '' [] (casefold (strip message_type)) \<in> set protocol_message_types then True
      else if strip message \<noteq> [] then False
      else payload_has_key protocol_payload_keys raw_payload)"

section \<open>Author and content\<close>

definition author_identity :: "string \<Rightarrow> string \<Rightarrow> string" where
  "author_identity sender_phone sender_jid =
     (let phone = re_sub (rx_plain ''%D+'') [] sender_phone in
      if phone \<noteq> [] then ''phone:'' @ phone
      else let jid = casefold (strip sender_jid) in
        if jid \<noteq> [] then ''jid:'' @ jid else [])"

definition normalize_message_content :: "string \<Rightarrow> string" where
  "normalize_message_content message =
     (let text = replace [CHR 0x0D, CHR 0x0A] [CHR 0x0A] (nfkc message);
          text2 = join [CHR 0x0A] (map (\<lambda>line. strip (re_sub (rx_plain ''[ %t]+'') '' '' line)) (split_on CHR 0x0A text))
      in casefold (strip (re_sub (rx_plain ''%n{3,}'') [CHR 0x0A, CHR 0x0A] text2)))"

definition author_content_fingerprint ::
    "(string \<Rightarrow> string) \<Rightarrow> string \<Rightarrow> string \<Rightarrow> string \<Rightarrow> string" where
  "author_content_fingerprint sha sender_phone sender_jid message =
     (let identity = author_identity sender_phone sender_jid;
          content = casefold (normalize_for_hash message)
      in if identity = [] \<or> content = [] then []
         else sha (identity @ [CHR 0x00] @ content))"

section \<open>The fingerprint separates authors and contents\<close>

lemma to_lower_nul: "to_lower c = CHR 0x00 \<longleftrightarrow> c = CHR 0x00"
  by (cases c) (auto simp: to_lower_def is_upper_code)

lemma lower_nul: "CHR 0x00 \<in> set (lower s) \<longleftrightarrow> CHR 0x00 \<in> set s"
  by (auto simp: lower_def image_iff to_lower_nul eq_commute [of "CHR 0x00"])

lemma set_strip: "set (strip s) \<subseteq> set s"
  by (rule set_mono_sublist) (rule strip_sublist)

text \<open>What a substitution leaves comes from the replacement and from the text.\<close>

lemma set_re_sub: "set (re_sub p r s) \<subseteq> set r \<union> set s"
proof -
  obtain xs t where x: "scan p False [] s = (xs, t)" by fastforce
  have "concat (map (\<lambda>(gap, m). gap @ m_text m) xs) @ t = s" using scan_partition [OF x] .
  then have "set t \<subseteq> set s" "\<And>gap m. (gap, m) \<in> set xs \<Longrightarrow> set gap \<subseteq> set s" by fastforce+
  then show ?thesis by (fastforce simp: re_sub_def re_sub_fun_def x)
qed

lemma author_no_nul:
  assumes "CHR 0x00 \<notin> set phone" and "CHR 0x00 \<notin> set jid"
  shows "CHR 0x00 \<notin> set (author_identity phone jid)"
proof -
  have "CHR 0x00 \<notin> set (re_sub (rx_plain ''%D+'') [] phone)"
    using set_re_sub [of "rx_plain ''%D+''" "[]" phone] assms(1) by auto
  moreover have "CHR 0x00 \<notin> set (casefold (strip jid))"
    using set_strip [of jid] assms(2) by (auto simp: casefold_def lower_nul)
  ultimately show ?thesis by (simp add: author_identity_def Let_def)
qed

lemma split_at_first:
  "c \<notin> set u \<Longrightarrow> c \<notin> set u' \<Longrightarrow> u @ c # v = u' @ c # v' \<Longrightarrow> u = u' \<and> v = v'"
  by (induction u arbitrary: u') (force simp: Cons_eq_append_conv append_eq_Cons_conv)+

text \<open>
  The fingerprint separates observations: with an injective digest and no NUL in the sender
  fields, two observations with the same non-empty fingerprint have the same author and the same
  canonical content, so a changed price or date gives a new fingerprint; and observations with the
  same author and canonical content always share it.
\<close>

theorem fingerprint_iff:
  assumes "inj sha"
    and "\<forall>s \<in> {phone, jid, phone', jid'}. CHR 0x00 \<notin> set s"
    and "author_content_fingerprint sha phone jid m \<noteq> []"
    and "author_content_fingerprint sha phone' jid' m' \<noteq> []"
  shows "author_content_fingerprint sha phone jid m = author_content_fingerprint sha phone' jid' m' \<longleftrightarrow>
    author_identity phone jid = author_identity phone' jid' \<and> normalize_for_hash m = normalize_for_hash m'"
proof -
  let ?i = "author_identity phone jid" and ?i' = "author_identity phone' jid'"
  have c: "casefold (normalize_for_hash x) = normalize_for_hash x" for x
    by (simp add: normalize_for_hash_def casefold_def)
  have f: "author_content_fingerprint sha phone jid m = sha (?i @ CHR 0x00 # normalize_for_hash m)"
    "author_content_fingerprint sha phone' jid' m' = sha (?i' @ CHR 0x00 # normalize_for_hash m')"
    using assms(3,4) by (auto simp: author_content_fingerprint_def Let_def c split: if_splits)
  have "CHR 0x00 \<notin> set ?i" "CHR 0x00 \<notin> set ?i'" using author_no_nul assms(2) by auto
  then have "?i @ CHR 0x00 # normalize_for_hash m = ?i' @ CHR 0x00 # normalize_for_hash m' \<longleftrightarrow>
      ?i = ?i' \<and> normalize_for_hash m = normalize_for_hash m'"
    by (intro iffI; (elim conjE, simp only:)?) (erule split_at_first [rotated 2])
  then show ?thesis using f inj_eq [OF assms(1)] by simp
qed

theorem fingerprint_iff_witness:
  "author_content_fingerprint id ''+91 98'' '''' ''2 BHK'' = author_content_fingerprint id ''9198'' ''x'' ''2 bhk''"
proof -
  have f: "author_content_fingerprint id ''+91 98'' '''' ''2 BHK'' \<noteq> []"
    "author_content_fingerprint id ''9198'' ''x'' ''2 bhk'' \<noteq> []" by code_simp+
  have n: "\<forall>s \<in> {''+91 98'', '''', ''9198'', ''x''}. CHR 0x00 \<notin> set s" by simp
  have "author_identity ''+91 98'' '''' = author_identity ''9198'' ''x'' \<and>
      normalize_for_hash ''2 BHK'' = normalize_for_hash ''2 bhk''" by code_simp
  then show ?thesis using fingerprint_iff [OF inj_on_id n f] by blast
qed

end
