(* ===== verification/RegexRuns.thy ===== *)
theory RegexRuns
  imports RegexCase
begin

text \<open>
  Substitution of the runs of a character class: for a pattern \<open>[...]+\<close> the scanner replaces every
  maximal run of class members, which \<open>collapse\<close> states directly on the string.
\<close>

section \<open>The reference definition\<close>

fun collapse :: "(char \<Rightarrow> bool) \<Rightarrow> string \<Rightarrow> bool \<Rightarrow> string \<Rightarrow> string" where
  "collapse P r inside [] = []"
| "collapse P r inside (c # s) =
     (if P c then (if inside then [] else r) @ collapse P r True s else c # collapse P r False s)"

lemma collapse_outside: "\<forall>c \<in> set u. \<not> P c \<Longrightarrow> collapse P r False (u @ s) = u @ collapse P r False s"
  by (induction u) auto

lemma collapse_run:
  "\<forall>c \<in> set v. P c \<Longrightarrow> (s = [] \<or> \<not> P (hd s)) \<Longrightarrow> collapse P r True (v @ s) = collapse P r False s"
proof (induction v)
  case Nil
  then show ?case by (cases s) auto
qed auto

section \<open>Patterns of one class\<close>

definition run_pattern :: "(char \<Rightarrow> bool) \<Rightarrow> pattern \<Rightarrow> bool" where
  "run_pattern P p \<longleftrightarrow>
     (\<exists>neg items. rx p = RSeq (RCls neg items) (RStar True (RCls neg items)) \<and>
        (\<forall>c. cls_matches (rx_ignorecase p) neg items c = P c))"

lemma star_head:
  assumes "\<forall>c. cls_matches ic neg items c = P c"
  shows "\<exists>rest. ms ic ml (RStar True (RCls neg items)) (b, a, g) =
    (rev (takeWhile P a) @ b, dropWhile P a, g) # rest"
proof (induction a arbitrary: b)
  case Nil
  then show ?case by (simp add: ms.simps(7) Let_def)
next
  case (Cons c a)
  show ?case
  proof (cases "P c")
    case True
    have "ms ic ml (RStar True (RCls neg items)) (b, c # a, g) =
        ms ic ml (RStar True (RCls neg items)) (c # b, a, g) @ [(b, c # a, g)]"
      by (subst ms.simps(7)) (simp add: assms True)
    with Cons [of "c # b"] True show ?thesis by auto
  next
    case False
    with assms show ?thesis by (simp add: ms.simps(7) Let_def)
  qed
qed

lemma run_ways:
  assumes "run_pattern P p"
  shows "ways p b a = [] \<longleftrightarrow> a = [] \<or> \<not> P (hd a)"
    and "a \<noteq> [] \<Longrightarrow> P (hd a) \<Longrightarrow>
      \<exists>rest. ways p b a = (rev (takeWhile P a) @ b, dropWhile P a, []) # rest"
proof -
  obtain neg items where p: "rx p = RSeq (RCls neg items) (RStar True (RCls neg items))"
    "\<forall>c. cls_matches (rx_ignorecase p) neg items c = P c"
    using assms by (auto simp: run_pattern_def)
  have h: "\<exists>rest. ways p b (c # s) = (rev (takeWhile P (c # s)) @ b, dropWhile P (c # s), []) # rest"
    if "P c" for c s
    using star_head [OF p(2), of "rx_multiline p" "c # b" s "[]"] that p by (auto simp: ways_def)
  show "a \<noteq> [] \<Longrightarrow> P (hd a) \<Longrightarrow>
      \<exists>rest. ways p b a = (rev (takeWhile P a) @ b, dropWhile P a, []) # rest"
    using h by (cases a) auto
  have n: "ways p b (c # s) = []" if "\<not> P c" for c s
    using that p by (simp add: ways_def)
  have e: "ways p b [] = []" using p by (simp add: ways_def)
  show "ways p b a = [] \<longleftrightarrow> a = [] \<or> \<not> P (hd a)"
  proof (cases a)
    case (Cons c s)
    then show ?thesis using h [of c s] n [of c s] by (cases "P c") auto
  qed (simp add: e)
qed

text \<open>The first match is the first maximal run.\<close>

lemma run_search:
  assumes "run_pattern P p"
  shows "search_from p False b a =
    (if \<forall>c \<in> set a. \<not> P c then None
     else Some (rev (takeWhile (\<lambda>c. \<not> P c) a) @ b,
       rev (takeWhile P (dropWhile (\<lambda>c. \<not> P c) a)) @ rev (takeWhile (\<lambda>c. \<not> P c) a) @ b,
       dropWhile P (dropWhile (\<lambda>c. \<not> P c) a), []))"
proof (induction a arbitrary: b)
  case Nil
  have "ways p b [] = []" using run_ways(1) [OF assms, of b "[]"] by simp
  then show ?case by simp
next
  case (Cons c a)
  show ?case
  proof (cases "P c")
    case True
    with run_ways(2) [OF assms, of "c # a" b] show ?thesis by auto
  next
    case False
    have "ways p b (c # a) = []" using run_ways(1) [OF assms, of b "c # a"] False by simp
    with Cons.IH [of "c # b"] False show ?thesis by simp
  qed
qed

lemma takeWhile_not_Nil_hd: "\<not> (\<forall>c \<in> set a. \<not> P c) \<Longrightarrow>
  dropWhile (\<lambda>c. \<not> P c) a \<noteq> [] \<and> P (hd (dropWhile (\<lambda>c. \<not> P c) a))"
  by (induction a) auto

lemma run_scan:
  assumes "run_pattern P p"
  shows "(case scan p False b a of (xs, t) \<Rightarrow> concat (map (\<lambda>(gap, m). gap @ r) xs) @ t) =
    collapse P r False a"
proof (induction "length a" arbitrary: a b rule: less_induct)
  case less
  show ?case
  proof (cases "\<forall>c \<in> set a. \<not> P c")
    case True
    then have "scan p False b a = ([], a)"
      by (simp add: scan.simps [of p False b a] run_search [OF assms])
    moreover have "collapse P r False a = a" using collapse_outside [OF True, of r "[]"] by simp
    ultimately show ?thesis by simp
  next
    case False
    define u where "u = takeWhile (\<lambda>c. \<not> P c) a"
    define v where "v = takeWhile P (dropWhile (\<lambda>c. \<not> P c) a)"
    define w where "w = dropWhile P (dropWhile (\<lambda>c. \<not> P c) a)"
    have a: "a = u @ v @ w" by (simp add: u_def v_def w_def)
    obtain x xs where v: "v = x # xs"
      using takeWhile_not_Nil_hd [OF False] by (cases "dropWhile (\<lambda>c. \<not> P c) a") (auto simp: v_def)
    have s: "search_from p False b a = Some (rev u @ b, rev v @ rev u @ b, w, [])"
      using False by (simp add: run_search [OF assms] u_def v_def w_def)
    have sc: "scan p False b a =
        (case scan p False (rev v @ rev u @ b) w of
           (ys, t) \<Rightarrow> ((u, mk_match (rev u @ b) (rev v @ rev u @ b, w, [])) # ys, t))"
      using s v by (simp add: scan.simps [of p False b a])
    have IH: "(case scan p False (rev v @ rev u @ b) w of
        (xs, t) \<Rightarrow> concat (map (\<lambda>(gap, m). gap @ r) xs) @ t) = collapse P r False w"
      by (rule less) (simp add: a v)
    have "\<forall>c \<in> set u. \<not> P c" by (auto simp: u_def dest: set_takeWhileD)
    moreover have "\<forall>c \<in> set v. P c" by (auto simp: v_def dest: set_takeWhileD)
    moreover have "w = [] \<or> \<not> P (hd w)"
      unfolding w_def by (metis hd_dropWhile)
    ultimately have "collapse P r False a = u @ r @ collapse P r False w"
      using collapse_run [of xs P w r] v by (simp add: a collapse_outside)
    with IH show ?thesis by (simp add: sc split: prod.splits)
  qed
qed

theorem re_sub_runs: "run_pattern P p \<Longrightarrow> re_sub p r s = collapse P r False s"
  using run_scan [where b = "[]" and a = s and r = r] by (simp add: re_sub_def re_sub_fun_def split: prod.splits)

text \<open>The classes the code uses.\<close>

lemma in_range_classes [simp]:
  "in_range CHR ''a'' CHR ''z'' c = is_lower c" "in_range CHR ''A'' CHR ''Z'' c = is_upper c"
  "in_range CHR ''0'' CHR ''9'' c = is_digit c"
  by (simp_all add: in_range_def less_eq_char_def is_lower_def is_upper_def is_digit_def)

lemma run_patternI:
  "rx p = RSeq (RCls neg items) (RStar True (RCls neg items)) \<Longrightarrow> rx_ignorecase p = ic \<Longrightarrow>
   (\<And>c. cls_matches ic neg items c = P c) \<Longrightarrow> run_pattern P p"
  by (auto simp: run_pattern_def)

definition not_alnum :: "char \<Rightarrow> bool" where
  "not_alnum c = (\<not> is_lower c \<and> \<not> is_digit c)"

lemma slug_runs: "run_pattern not_alnum (rx_plain ''[^a-z0-9]+'')"
proof (rule run_patternI [where ic = False])
  show "rx (rx_plain ''[^a-z0-9]+'') =
      RSeq (RCls True [CRange CHR ''a'' CHR ''z'', CRange CHR ''0'' CHR ''9''])
        (RStar True (RCls True [CRange CHR ''a'' CHR ''z'', CRange CHR ''0'' CHR ''9'']))" by code_simp
  show "rx_ignorecase (rx_plain ''[^a-z0-9]+'') = False" by code_simp
qed (auto simp: cls_matches_def not_alnum_def)

lemma space_runs: "run_pattern is_space (rx_plain ''%s+'')"
proof (rule run_patternI [where ic = False])
  show "rx (rx_plain ''%s+'') = RSeq (RCls False [CSpace True]) (RStar True (RCls False [CSpace True]))" by code_simp
  show "rx_ignorecase (rx_plain ''%s+'') = False" by code_simp
qed (simp add: cls_matches_def)

text \<open>Laws of \<open>collapse\<close>.\<close>

lemma set_collapse: "set (collapse P r inside s) \<subseteq> set r \<union> {c \<in> set s. \<not> P c}"
  by (induction s arbitrary: inside) auto

lemma collapse_erase: "collapse P [] inside s = filter (\<lambda>c. \<not> P c) s"
  by (induction s arbitrary: inside) simp_all

text \<open>Squeezing a smaller class first makes no difference.\<close>

lemma collapse_absorb:
  assumes "\<And>c. Q c \<Longrightarrow> P c" and "P d"
  shows "(i \<Longrightarrow> j) \<Longrightarrow> collapse P r j (collapse Q [d] i s) = collapse P r j s"
proof (induction s arbitrary: i j)
  case (Cons c s)
  show ?case
  proof (cases "Q c")
    case True
    then have "P c" by (rule assms(1))
    with True Cons assms(2) show ?thesis by (cases i) simp_all
  next
    case False
    with Cons show ?thesis by simp
  qed
qed simp

end
