(* ===== verification/LocalityCanon.thy ===== *)
theory LocalityCanon
  imports MarketScope RegexRuns
begin

text \<open>
  \<open>location.py\<close>, the canonical names of localities: the display name of a known Mumbai
  micro-market, the canonical URL slug of a raw micro-market value, and the one market a text
  names.  The tables are the source's, in its order; a \<open>frozenset\<close> is a list without duplicates.
\<close>

section \<open>Tables\<close>

definition common_localities :: "string list" where
  "common_localities =
    [''andheri'', ''andheri west'', ''andheri east'', ''bandra'', ''bandra west'',
     ''bandra east'', ''bkc'', ''santacruz'', ''santacruz west'', ''santacruz east'', ''khar'',
     ''khar west'', ''juhu'', ''malad'', ''malad west'', ''goregaon'', ''goregaon west'',
     ''worli'', ''parel'', ''lower parel'', ''dadar'', ''powai'', ''versova'', ''vile parle'',
     ''chembur'', ''mahalaxmi'', ''prabhadevi'', ''oshiwara'', ''lokhandwala'', ''mount mary'',
     ''pali hill'', ''turner road'', ''carter road'', ''hill road'', ''linking road'',
     ''kandivali'', ''borivali'', ''dahisar'', ''mira road'', ''bhayandar'', ''vasai'',
     ''virar'', ''thane'', ''dombivli'', ''kalyan'', ''ambernath'', ''badlapur'', ''ulhasnagar'',
     ''navi mumbai'', ''nerul'', ''vashi'', ''panvel'', ''kurla'', ''ghatkopar'',
     ''marine lines'', ''colaba'', ''churchgate'', ''fort'', ''byculla'', ''mahim'', ''matunga'',
     ''sion'', ''wadala'', ''tardeo'', ''warden road'', ''cuffe parade'']"

definition non_market_names :: "string list" where
  "non_market_names =
    [''carter road'', ''hill road'', ''linking road'', ''turner road'']"

definition location_aliases :: "(string \<times> string) list" where
  "location_aliases =
    [(''ndheri west'', ''andheri west''), (''ndheri east'', ''andheri east''),
     (''jvpd'', ''juhu''), (''versova'', ''andheri west''), (''varsova'', ''andheri west''),
     (''yari road'', ''andheri west''), (''oshiwara'', ''andheri west''),
     (''naupada thane'', ''thane''), (''naupada'', ''thane''), (''pokhran'', ''thane''),
     (''bandra east'', ''bandra east''), (''bandra west'', ''bandra west''),
     (''pali naka'', ''bandra west''), (''goregaon east'', ''goregaon east''),
     (''goregaon west'', ''goregaon west''), (''andheri east'', ''andheri east''),
     (''andheri west'', ''andheri west''), (''khar west'', ''khar west''),
     (''santacruz west'', ''santacruz west''), (''malad west'', ''malad west''),
     (''matunga west'', ''matunga west''), (''kurla west'', ''kurla west''),
     (''mahim west'', ''mahim west''), (''dahisar west'', ''dahisar west''),
     (''vile parle'', ''vile parle''), (''new marine lines'', ''marine lines''),
     (''marine lines'', ''marine lines'')]"

definition hidden_buckets :: "string list" where
  "hidden_buckets =
    [''western suburbs prime'', ''south mumbai central'', ''eastern suburbs'',
     ''central suburbs'', ''mumbai suburbs'', ''western line'', ''central line'',
     ''harbour line'']"

definition generic_parents :: "string list" where
  "generic_parents =
    [''andheri'', ''dadar'', ''thane'', ''malad'', ''goregaon'', ''vile parle'', ''kandivali'',
     ''borivali'']"

definition implied_direction :: "(string \<times> string) list" where
  "implied_direction =
    [(''bandra'', ''Bandra West''), (''khar'', ''Khar West''),
     (''santacruz'', ''Santacruz West''), (''scuz'', ''Santacruz West'')]"

definition redirects :: "(string \<times> string) list" where
  "redirects =
    [(''bandra bkc'', ''Bandra East''), (''bandra bkc east'', ''Bandra East''),
     (''bandra east bkc'', ''Bandra East''), (''bkc'', ''Bandra Kurla Complex''),
     (''pali hill'', ''Bandra West''), (''mount mary'', ''Bandra West''),
     (''turner road'', ''Bandra West''), (''lokhandwala'', ''Andheri West''),
     (''versova'', ''Andheri West''), (''oshiwara'', ''Andheri West''),
     (''dn nagar'', ''Andheri West''), (''marol'', ''Andheri East''),
     (''sakinaka'', ''Andheri East''), (''chandivali'', ''Andheri East''),
     (''juhu scheme'', ''Juhu''), (''hiranandani estate'', ''Thane West''),
     (''wagle estate, thane'', ''Thane West''), (''kasarvadavali'', ''Thane West''),
     (''kasarvadavli'', ''Thane West''), (''kapurbawdi'', ''Thane West''),
     (''ghodbunder road, thane'', ''Thane West''), (''mahajanwadi, thane'', ''Thane West''),
     (''mahim west'', ''Mahim''), (''matunga east'', ''Matunga''), (''wadala west'', ''Wadala''),
     (''vile parle east'', ''Vile Parle East''), (''parle east'', ''Vile Parle East'')]"

definition standalone_localities :: "(string \<times> string) list" where
  "standalone_localities =
    [(''andheri east'', ''Andheri East''), (''andheri west'', ''Andheri West''),
     (''ambernath'', ''Ambernath''), (''agripada'', ''Agripada''), (''badlapur'', ''Badlapur''),
     (''bandra east'', ''Bandra East''), (''bandra kurla complex'', ''Bandra Kurla Complex''),
     (''bandra west'', ''Bandra West''), (''bhandup'', ''Bhandup''),
     (''bhayandar'', ''Bhayandar''), (''borivali east'', ''Borivali East''),
     (''borivali west'', ''Borivali West''), (''byculla'', ''Byculla''),
     (''chembur'', ''Chembur''), (''churchgate'', ''Churchgate''),
     (''chowpatty'', ''Chowpatty''), (''colaba'', ''Colaba''),
     (''cuffe parade'', ''Cuffe Parade''), (''dahisar'', ''Dahisar''),
     (''dadar east'', ''Dadar East''), (''dadar west'', ''Dadar West''),
     (''dombivli'', ''Dombivli''), (''fort'', ''Fort''),
     (''ghatkopar east'', ''Ghatkopar East''), (''ghatkopar west'', ''Ghatkopar West''),
     (''goregaon east'', ''Goregaon East''), (''goregaon west'', ''Goregaon West''),
     (''grant road'', ''Grant Road''), (''juhu'', ''Juhu''),
     (''jogeshwari east'', ''Jogeshwari East''), (''jogeshwari west'', ''Jogeshwari West''),
     (''kalyan'', ''Kalyan''), (''kandivali east'', ''Kandivali East''),
     (''kandivali west'', ''Kandivali West''), (''khar west'', ''Khar West''),
     (''kurla'', ''Kurla''), (''kurla west'', ''Kurla West''), (''lalbaug'', ''Lalbaug''),
     (''lower parel'', ''Lower Parel''), (''mahalaxmi'', ''Mahalaxmi''), (''mahim'', ''Mahim''),
     (''malabar hill'', ''Malabar Hill''), (''malad east'', ''Malad East''),
     (''malad west'', ''Malad West''), (''marine lines'', ''Marine Lines''),
     (''matunga'', ''Matunga''), (''mira road'', ''Mira Road''),
     (''mulund west'', ''Mulund West''), (''mumbai central'', ''Mumbai Central''),
     (''nariman point'', ''Nariman Point''), (''nagpada'', ''Nagpada''), (''nerul'', ''Nerul''),
     (''panvel'', ''Panvel''), (''parel'', ''Parel''), (''powai'', ''Powai''),
     (''prabhadevi'', ''Prabhadevi''), (''pydhonie'', ''Pydhonie''),
     (''santacruz east'', ''Santacruz East''), (''santacruz west'', ''Santacruz West''),
     (''sewri'', ''Sewri''), (''sion'', ''Sion''), (''tardeo'', ''Tardeo''),
     (''thane west'', ''Thane West''), (''vile parle west'', ''Vile Parle West''),
     (''vashi'', ''Vashi''), (''vasai'', ''Vasai''), (''vikhroli'', ''Vikhroli''),
     (''virar'', ''Virar''), (''wadala'', ''Wadala''), (''worli'', ''Worli'')]"

section \<open>Names\<close>

definition ws_run_re :: pattern where
  "ws_run_re = rx_plain ''%s+''"

definition slug_run_re :: pattern where
  "slug_run_re = rx_plain ''[^a-z0-9]+''"

definition edge_dash_re :: pattern where
  "edge_dash_re = rx_plain ''^-+|-+$''"

text \<open>The compiled patterns, for evaluation.\<close>

lemma compiled_code [code]:
  "ws_run_re =
    \<lparr>rx = RSeq (RCls False [CSpace True]) (RStar True (RCls False [CSpace True])), rx_names = [],
     rx_ignorecase = False, rx_multiline = False\<rparr>"
  "slug_run_re =
    \<lparr>rx = RSeq (RCls True [CRange CHR ''a'' CHR ''z'', CRange CHR ''0'' CHR ''9''])
        (RStar True (RCls True [CRange CHR ''a'' CHR ''z'', CRange CHR ''0'' CHR ''9''])), rx_names = [],
     rx_ignorecase = False, rx_multiline = False\<rparr>"
  "edge_dash_re =
    \<lparr>rx = RAlt (RSeq RBol (RSeq (RChar CHR ''-'') (RStar True (RChar CHR ''-''))))
        (RSeq (RSeq (RChar CHR ''-'') (RStar True (RChar CHR ''-''))) REol), rx_names = [],
     rx_ignorecase = False, rx_multiline = False\<rparr>"
  by code_simp+

definition squeeze_ws :: "string \<Rightarrow> string" where
  "squeeze_ws s = re_sub ws_run_re '' '' s"

definition canonical_micro_market :: "string option \<Rightarrow> string option" where
  "canonical_micro_market v =
     (let normalized = squeeze_ws (lower (strip (text_or v))) in
      if normalized \<notin> set common_localities \<or> normalized \<in> set non_market_names then None
      else if normalized = ''bkc'' then Some ''BKC''
      else Some (title normalized))"

definition slugify :: "string \<Rightarrow> string" where
  "slugify v =
     re_sub edge_dash_re [] (re_sub slug_run_re ''-'' (lower (strip v)))"

definition canonical_micro_market_slug :: "string option \<Rightarrow> string option" where
  "canonical_micro_market_slug raw =
     (case raw of
        None \<Rightarrow> None
      | Some r \<Rightarrow>
          if r = [] then None
          else
            let norm = squeeze_ws (lower (strip r)) in
            if norm = [] then None
            else if norm \<in> set hidden_buckets then None
            else case map_of redirects norm of
                Some l \<Rightarrow> Some (slugify l)
              | None \<Rightarrow>
                (case map_of implied_direction norm of
                   Some l \<Rightarrow> Some (slugify l)
                 | None \<Rightarrow>
                     if norm \<in> set generic_parents then Some (slugify (strip r))
                     else map_option slugify (map_of standalone_localities norm)))"

text \<open>
  The set of matches is a list without duplicates; the answer is its one specific element, so the
  order in which Python visits the set does not matter.
\<close>

definition infer_unique_micro_market :: "string option \<Rightarrow> string option" where
  "infer_unique_micro_market text =
     (let normalized = foldl (\<lambda>s (p, r). replace p r s) ('' '' @ lower (text_or text) @ '' '') location_aliases;
          matches = dedup (List.map_filter
            (\<lambda>l. if re_found (phrase_re l) normalized then canonical_micro_market (Some l) else None)
            common_localities);
          specific = filter (\<lambda>m. \<not> list_ex (\<lambda>other. other \<noteq> m \<and>
            startswith (lower other) (lower m @ '' '')) matches) matches
      in case specific of [m] \<Rightarrow> Some m | _ \<Rightarrow> None)"

section \<open>Slugs are canonical\<close>

text \<open>A slug read as a name again.\<close>

definition unslug :: "string \<Rightarrow> string" where
  "unslug s = replace ''-'' '' '' s"

lemma slugify_squeeze: "slugify (strip r) = slugify (squeeze_ws (lower (strip r))) \<or>
    lower (strip (squeeze_ws (lower (strip r)))) \<noteq> squeeze_ws (lower (strip r))"
proof -
  have s: "re_sub slug_run_re ''-'' (squeeze_ws t) = re_sub slug_run_re ''-'' t" for t
  proof -
    have "is_space c \<Longrightarrow> not_alnum c" for c
      by (cases c) (auto simp: is_space_code not_alnum_def is_lower_code is_digit_code)
    moreover have "not_alnum CHR '' ''" by (simp add: not_alnum_def is_lower_code is_digit_code)
    ultimately show ?thesis
      using collapse_absorb [of is_space not_alnum "CHR '' ''" False False "''-''" t]
      by (simp add: squeeze_ws_def ws_run_re_def slug_run_re_def re_sub_runs [OF slug_runs]
          re_sub_runs [OF space_runs])
  qed
  show ?thesis by (auto simp: slugify_def s)
qed

definition slug_labels :: "string list" where
  "slug_labels = ''Vile Parle East'' # generic_parents @ map snd standalone_localities"

lemma labels_covered: "list_all (List.member slug_labels) (map snd implied_direction @ map snd redirects)"
  by code_simp

lemma generic_plain: "list_all (\<lambda>g. lower (strip g) = g) generic_parents"
  by code_simp

lemma canonical_slug_label:
  assumes "canonical_micro_market_slug raw = Some s"
  shows "\<exists>l \<in> set slug_labels. s = slugify l"
proof -
  from assms obtain r where raw: "raw = Some r"
    by (cases raw) (simp_all add: canonical_micro_market_slug_def)
  let ?n = "squeeze_ws (lower (strip r))"
  from assms raw consider l where "map_of redirects ?n = Some l" "s = slugify l"
    | l where "map_of implied_direction ?n = Some l" "s = slugify l"
    | "?n \<in> set generic_parents" "s = slugify (strip r)"
    | l where "map_of standalone_localities ?n = Some l" "s = slugify l"
    by (auto simp: canonical_micro_market_slug_def Let_def split: if_splits option.splits)
  then show ?thesis
  proof cases
    case 3
    with generic_plain have "lower (strip ?n) = ?n" by (auto simp: list_all_iff)
    with slugify_squeeze [of r] 3 have "s = slugify ?n" by auto
    with 3 show ?thesis by (auto simp: slug_labels_def intro!: bexI [of _ ?n])
  next
    case (1 l)
    then have "l \<in> set (map snd implied_direction @ map snd redirects)" by (force dest: map_of_SomeD)
    with labels_covered 1 show ?thesis by (auto simp: list_all_iff)
  next
    case (2 l)
    then have "l \<in> set (map snd implied_direction @ map snd redirects)" by (force dest: map_of_SomeD)
    with labels_covered 2 show ?thesis by (auto simp: list_all_iff)
  next
    case (4 l)
    then have "l \<in> set (map snd standalone_localities)" by (force dest: map_of_SomeD)
    with 4 show ?thesis by (auto simp: slug_labels_def)
  qed
qed

definition slug_fixed :: "string \<Rightarrow> bool" where
  "slug_fixed l = (canonical_micro_market_slug (Some (unslug (slugify l))) = Some (slugify l))"

lemma slug_labels_fixed: "list_all slug_fixed slug_labels"
  by code_simp

text \<open>
  Slugs are canonical.  Every slug \<open>canonical_micro_market_slug\<close> answers, read as a name again
  (dashes as spaces), resolves to itself, so resolving twice changes nothing and the aliases,
  redirects and implied directions of the tables never lead to a slug the resolver would not know.
\<close>

theorem canonical_slug_fixed:
  assumes "canonical_micro_market_slug raw = Some s"
  shows "canonical_micro_market_slug (Some (unslug s)) = Some s"
  using canonical_slug_label [OF assms] slug_labels_fixed by (auto simp: list_all_iff slug_fixed_def)

theorem canonical_slug_fixed_witness:
  "canonical_micro_market_slug (Some ''bandra kurla complex'') = Some ''bandra-kurla-complex''"
proof -
  have "canonical_micro_market_slug (Some '' BKC '') = Some ''bandra-kurla-complex''"
    and u: "unslug ''bandra-kurla-complex'' = ''bandra kurla complex''" by code_simp+
  from canonical_slug_fixed [OF this(1)] show ?thesis unfolding u .
qed

text \<open>
  The alias pass hides three localities from \<open>infer_unique_micro_market\<close>.  The typo rule for
  \<open>ndheri\<close> also rewrites the correct spelling (to \<open>aandheri\<close>), so a text that names Andheri West or
  Andheri East resolves to no market, and Lower Parel is taken for two markets because only a
  parent in front of its specific name is dropped; Bandra West, over its parent Bandra, is resolved.
\<close>

theorem infer_blind_spots:
  "infer_unique_micro_market (Some ''Andheri West'') = None \<and>
   infer_unique_micro_market (Some ''Andheri East'') = None \<and>
   infer_unique_micro_market (Some ''Lower Parel'') = None \<and>
   infer_unique_micro_market (Some ''Bandra West'') = Some ''Bandra West''"
  by code_simp

end
