(* ===== verification/PyTime.thy ===== *)
theory PyTime
  imports PyVal
begin

text \<open>
  \<open>datetime.fromisoformat\<close> of Python 3.11 and the comparison of its result with an aware clock.

  A date-time is the number of microseconds of its local reading since 1 January of year 1, and
  its offset from UTC in microseconds; no offset is a naive date-time.
\<close>

section \<open>The calendar\<close>

record pydatetime =
  dt_local :: int
  dt_offset :: "int option"

definition is_leap :: "int \<Rightarrow> bool" where
  "is_leap y = (y mod 4 = 0 \<and> (y mod 100 \<noteq> 0 \<or> y mod 400 = 0))"

definition days_before_year :: "int \<Rightarrow> int" where
  "days_before_year y = (let p = y - 1 in p * 365 + p div 4 - p div 100 + p div 400)"

definition days_in_month :: "int \<Rightarrow> int \<Rightarrow> int" where
  "days_in_month y m =
     (if m = 2 then (if is_leap y then 29 else 28) else if m \<in> {4, 6, 9, 11} then 30 else 31)"

definition days_before_month :: "int \<Rightarrow> int \<Rightarrow> int" where
  "days_before_month y m = sum_list (map (days_in_month y) [1..m - 1])"

definition valid_date :: "int \<Rightarrow> int \<Rightarrow> int \<Rightarrow> bool" where
  "valid_date y m d = (1 \<le> y \<and> y \<le> 9999 \<and> 1 \<le> m \<and> m \<le> 12 \<and> 1 \<le> d \<and> d \<le> days_in_month y m)"

definition day_number :: "int \<Rightarrow> int \<Rightarrow> int \<Rightarrow> int" where
  "day_number y m d = days_before_year y + days_before_month y m + d - 1"

section \<open>Reading\<close>

definition digits_num :: "string \<Rightarrow> nat \<Rightarrow> int option" where
  "digits_num s k =
     (if length s = k \<and> k \<noteq> 0 \<and> list_all is_digit s then Some (int_of_digits s) else None)"

definition slice :: "string \<Rightarrow> nat \<Rightarrow> nat \<Rightarrow> string" where
  "slice s i j = take (j - i) (drop i s)"

text \<open>The day number of an ISO week date; week 1 holds the first Thursday.\<close>

definition week_day_number :: "int \<Rightarrow> int \<Rightarrow> int \<Rightarrow> int option" where
  "week_day_number y w d =
     (let first = days_before_year y; wd = first mod 7;
          week1 = (if wd > 3 then first - wd + 7 else first - wd);
          long = (wd = 3 \<or> (wd = 2 \<and> is_leap y))
      in if 1 \<le> y \<and> y \<le> 9999 \<and> 1 \<le> w \<and> (w \<le> 52 \<or> w = 53 \<and> long) \<and> 1 \<le> d \<and> d \<le> 7
         then Some (week1 + (w - 1) * 7 + d - 1) else None)"

text \<open>\<open>YYYY-MM-DD\<close>, \<open>YYYYMMDD\<close> and the week forms; the value is a day number.\<close>

definition parse_date :: "string \<Rightarrow> int option" where
  "parse_date s =
     (let sep = (slice s 4 5 = ''-''); p = (if sep then 5 else 4); e = (if sep then 1 else 0) in
      case digits_num (slice s 0 4) 4 of
        None \<Rightarrow> None
      | Some y \<Rightarrow>
          if slice s p (p + 1) = ''W'' then
            (case digits_num (slice s (p + 1) (p + 3)) 2 of
               None \<Rightarrow> None
             | Some w \<Rightarrow>
                 if length s = p + 3 then week_day_number y w 1
                 else if (slice s (p + 3) (p + 4) = ''-'') \<noteq> sep \<or> length s \<noteq> p + 4 + e then None
                 else (case digits_num (drop (p + 3 + e) s) 1 of
                         Some d \<Rightarrow> week_day_number y w d
                       | None \<Rightarrow> None))
          else
            (case (digits_num (slice s p (p + 2)) 2, digits_num (drop (p + 2 + e) s) 2) of
               (Some m, Some d) \<Rightarrow>
                 if (slice s (p + 2) (p + 3) = ''-'') \<noteq> sep \<or> \<not> valid_date y m d then None
                 else Some (day_number y m d)
             | _ \<Rightarrow> None))"

text \<open>
  The time parser reads hours, then minutes and seconds with colons or without, then a fraction; it
  answers the components, the microseconds and whether characters are left over.  Leftovers are
  an error at the end of the string but, in CPython, not in front of a zone.
\<close>

definition parse_fraction :: "string \<Rightarrow> (int \<times> bool) option" where
  "parse_fraction s =
     (let k = min 6 (length s) in
      if k = 0 \<or> \<not> list_all is_digit (take k s) then None
      else Some (int_of_digits (take k s) * 10 ^ (6 - k), \<not> list_all is_digit (drop k s)))"

fun parse_hms :: "nat \<Rightarrow> bool \<Rightarrow> string \<Rightarrow> (int list \<times> int \<times> bool) option" where
  "parse_hms 0 sep s = map_option (\<lambda>(us, left). ([], us, left)) (parse_fraction s)"
| "parse_hms (Suc k) sep s =
     (case digits_num (take 2 s) 2 of
        None \<Rightarrow> None
      | Some v \<Rightarrow>
          (case drop 2 s of
             [] \<Rightarrow> Some ([v], 0, False)
           | c # r \<Rightarrow>
               let sep' = (if k = 2 then c = CHR '':'' else sep) in
               if r = [] then Some ([v], 0, True)
               else if sep' \<and> c = CHR '':'' then
                 map_option (\<lambda>(vs, u). (v # vs, u)) (parse_hms k sep' r)
               else if c = CHR ''.'' \<or> c = CHR '','' then
                 map_option (\<lambda>(us, left). ([v], us, left)) (parse_fraction r)
               else if \<not> sep' then
                 map_option (\<lambda>(vs, u). (v # vs, u)) (parse_hms k sep' (c # r))
               else None))"

definition comp :: "int list \<Rightarrow> nat \<Rightarrow> int" where
  "comp vs i = (if i < length vs then vs ! i else 0)"

definition us_of :: "int list \<times> int \<times> bool \<Rightarrow> int" where
  "us_of t = (case t of (vs, us, _) \<Rightarrow> ((comp vs 0 * 60 + comp vs 1) * 60 + comp vs 2) * 1000000 + us)"

definition valid_time :: "int list \<times> int \<times> bool \<Rightarrow> bool" where
  "valid_time t = (case t of (vs, _, _) \<Rightarrow> comp vs 0 < 24 \<and> comp vs 1 < 60 \<and> comp vs 2 < 60)"

definition leftover :: "int list \<times> int \<times> bool \<Rightarrow> bool" where
  "leftover t = snd (snd t)"

text \<open>The zone starts at the first plus, minus or \<open>Z\<close>.\<close>

definition zone_mark :: "char \<Rightarrow> bool" where
  "zone_mark c = (c = CHR ''+'' \<or> c = CHR ''-'' \<or> c = CHR ''Z'')"

definition parse_zone :: "char \<Rightarrow> string \<Rightarrow> int option" where
  "parse_zone z tz =
     (if z = CHR ''Z'' then (if tz = [] then Some 0 else None)
      else
        (case parse_hms 3 False tz of
           None \<Rightarrow> None
         | Some t \<Rightarrow>
             if leftover t \<or> 86400000000 \<le> us_of t then None
             else if us_of t < 1000000 then Some 0
             else Some (if z = CHR ''-'' then - us_of t else us_of t)))"

definition parse_time :: "string \<Rightarrow> (int \<times> int option) option" where
  "parse_time s =
     (case parse_hms 3 False (takeWhile (\<lambda>c. \<not> zone_mark c) s) of
        None \<Rightarrow> None
      | Some t \<Rightarrow>
          (case dropWhile (\<lambda>c. \<not> zone_mark c) s of
             [] \<Rightarrow> if leftover t \<or> \<not> valid_time t then None else Some (us_of t, None)
           | z # tz \<Rightarrow>
               (case parse_zone z tz of
                  None \<Rightarrow> None
                | Some off \<Rightarrow> if valid_time t then Some (us_of t, Some off) else None)))"

text \<open>The end of the date part.\<close>

definition date_end :: "string \<Rightarrow> nat" where
  "date_end s =
     (if length s = 7 then 7
      else if slice s 4 5 = ''-'' then
        (if slice s 5 6 = ''W'' then
           (if slice s 8 9 = ''-'' \<and> \<not> (10 < length s \<and> list_all is_digit (slice s 10 11)) then 10 else 8)
         else 10)
      else if slice s 4 5 = ''W'' then
        (let idx = 7 + length (takeWhile is_digit (drop 7 s))
         in if idx < 9 then idx else if even idx then 7 else 8)
      else 8)"

definition fromisoformat :: "string \<Rightarrow> pydatetime option" where
  "fromisoformat s =
     (if length s < 7 then None
      else
        (let e = date_end s; t = drop (e + 1) s in
         case parse_date (take e s) of
           None \<Rightarrow> None
         | Some day \<Rightarrow>
             if length s \<le> e then Some \<lparr>dt_local = day * 86400000000, dt_offset = None\<rparr>
             else
               map_option (\<lambda>(us, off). \<lparr>dt_local = day * 86400000000 + us, dt_offset = off\<rparr>)
                 (parse_time t)))"

text \<open>\<open>datetime.fromisoformat(str(v).replace(''Z'', ''+00:00''))\<close>, the form the code uses.\<close>

definition iso_of :: "pyval \<Rightarrow> pydatetime result" where
  "iso_of v =
     (case fromisoformat (replace ''Z'' ''+00:00'' (py_str v)) of
        Some d \<Rightarrow> Inr d | None \<Rightarrow> Inl ValueError)"

text \<open>The instant of an aware date-time; mixing a naive one with an aware clock is a \<open>TypeError\<close>.\<close>

definition instant :: "pydatetime \<Rightarrow> int result" where
  "instant d = (case dt_offset d of Some off \<Rightarrow> Inr (dt_local d - off) | None \<Rightarrow> Inl TypeError)"

section \<open>Writing\<close>

text \<open>
  The inverse of the calendar: the year of a day number by the mean length of a year, corrected by
  at most one, and the month by a search.
\<close>

definition year_of_day :: "int \<Rightarrow> int" where
  "year_of_day d =
     (let y = d * 400 div 146097 + 1
      in if d < days_before_year y then y - 1 else if days_before_year (y + 1) \<le> d then y + 1 else y)"

fun month_from :: "int \<Rightarrow> nat \<Rightarrow> int \<Rightarrow> int \<Rightarrow> int \<times> int" where
  "month_from y 0 m d = (m, d + 1)"
| "month_from y (Suc k) m d =
     (if d < days_in_month y m then (m, d + 1) else month_from y k (m + 1) (d - days_in_month y m))"

definition pad :: "nat \<Rightarrow> int \<Rightarrow> string" where
  "pad k n = (let s = show_nat n in replicate (k - length s) CHR ''0'' @ s)"

text \<open>\<open>t.isoformat()\<close> of an aware date-time in UTC.\<close>

definition isoformat :: "int \<Rightarrow> string" where
  "isoformat t =
     (let day = t div 86400000000; us = t mod 86400000000; sec = us div 1000000; y = year_of_day day in
      case month_from y 11 1 (day - days_before_year y) of (m, d) \<Rightarrow>
        pad 4 y @ ''-'' @ pad 2 m @ ''-'' @ pad 2 d @ ''T'' @
        pad 2 (sec div 3600) @ '':'' @ pad 2 (sec div 60 mod 60) @ '':'' @ pad 2 (sec mod 60) @
        (if us mod 1000000 = 0 then [] else ''.'' @ pad 6 (us mod 1000000)) @ ''+00:00'')"

end
