(* ===== verification/FloatOrder.thy ===== *)
theory FloatOrder
  imports PyFloat
begin

text \<open>
  A linear order on floats, for sorting by a float key: the numeric order, with NaN at the end (no
  key of the code is NaN), and the stable descending sort \<open>sorted(xs, key=f, reverse=True)\<close>.
\<close>

fun float_le :: "pyfloat \<Rightarrow> pyfloat \<Rightarrow> bool" where
  "float_le _ NaN = True"
| "float_le NaN _ = False"
| "float_le NInf _ = True"
| "float_le _ NInf = False"
| "float_le _ PInf = True"
| "float_le PInf _ = False"
| "float_le (Fin x) (Fin y) = (x \<le> y)"

instantiation pyfloat :: linorder
begin

definition less_eq_pyfloat :: "pyfloat \<Rightarrow> pyfloat \<Rightarrow> bool" where
  "less_eq_pyfloat a b = float_le a b"

definition less_pyfloat :: "pyfloat \<Rightarrow> pyfloat \<Rightarrow> bool" where
  "less_pyfloat a b = (float_le a b \<and> \<not> float_le b a)"

instance
proof
  fix x y z :: pyfloat
  show "x < y \<longleftrightarrow> x \<le> y \<and> \<not> y \<le> x" by (simp add: less_eq_pyfloat_def less_pyfloat_def)
  show "x \<le> x" by (cases x) (simp_all add: less_eq_pyfloat_def)
  show "x \<le> y \<Longrightarrow> y \<le> z \<Longrightarrow> x \<le> z"
    by (cases x; cases y; cases z) (simp_all add: less_eq_pyfloat_def)
  show "x \<le> y \<Longrightarrow> y \<le> x \<Longrightarrow> x = y" by (cases x; cases y) (simp_all add: less_eq_pyfloat_def)
  show "x \<le> y \<or> y \<le> x" by (cases x; cases y) (auto simp: less_eq_pyfloat_def)
qed

end

lemma float_le_fle: "x \<noteq> NaN \<Longrightarrow> y \<noteq> NaN \<Longrightarrow> x \<le> y \<longleftrightarrow> fle x y"
  by (cases x; cases y) (auto simp: less_eq_pyfloat_def fle_def)

lemma float_less_flt: "x \<noteq> NaN \<Longrightarrow> y \<noteq> NaN \<Longrightarrow> x < y \<longleftrightarrow> flt x y"
  by (cases x; cases y) (auto simp: less_pyfloat_def)

definition sorted_desc :: "('a \<Rightarrow> pyfloat) \<Rightarrow> 'a list \<Rightarrow> 'a list" where
  "sorted_desc f xs = rev (sort_key f (rev xs))"

lemma set_sorted_desc [simp]: "set (sorted_desc f xs) = set xs"
  by (simp add: sorted_desc_def)

lemma sorted_desc_order: "sorted_wrt (\<lambda>x y. f y \<le> f x) (sorted_desc f xs)"
proof -
  have "sorted_wrt (\<lambda>x y. f x \<le> f y) (sort_key f (rev xs))"
    using sorted_sort_key [of f "rev xs"] by (simp add: sorted_map)
  then show ?thesis by (simp add: sorted_desc_def sorted_wrt_rev)
qed

text \<open>Elements of the same key keep their order.\<close>

lemma sorted_desc_stable:
  "filter (\<lambda>x. f x = k) (sorted_desc f xs) = filter (\<lambda>x. f x = k) xs"
proof -
  have "filter (\<lambda>x. f x = k) (sort_key f (rev xs)) = filter (\<lambda>x. f x = k) (rev xs)"
    by (rule sort_key_stable)
  then show ?thesis by (simp add: sorted_desc_def flip: rev_filter)
qed

section \<open>Values between bounds\<close>

text \<open>Between zero and an integer that is a double, rounding stays between them.\<close>

definition in_bounds :: "pyfloat \<Rightarrow> int \<Rightarrow> bool" where
  "in_bounds x n = (\<exists>y. x = Fin y \<and> 0 \<le> y \<and> y \<le> of_int n)"

lemma rnd_in_bounds:
  assumes "0 \<le> x" "x \<le> of_int n" "n < 2 ^ 53"
  shows "in_bounds (rnd x) n"
proof -
  have "(0 :: rat) \<le> of_int n" using assms(1,2) by (rule order_trans)
  then have n: "0 \<le> n" by simp
  then have "rnd (of_int n) = Fin (of_int n)" using assms(3) by (intro rnd_of_int) simp
  then have "fle (Fin 0) (rnd x)" "fle (rnd x) (Fin (of_int n))"
    using rnd_mono [OF assms(1)] rnd_mono [OF assms(2)] by simp_all
  then show ?thesis by (cases "rnd x") (auto simp: in_bounds_def fle_def)
qed

lemma round_even_mono_int: "x \<le> of_int n \<Longrightarrow> round_even x \<le> n"
proof -
  assume h: "x \<le> of_int n"
  show "round_even x \<le> n"
  proof (cases "x = of_int n")
    case False
    with h have "\<lfloor>x\<rfloor> + 1 \<le> n" by (simp add: floor_less_iff zless_imp_add1_zle)
    then show ?thesis by (auto simp: round_even_def Let_def)
  qed (simp add: round_even_def)
qed

lemma round_even_nonneg: "0 \<le> x \<Longrightarrow> 0 \<le> round_even x"
proof -
  assume "0 \<le> x"
  then have "0 \<le> \<lfloor>x\<rfloor>" by simp
  then show "0 \<le> round_even x" by (auto simp: round_even_def Let_def)
qed

lemma fround_in_bounds:
  assumes "in_bounds x n" "n < 2 ^ 53"
  shows "in_bounds (fround d x) n"
proof -
  from assms(1) obtain y where y: "x = Fin y" "0 \<le> y" "y \<le> of_int n" by (auto simp: in_bounds_def)
  have "y * 10 ^ d \<le> of_int (n * 10 ^ d)" using y(3) by (simp add: mult_right_mono)
  then have "round_even (y * 10 ^ d) \<le> n * 10 ^ d" by (rule round_even_mono_int)
  then have "of_int (round_even (y * 10 ^ d)) \<le> (of_int (n * 10 ^ d) :: rat)" by (simp only: of_int_le_iff)
  then have "of_int (round_even (y * 10 ^ d)) / 10 ^ d \<le> (of_int n :: rat)" by (simp add: field_simps)
  moreover have "0 \<le> (of_int (round_even (y * 10 ^ d)) / 10 ^ d :: rat)"
    using round_even_nonneg [of "y * 10 ^ d"] y(2) by simp
  ultimately show ?thesis using rnd_in_bounds assms(2) y(1) by simp
qed

lemma fmul_in_bounds:
  assumes "in_bounds x n" "in_bounds y k" "n * k < 2 ^ 53"
  shows "in_bounds (fmul x y) (n * k)"
proof -
  from assms(1,2) obtain a b where ab: "x = Fin a" "y = Fin b" "0 \<le> a" "0 \<le> b" "a \<le> of_int n" "b \<le> of_int k"
    by (auto simp: in_bounds_def)
  then have "a * b \<le> of_int (n * k)" by (simp add: mult_mono)
  with ab assms(3) rnd_in_bounds [of "a * b" "n * k"] show ?thesis by (simp add: fmul_def)
qed

lemma in_bounds_le: "in_bounds x n \<Longrightarrow> n \<le> k \<Longrightarrow> in_bounds x k"
  unfolding in_bounds_def using of_int_le_iff [where 'a = rat] order_trans by blast

end
