(* ===== verification/Matching.thy ===== *)
theory Matching
  imports PricePlaus LocalityCanon PyTime FloatOrder
begin

text \<open>
  \<open>matching/requirement_listing_matcher.py\<close>: the score of a listing for a requirement, as a
  sequence of exclusions and a weighted sum, and the capped selection of the best matches.

  The clock is the parameter \<open>now\<close>, an instant in microseconds.
\<close>

section \<open>Reading the fields\<close>

definition req_types :: "(string \<times> (string \<times> string)) list" where
  "req_types =
    [(''residential_rent'', (''residential'', ''rent'')), (''residential_sale'', (''residential'', ''sale'')),
     (''commercial_rent'', (''commercial'', ''rent'')), (''commercial_sale'', (''commercial'', ''sale''))]"

text \<open>An integral number is an \<open>int\<close> there; the value is the same.\<close>

definition normalize_bhk :: "pyval \<Rightarrow> pyfloat option" where
  "normalize_bhk v =
     (if is_none v then None
      else case re_search (rx_plain ''%d+(?:%.%d+)?'') (py_str v) of
             None \<Rightarrow> None
           | Some m \<Rightarrow> parse_float (m_text m))"

definition normalize_bhks :: "pyval \<Rightarrow> pyfloat list" where
  "normalize_bhks v = dedup (List.map_filter normalize_bhk (case v of VList xs \<Rightarrow> xs | _ \<Rightarrow> [v]))"

definition nonempty :: "string \<Rightarrow> string option" where
  "nonempty s = (if s = [] then None else Some s)"

definition market_slug :: "pyval \<Rightarrow> string option" where
  "market_slug v =
     (if \<not> truthy v then None
      else let raw = strip (py_str v) in
        case Option.bind (canonical_micro_market_slug (Some raw)) nonempty of
          Some resolved \<Rightarrow> Some (lower (strip resolved))
        | None \<Rightarrow> nonempty (strip_chars ''-'' (re_sub slug_run_re ''-'' (lower raw))))"

definition opt_float :: "pyval \<Rightarrow> pyfloat option result" where
  "opt_float v = (if is_none v then Inr None else bindE (float_of v) (\<lambda>x. Inr (Some x)))"

definition opt_val :: "pyfloat option \<Rightarrow> pyval" where
  "opt_val x = (case x of Some f \<Rightarrow> VFloat f | None \<Rightarrow> VNone)"

definition nonzero :: "pyfloat option \<Rightarrow> bool" where
  "nonzero x = (x \<noteq> None \<and> x \<noteq> Some (Fin 0))"

definition listing_area :: "pydict \<Rightarrow> pyval" where
  "listing_area listing = or_val (dget listing ''carpet_area_sqft'') (dget listing ''area_sqft'')"

definition listing_price :: "pydict \<Rightarrow> (pyfloat option \<times> bool) result" where
  "listing_price listing =
     (let model = lower (str_or (dget listing ''price_model'')) in
      bindE
        (catchE
          (bindE (opt_float (dget listing ''price'')) (\<lambda>p.
           bindE (opt_float (dget listing ''price_per_sqft'')) (\<lambda>r.
           bindE (opt_float (listing_area listing)) (\<lambda>a. Inr (Some (p, r, a))))))
          [TypeError, ValueError] (Inr None))
        (\<lambda>v. case v of
               None \<Rightarrow> Inr (None, False)
             | Some (p, r, a) \<Rightarrow>
                 if model = ''psf'' \<and> nonzero r \<and> nonzero a
                 then price_total_from_psf (opt_val p) (opt_val r) (opt_val a) psf_tolerance
                 else Inr (p, False)))"

section \<open>The policy\<close>

definition default_policy :: pydict where
  "default_policy =
    [(''minimum_score'', VFloat (Fin 50)), (''max_matches'', VInt 5), (''freshness_days'', VInt 30),
     (''area_tolerance_percent'', VFloat (Fin 20)), (''budget_tolerance_percent'', VFloat (Fin 0)),
     (''allow_missing_bhk'', VBool False), (''allow_missing_price'', VBool True),
     (''allow_missing_area'', VBool True), (''enabled'', VBool True)]"

text \<open>\<open>max(0.0, float(policy[k] or 0)) / 100\<close>.\<close>

definition tolerance_of :: "pydict \<Rightarrow> string \<Rightarrow> pyfloat result" where
  "tolerance_of policy k =
     bindE (float_of (or_val (dget policy k) (VInt 0))) (\<lambda>x. Inr (fdiv (fmax (Fin 0) x) (Fin 100)))"

section \<open>Exclusions\<close>

text \<open>A text field in lower case, with a default for a falsy value.\<close>

definition lower_field :: "pyval \<Rightarrow> string \<Rightarrow> string" where
  "lower_field v d = lower (py_str (or_val v (VStr d)))"

definition same_tenant :: "pydict \<Rightarrow> pydict \<Rightarrow> bool" where
  "same_tenant requirement listing =
     (truthy (dget requirement ''tenant_id'') \<and> truthy (dget listing ''tenant_id'') \<and>
      py_eq (dget listing ''tenant_id'') (dget requirement ''tenant_id''))"

definition active_requirement :: "pydict \<Rightarrow> bool" where
  "active_requirement requirement =
     (lower_field (dget requirement ''status'') ''active'' \<in> {''active'', ''open'', ''pending''})"

definition same_type :: "pydict \<Rightarrow> pydict \<Rightarrow> bool" where
  "same_type requirement listing =
     (case map_of req_types (lower (str_or (dget requirement ''req_type''))) of
        None \<Rightarrow> False
      | Some (asset, transaction) \<Rightarrow>
          dget listing ''asset_type'' = VStr asset \<and> dget listing ''transaction_type'' = VStr transaction)"

definition available_listing :: "pydict \<Rightarrow> bool" where
  "available_listing listing =
     (lower_field (or_val (dget listing ''status'') (dget listing ''lifecycle_status'')) ''active''
        \<in> {''active'', ''open'', ''available'', ''listed''} \<and>
      dget listing ''needs_review'' \<noteq> VBool True \<and>
      lower (str_or (dget listing ''extraction_confidence'')) \<noteq> ''low'')"

text \<open>Only \<open>ValueError\<close> is caught around the expiry.\<close>

definition expired :: "int \<Rightarrow> pydict \<Rightarrow> bool result" where
  "expired now listing =
     (let expires = dget listing ''expires_at'' in
      if \<not> truthy expires then Inr False
      else catchE (bindE (iso_of expires) (\<lambda>d. bindE (instant d) (\<lambda>t. Inr (t \<le> now))))
             [ValueError] (Inr False))"

definition age_in_days :: "int \<Rightarrow> int \<Rightarrow> pyfloat" where
  "age_in_days now t = fdiv (rnd (of_int (now - t) / 1000000)) (Fin 86400)"

definition stale :: "int \<Rightarrow> pydict \<Rightarrow> pydict \<Rightarrow> bool result" where
  "stale now policy listing =
     (let freshness = or_val (dget listing ''updated_at'') (dget listing ''created_at'') in
      if \<not> truthy freshness then Inr False
      else catchE
        (bindE (iso_of freshness) (\<lambda>d. bindE (instant d) (\<lambda>t.
         bindE (int_of (or_val (dget policy ''freshness_days'') (VInt 30))) (\<lambda>k.
           Inr (flt (Fin (of_int (max 1 k))) (age_in_days now t))))))
        [TypeError, ValueError] (Inr False))"

section \<open>Market, bedrooms, budget and area\<close>

definition listing_market :: "pydict \<Rightarrow> string option" where
  "listing_market listing =
     nonempty (lower (str_or (or_val (dget listing ''canonical_micro_market_slug'')
       (case market_slug (dget listing ''locality_resolved'') of Some s \<Rightarrow> VStr s | None \<Rightarrow> VNone))))"

definition building_requested :: "pydict \<Rightarrow> bool" where
  "building_requested requirement = (strip (str_or (dget requirement ''building_name'')) \<noteq> [])"

definition building_match :: "pydict \<Rightarrow> pydict \<Rightarrow> bool option" where
  "building_match requirement listing =
     (if \<not> building_requested requirement then None
      else Some (lower (strip (py_str (dget requirement ''building_name''))) =
                 lower (strip (str_or (dget listing ''building_name'')))))"

definition market_match :: "pydict \<Rightarrow> pydict \<Rightarrow> bool" where
  "market_match requirement listing =
     ((case (market_slug (dget requirement ''micro_market''), listing_market listing) of
         (Some a, Some b) \<Rightarrow> a \<noteq> [] \<and> a = b
       | _ \<Rightarrow> False) \<or> building_match requirement listing = Some True)"

definition market_excluded :: "pydict \<Rightarrow> pydict \<Rightarrow> bool" where
  "market_excluded requirement listing =
     (building_match requirement listing = Some False \<or>
      (Option.bind (market_slug (dget requirement ''micro_market'')) nonempty \<noteq> None \<and>
       \<not> market_match requirement listing))"

definition bhk_options :: "pydict \<Rightarrow> pyfloat list" where
  "bhk_options requirement = normalize_bhks (dget requirement ''bhk_options'')"

definition bhk_match :: "pydict \<Rightarrow> pydict \<Rightarrow> bool" where
  "bhk_match requirement listing =
     (case normalize_bhk (dget listing ''bhk'') of
        Some b \<Rightarrow> list_ex (feq b) (bhk_options requirement)
      | None \<Rightarrow> False)"

text \<open>The budget: \<open>low\<close> and \<open>high\<close>, both unknown when one is no number.\<close>

definition budget :: "pydict \<Rightarrow> (pyfloat option \<times> pyfloat option) result" where
  "budget requirement =
     catchE
       (bindE (opt_float (dget requirement ''budget_min'')) (\<lambda>low.
        bindE (opt_float (dget requirement ''budget_max'')) (\<lambda>high.
          Inr (low, if is_none (dget requirement ''budget_max'') then low else high))))
       [TypeError, ValueError] (Inr (None, None))"

text \<open>The verdict on a criterion: the pair is rejected, or it passes with what it adds.\<close>

datatype 'a verdict = Reject | Pass 'a

definition price_verdict ::
    "pydict \<Rightarrow> pyfloat option \<Rightarrow> pyfloat option \<Rightarrow> pyfloat option \<Rightarrow> bool \<Rightarrow>
     pyfloat option verdict result" where
  "price_verdict policy low high price implausible =
     (case (price, high) of
        (Some p, Some h) \<Rightarrow>
          if flt (Fin 0) h \<and> \<not> implausible then
            bindE (tolerance_of policy ''budget_tolerance_percent'') (\<lambda>tol.
              let lower_ok = (case low of
                    None \<Rightarrow> True
                  | Some l \<Rightarrow> fle (fmul l (fsub (Fin 1) tol)) p \<and> fle p (fmul h (fadd (Fin 1) tol)))
              in Inr (if lower_ok then Pass (Some (Fin 0)) else Reject))
          else if low \<noteq> None \<and> \<not> truthy (dget policy ''allow_missing_price'') then Inr Reject
          else Inr (Pass None)
      | _ \<Rightarrow>
          if low \<noteq> None \<and> \<not> truthy (dget policy ''allow_missing_price'') then Inr Reject
          else Inr (Pass None))"

definition area_bounds :: "pydict \<Rightarrow> pydict \<Rightarrow> (pyfloat \<times> pyfloat) result" where
  "area_bounds policy requirement =
     (let req_min = dget requirement ''carpet_area_min_sqft'';
          req_max = dget requirement ''carpet_area_max_sqft''
      in bindE (float_of (if is_none req_min then req_max else req_min)) (\<lambda>lo.
         bindE (float_of (if is_none req_max then req_min else req_max)) (\<lambda>up.
         bindE (tolerance_of policy ''area_tolerance_percent'') (\<lambda>tol.
           Inr (fmul lo (fsub (Fin 1) tol), fmul up (fadd (Fin 1) tol))))))"

definition area_asked :: "pydict \<Rightarrow> bool" where
  "area_asked requirement =
     (\<not> is_none (dget requirement ''carpet_area_min_sqft'') \<or>
      \<not> is_none (dget requirement ''carpet_area_max_sqft''))"

definition area_verdict :: "pydict \<Rightarrow> pydict \<Rightarrow> pydict \<Rightarrow> bool option verdict result" where
  "area_verdict policy requirement listing =
     (if \<not> area_asked requirement then Inr (Pass None)
      else catchE
        (bindE (area_bounds policy requirement) (\<lambda>(lo, up).
          if is_none (listing_area listing)
          then Inr (if truthy (dget policy ''allow_missing_area'') then Pass None else Reject)
          else bindE (float_of (listing_area listing)) (\<lambda>a.
            Inr (if fle lo a \<and> fle a up then Pass (Some True) else Reject))))
        [TypeError, ValueError] (Inr (Pass None)))"

section \<open>The score\<close>

definition bool_float :: "bool \<Rightarrow> pyfloat" where
  "bool_float b = (if b then Fin 1 else Fin 0)"

definition price_value :: "pyfloat \<Rightarrow> pyfloat" where
  "price_value pm = fmax (Fin 0) (fsub (Fin 1) (fmin pm (Fin 1)))"

definition applicable ::
    "pydict \<Rightarrow> pydict \<Rightarrow> pyfloat option \<Rightarrow> pyfloat option \<Rightarrow> bool option \<Rightarrow> (pyfloat \<times> int) list" where
  "applicable requirement listing low price_match area_match =
     [(bool_float (market_match requirement listing), 20)]
     @ (if bhk_options requirement \<noteq> [] then [(bool_float (bhk_match requirement listing), 25)] else [])
     @ (if building_requested requirement
        then [(bool_float (building_match requirement listing = Some True), 30)] else [])
     @ (case (low, price_match) of (Some _, Some pm) \<Rightarrow> [(price_value pm, 25)] | _ \<Rightarrow> [])
     @ (case area_match of Some a \<Rightarrow> [(bool_float a, 10)] | None \<Rightarrow> [])"

definition weighted_score :: "(pyfloat \<times> int) list \<Rightarrow> pyfloat" where
  "weighted_score vs =
     (let total = sum_list (map snd vs)
      in fmul
           (fdiv (foldl (\<lambda>acc (v, w). fadd acc (fmul v (fint w))) (Fin 0) vs)
             (fint (if total = 0 then 1 else total)))
           (Fin 100))"

record matched =
  mt_requirement_id :: pyval
  mt_listing_id :: pyval
  mt_score :: pyfloat
  mt_bhk :: bool
  mt_market :: bool
  mt_price :: "pyfloat option"
  mt_building :: "bool option"
  mt_intent :: bool
  mt_implausible :: bool
  mt_broker_id :: pyval
  mt_building_name :: pyval
  mt_listing :: pydict
  mt_reasons :: "string list"
  mt_unknown :: "string list"

definition labels :: "(bool \<times> string) list \<Rightarrow> string list" where
  "labels xs = map snd (filter fst xs)"

definition final_score :: "(pyfloat \<times> int) list \<Rightarrow> bool \<Rightarrow> pyfloat" where
  "final_score vs implausible =
     (let score = weighted_score vs
      in fround 2 (if implausible then fmul score (flit (8 / 10)) else score))"

definition make_match ::
    "pydict \<Rightarrow> pydict \<Rightarrow> pyfloat option \<Rightarrow> bool \<Rightarrow> pyfloat option \<Rightarrow> pyfloat option \<Rightarrow> bool option \<Rightarrow> matched" where
  "make_match requirement listing price implausible low price_match area_match =
     (let has_bhk = (bhk_options requirement \<noteq> []) in
      \<lparr>mt_requirement_id = dget requirement ''id'', mt_listing_id = dget listing ''id'',
       mt_score = final_score (applicable requirement listing low price_match area_match) implausible,
       mt_bhk = bhk_match requirement listing, mt_market = market_match requirement listing,
       mt_price = price_match, mt_building = building_match requirement listing, mt_intent = True,
       mt_implausible = implausible, mt_broker_id = dget listing ''broker_id'',
       mt_building_name = dget listing ''building_name'', mt_listing = listing,
       mt_reasons = labels
         [(building_match requirement listing = Some True, ''building''),
          (market_match requirement listing, ''market''),
          (has_bhk \<and> bhk_match requirement listing, ''BHK''),
          (price_match = Some (Fin 0), ''budget''),
          (area_match = Some True, ''area'')],
       mt_unknown = labels
         [(has_bhk \<and> \<not> nonzero (normalize_bhk (dget listing ''bhk'')), ''BHK''),
          (low \<noteq> None \<and> \<not> nonzero price, ''budget''),
          (area_asked requirement \<and> \<not> truthy (listing_area listing), ''area'')]\<rparr>)"

text \<open>Price, area and score of a pair that passed the other exclusions.\<close>

definition score_pair :: "pydict \<Rightarrow> pydict \<Rightarrow> pydict \<Rightarrow> matched option result" where
  "score_pair policy requirement listing =
     bindE (listing_price listing) (\<lambda>(price, implausible).
     bindE (budget requirement) (\<lambda>(low, high).
     bindE (price_verdict policy low high price implausible) (\<lambda>pv.
       case pv of
         Reject \<Rightarrow> Inr None
       | Pass price_match \<Rightarrow>
           bindE (area_verdict policy requirement listing) (\<lambda>av.
             case av of
               Reject \<Rightarrow> Inr None
             | Pass area_match \<Rightarrow>
                 Inr (Some (make_match requirement listing price implausible low price_match area_match))))))"

definition policy_of :: "pydict option \<Rightarrow> pydict" where
  "policy_of policy0 = dupdate default_policy (case policy0 of Some p \<Rightarrow> p | None \<Rightarrow> [])"

definition score_candidate ::
    "int \<Rightarrow> pydict \<Rightarrow> pydict \<Rightarrow> pydict option \<Rightarrow> matched option result" where
  "score_candidate now requirement listing policy0 =
     (let policy = policy_of policy0 in
      if \<not> same_tenant requirement listing \<or> \<not> active_requirement requirement
         \<or> \<not> same_type requirement listing \<or> \<not> available_listing listing
      then Inr None
      else
        bindE (expired now listing) (\<lambda>exp. if exp then Inr None else
        bindE (stale now policy listing) (\<lambda>old. if old then Inr None
        else if market_excluded requirement listing then Inr None
        else if bhk_options requirement \<noteq> [] \<and> \<not> bhk_match requirement listing
                \<and> \<not> truthy (dget policy ''allow_missing_bhk'') then Inr None
        else score_pair policy requirement listing)))"

section \<open>The selection\<close>

definition match_key :: "matched \<Rightarrow> pyval \<times> pyval" where
  "match_key m =
     (let l = mt_listing m
      in (or_val (dget l ''card_type'') (dget l ''asset_type''), dget l ''id''))"

definition key_eq :: "pyval \<times> pyval \<Rightarrow> pyval \<times> pyval \<Rightarrow> bool" where
  "key_eq a b = (py_eq (fst a) (fst b) \<and> py_eq (snd a) (snd b))"

fun cap_loop :: "int \<Rightarrow> pyfloat \<Rightarrow> matched list \<Rightarrow> matched list \<Rightarrow> matched list result" where
  "cap_loop cap minimum chosen [] = Inr chosen"
| "cap_loop cap minimum chosen (m # xs) =
     (if flt (mt_score m) minimum then cap_loop cap minimum chosen xs
      else if \<not> hashable (fst (match_key m)) \<or> \<not> hashable (snd (match_key m)) then Inl TypeError
      else if list_ex (\<lambda>c. key_eq (match_key m) (match_key c)) chosen then cap_loop cap minimum chosen xs
      else if cap \<le> int (length chosen) + 1 then Inr (chosen @ [m])
      else cap_loop cap minimum (chosen @ [m]) xs)"

definition cap_matches :: "matched list \<Rightarrow> int \<Rightarrow> pyfloat \<Rightarrow> matched list result" where
  "cap_matches xs cap minimum = cap_loop cap minimum [] (sorted_desc mt_score xs)"

section \<open>Facts\<close>

definition eligible :: "int \<Rightarrow> pydict \<Rightarrow> pydict \<Rightarrow> pydict \<Rightarrow> bool" where
  "eligible now policy requirement listing =
     (same_tenant requirement listing \<and> active_requirement requirement \<and> same_type requirement listing \<and>
      available_listing listing \<and> expired now listing = Inr False \<and>
      stale now policy listing = Inr False \<and> \<not> market_excluded requirement listing \<and>
      (bhk_options requirement = [] \<or> bhk_match requirement listing
         \<or> truthy (dget policy ''allow_missing_bhk'')))"

lemma verdict_Some:
  "(case v of Reject \<Rightarrow> Inr None | Pass x \<Rightarrow> f x) = Inr (Some m) \<longleftrightarrow>
   (\<exists>x. v = Pass x \<and> f x = Inr (Some m))"
  by (cases v) simp_all

lemma score_pair_Some:
  "score_pair policy requirement listing = Inr (Some m) \<longleftrightarrow>
   (\<exists>price implausible low high price_match area_match.
      listing_price listing = Inr (price, implausible) \<and> budget requirement = Inr (low, high) \<and>
      price_verdict policy low high price implausible = Inr (Pass price_match) \<and>
      area_verdict policy requirement listing = Inr (Pass area_match) \<and>
      m = make_match requirement listing price implausible low price_match area_match)"
  unfolding score_pair_def by (auto simp: bindE_Inr_iff verdict_Some)

text \<open>A match is what passes every exclusion, and nothing else is one.\<close>

lemma score_candidate_Some:
  "score_candidate now requirement listing policy0 = Inr (Some m) \<longleftrightarrow>
   eligible now (policy_of policy0) requirement listing \<and>
   score_pair (policy_of policy0) requirement listing = Inr (Some m)"
  unfolding score_candidate_def eligible_def Let_def
  by (auto simp: bindE_Inr_iff simp del: not_Some_eq split: if_split_asm)

section \<open>The score\<close>

text \<open>Every criterion adds all of its weight or nothing: the sum is exact.\<close>

definition flag_value :: "pyfloat \<times> int \<Rightarrow> bool" where
  "flag_value x = ((fst x = Fin 0 \<or> fst x = Fin 1) \<and> 0 < snd x)"

definition earned :: "(pyfloat \<times> int) list \<Rightarrow> int" where
  "earned vs = sum_list (map snd (filter (\<lambda>x. fst x = Fin 1) vs))"

definition weight :: "(pyfloat \<times> int) list \<Rightarrow> int" where
  "weight vs = sum_list (map snd vs)"

lemma earned_bounds: "list_all flag_value vs \<Longrightarrow> 0 \<le> earned vs \<and> earned vs \<le> weight vs"
  by (induction vs) (auto simp: earned_def weight_def flag_value_def)

lemma earned_all: "list_all (\<lambda>x. fst x = Fin 1) vs \<Longrightarrow> earned vs = weight vs"
  by (induction vs) (auto simp: earned_def weight_def)

lemma sum_exact:
  assumes "list_all flag_value vs" "0 \<le> a" "a + weight vs < 2 ^ 53"
  shows "foldl (\<lambda>acc (v, w). fadd acc (fmul v (fint w))) (Fin (of_int a)) vs = Fin (of_int (a + earned vs))"
  using assms
proof (induction vs arbitrary: a)
  case (Cons x vs)
  obtain v w where x: "x = (v, w)" by (cases x)
  have w: "0 < w" and v: "v = Fin 0 \<or> v = Fin 1" using Cons.prems x by (auto simp: flag_value_def)
  have rest: "0 \<le> weight vs" using earned_bounds [of vs] Cons.prems(1) by auto
  have sum: "a + w + weight vs < 2 ^ 53" using Cons.prems(3) x by (simp add: weight_def)
  then have "fint w = Fin (of_int w)" using w rest Cons.prems(2) by (simp add: fint_def rnd_of_int)
  moreover have "rnd (of_int (a + w)) = Fin (of_int (a + w))"
    by (rule rnd_of_int) (use sum w rest Cons.prems(2) in simp)
  moreover have "rnd (of_int a) = Fin (of_int a)" "rnd (of_int w) = Fin (of_int w)"
    using w rest Cons.prems(2) sum by (auto intro!: rnd_of_int)
  ultimately have step: "fadd (Fin (of_int a)) (fmul v (fint w)) = Fin (of_int (a + (if v = Fin 1 then w else 0)))"
    using v by (auto simp: fmul_def)
  have "foldl (\<lambda>acc (v, w). fadd acc (fmul v (fint w))) (Fin (of_int a)) (x # vs) =
      foldl (\<lambda>acc (v, w). fadd acc (fmul v (fint w))) (Fin (of_int (a + (if v = Fin 1 then w else 0)))) vs"
    by (simp add: x step)
  also have "\<dots> = Fin (of_int (a + (if v = Fin 1 then w else 0) + earned vs))"
    using Cons.prems w sum x by (intro Cons.IH) auto
  also have "a + (if v = Fin 1 then w else 0) + earned vs = a + earned (x # vs)"
    by (simp add: earned_def x)
  finally show ?case .
qed (simp add: earned_def)

lemma weighted_score_exact:
  assumes "list_all flag_value vs" "weight vs < 2 ^ 53" "0 < weight vs"
  shows "weighted_score vs = fmul (rnd (of_int (earned vs) / of_int (weight vs))) (Fin 100)"
proof -
  have "fint (weight vs) = Fin (of_int (weight vs))" using assms by (simp add: fint_def rnd_of_int)
  then show ?thesis
    using sum_exact [OF assms(1), of 0] assms(2,3)
    by (simp add: weighted_score_def Let_def weight_def [symmetric] fdiv_def)
qed

lemma weighted_score_bounds:
  assumes "list_all flag_value vs" "weight vs < 2 ^ 53" "0 < weight vs"
  shows "in_bounds (weighted_score vs) 100"
proof -
  have "(of_int (earned vs) / of_int (weight vs) :: rat) \<le> of_int 1"
    using earned_bounds [OF assms(1)] assms(3) by (simp add: divide_le_eq)
  then have "in_bounds (rnd (of_int (earned vs) / of_int (weight vs))) 1"
    using earned_bounds [OF assms(1)] by (intro rnd_in_bounds) auto
  moreover have "in_bounds (Fin 100) 100" by (simp add: in_bounds_def)
  ultimately show ?thesis
    using fmul_in_bounds [of _ 1 "Fin 100" 100] by (simp add: weighted_score_exact [OF assms])
qed

lemma discount_in_bounds: "in_bounds (flit (8 / 10)) 1"
  unfolding flit_def by (rule rnd_in_bounds) simp_all

lemma final_score_bounds:
  assumes "list_all flag_value vs" "weight vs < 2 ^ 53" "0 < weight vs"
  shows "in_bounds (final_score vs implausible) 100"
  using weighted_score_bounds [OF assms] fmul_in_bounds [OF weighted_score_bounds [OF assms] discount_in_bounds]
  by (auto simp: final_score_def Let_def intro: fround_in_bounds)

lemma price_verdict_pass: "price_verdict policy low high price i = Inr (Pass pm) \<Longrightarrow> pm = None \<or> pm = Some (Fin 0)"
  by (auto simp: price_verdict_def bindE_Inr_iff Let_def split: option.splits if_splits)

lemma area_verdict_pass: "area_verdict policy requirement listing = Inr (Pass am) \<Longrightarrow> am = None \<or> am = Some True"
  by (auto simp: area_verdict_def catchE_def bindE_Inr_iff split: option.splits if_splits sum.splits)

lemma price_value_0: "price_value (Fin 0) = Fin 1"
  by (simp add: price_value_def fmin_def fmax_def fsub_def)

lemma applicable_flags:
  assumes "pm = None \<or> pm = Some (Fin 0)"
  shows "list_all flag_value (applicable requirement listing low pm am)"
    and "0 < weight (applicable requirement listing low pm am)"
    and "weight (applicable requirement listing low pm am) \<le> 110"
  using assms
  by (auto simp: applicable_def flag_value_def bool_float_def weight_def price_value_0 split: option.splits)

lemma discount_value: "flit (8 / 10) = Fin (3602879701896397 / 4503599627370496)"
  by (simp add: float_eval)

lemma discounted: "rnd (100 * (3602879701896397 / 4503599627370496)) = Fin 80"
  by (simp add: float_eval)

lemma final_score_full:
  assumes "list_all flag_value vs" "weight vs < 2 ^ 53" "0 < weight vs" "list_all (\<lambda>x. fst x = Fin 1) vs"
  shows "final_score vs implausible = (if implausible then Fin 80 else Fin 100)"
proof -
  have "weighted_score vs = fmul (Fin 1) (Fin 100)"
    using weighted_score_exact [OF assms(1-3)] earned_all [OF assms(4)] assms(3) by simp
  then have w: "weighted_score vs = Fin 100" by (simp add: fmul_def rnd_numeral)
  have "fround 2 (Fin 100) = Fin 100" "fround 2 (Fin 80) = Fin 80" by code_simp+
  moreover have "fmul (Fin 100) (flit (8 / 10)) = Fin 80"
    by (simp only: discount_value fmul_def prod.case pyfloat.case discounted)
  ultimately show ?thesis by (simp add: final_score_def Let_def w)
qed

lemma eligible_flags:
  assumes "eligible now policy requirement listing"
    and "market_match requirement listing" and "\<not> truthy (dget policy ''allow_missing_bhk'')"
    and "pm = None \<or> pm = Some (Fin 0)" and "am = None \<or> am = Some True"
  shows "list_all (\<lambda>x. fst x = Fin 1) (applicable requirement listing low pm am)"
proof -
  have bhk: "bhk_options requirement \<noteq> [] \<Longrightarrow> bhk_match requirement listing"
    using assms(1,3) by (simp add: eligible_def)
  have building: "building_requested requirement \<Longrightarrow> building_match requirement listing = Some True"
    using assms(1) by (cases "building_match requirement listing")
      (simp_all add: eligible_def market_excluded_def building_match_def)
  show ?thesis
    using assms(2,4,5) bhk building
    by (auto simp: applicable_def bool_float_def price_value_0 split: option.splits)
qed

lemma eligible_market:
  "eligible now policy requirement listing \<Longrightarrow> building_requested requirement \<Longrightarrow>
   market_match requirement listing"
  by (auto simp: eligible_def market_excluded_def market_match_def building_match_def split: if_splits)

lemma eligible_slug:
  "eligible now policy requirement listing \<Longrightarrow> market_slug (dget requirement ''micro_market'') = Some slug \<Longrightarrow>
   slug \<noteq> [] \<Longrightarrow> market_match requirement listing"
  by (auto simp: eligible_def market_excluded_def nonempty_def)

lemma score_candidate_parts:
  assumes "score_candidate now requirement listing policy0 = Inr (Some m)"
  obtains price implausible low high pm am where
    "eligible now (policy_of policy0) requirement listing"
    "listing_price listing = Inr (price, implausible)" "budget requirement = Inr (low, high)"
    "price_verdict (policy_of policy0) low high price implausible = Inr (Pass pm)"
    "area_verdict (policy_of policy0) requirement listing = Inr (Pass am)"
    "m = make_match requirement listing price implausible low pm am"
    "pm = None \<or> pm = Some (Fin 0)" "am = None \<or> am = Some True"
  using assms price_verdict_pass area_verdict_pass
  unfolding score_candidate_Some score_pair_Some by blast

lemma make_match_score:
  "mt_score (make_match requirement listing price implausible low pm am) =
   final_score (applicable requirement listing low pm am) implausible"
  "mt_implausible (make_match requirement listing price implausible low pm am) = implausible"
  by (simp_all add: make_match_def Let_def)

section \<open>The selection\<close>

definition kept_ok :: "int \<Rightarrow> pyfloat \<Rightarrow> matched list \<Rightarrow> bool" where
  "kept_ok cap minimum chosen =
     (int (length chosen) \<le> max 1 cap \<and> (\<forall>m \<in> set chosen. \<not> flt (mt_score m) minimum) \<and>
      sorted_wrt (\<lambda>a b. mt_score b \<le> mt_score a \<and> \<not> key_eq (match_key b) (match_key a)) chosen)"

lemma cap_loop_ok:
  assumes "cap_loop cap minimum chosen xs = Inr ys" "kept_ok cap minimum chosen"
    and "chosen = [] \<or> int (length chosen) < cap"
    and "sorted_wrt (\<lambda>a b. mt_score b \<le> mt_score a) xs"
    and "\<forall>c \<in> set chosen. \<forall>x \<in> set xs. mt_score x \<le> mt_score c"
  shows "kept_ok cap minimum ys \<and> set ys \<subseteq> set chosen \<union> set xs"
  using assms
proof (induction cap minimum chosen xs rule: cap_loop.induct)
  case (2 cap minimum chosen m xs)
  let ?k = "\<lambda>c. key_eq (match_key m) (match_key c)"
  show ?case
  proof (cases "flt (mt_score m) minimum \<or> list_ex ?k chosen")
    case True
    with 2 show ?thesis by (auto split: if_splits)
  next
    case False
    then have "kept_ok cap minimum (chosen @ [m])"
      using "2.prems" by (auto simp: kept_ok_def sorted_wrt_append list_ex_iff)
    moreover have "\<forall>c \<in> set (chosen @ [m]). \<forall>x \<in> set xs. mt_score x \<le> mt_score c" using "2.prems" by auto
    ultimately show ?thesis using "2.prems" "2.IH"(3) False by (auto split: if_splits)
  qed
qed simp

section \<open>Properties\<close>

text \<open>
  C4: A match never crosses a tenant, a kind of deal or a requested building.  Whenever
  \<open>score_candidate\<close> answers a match, both sides carry the same non-empty tenant, the listing's
  asset and transaction type are the ones of the requirement's type, and a requested building is the
  listing's building (up to case and surrounding blanks).  A requirement that requests no building but a market
  with a slug is matched in that market only; one that requests a building is matched in it whatever the market.
\<close>

theorem match_identity:
  assumes "score_candidate now requirement listing policy0 = Inr (Some m)"
  shows "truthy (dget requirement ''tenant_id'') \<and>
    py_eq (dget listing ''tenant_id'') (dget requirement ''tenant_id'') \<and>
    map_of req_types (lower (str_or (dget requirement ''req_type''))) \<in>
      {Some (asset, transaction) | asset transaction.
         dget listing ''asset_type'' = VStr asset \<and> dget listing ''transaction_type'' = VStr transaction} \<and>
    (if building_requested requirement
     then lower (strip (py_str (dget requirement ''building_name''))) =
          lower (strip (str_or (dget listing ''building_name'')))
     else case Option.bind (market_slug (dget requirement ''micro_market'')) nonempty of
            Some slug \<Rightarrow> listing_market listing = Some slug
          | None \<Rightarrow> True)"
proof -
  from assms have e: "eligible now (policy_of policy0) requirement listing"
    by (rule score_candidate_parts)
  have "(case Option.bind (market_slug (dget requirement ''micro_market'')) nonempty of
      Some slug \<Rightarrow> listing_market listing = Some slug | None \<Rightarrow> True)"
    if nb: "\<not> building_requested requirement"
  proof (cases "Option.bind (market_slug (dget requirement ''micro_market'')) nonempty")
    case (Some slug)
    then have s: "market_slug (dget requirement ''micro_market'') = Some slug" "slug \<noteq> []"
      by (auto simp: nonempty_def bind_eq_Some_conv split: if_splits)
    from eligible_slug [OF e s] nb s show ?thesis
      by (auto simp: Some [unfolded s] market_match_def building_match_def nonempty_def split: option.splits)
  qed simp
  then show ?thesis
    using e by (auto simp: eligible_def same_tenant_def same_type_def market_excluded_def building_match_def
        split: option.splits)
qed

text \<open>
  C7: A match respects a budget with two ends, and an area that is asked.  When the listing has a price that is
  known and not implausible, and both ends of the budget are known and the upper one is positive, the price
  of a match lies between the ends widened by the budget tolerance.  When an area is asked and the listing's area
  is known, the area of a match lies between its bounds.  Each holds without the other; nothing is said
  of an implausible price or of a budget with one end (\<open>upper_budget_ignored\<close>).
\<close>

theorem match_in_budget:
  assumes "score_candidate now requirement listing policy0 = Inr (Some m)"
  shows "(\<forall>p low high tol.
      listing_price listing = Inr (Some p, False) \<and> budget requirement = Inr (Some low, Some high) \<and> flt (Fin 0) high \<and>
      tolerance_of (policy_of policy0) ''budget_tolerance_percent'' = Inr tol \<longrightarrow>
      fle (fmul low (fsub (Fin 1) tol)) p \<and> fle p (fmul high (fadd (Fin 1) tol))) \<and>
    (\<forall>lo up a.
      area_asked requirement \<and> area_bounds (policy_of policy0) requirement = Inr (lo, up) \<and>
      \<not> is_none (listing_area listing) \<and> float_of (listing_area listing) = Inr a \<longrightarrow> fle lo a \<and> fle a up)"
  by (rule score_candidate_parts [OF assms(1)]; intro conjI allI impI; elim conjE)
    (auto simp: price_verdict_def area_verdict_def Let_def split: if_splits)

text \<open>
  A budget with only an upper end restricts nothing.  A requirement with a \<open>budget_max\<close> and
  no \<open>budget_min\<close> matches an otherwise eligible listing at any price, however far above the
  maximum.
\<close>

theorem upper_budget_ignored:
  assumes "eligible now (policy_of policy0) requirement listing"
    and "dget requirement ''budget_min'' = VNone"
    and "float_of (dget requirement ''budget_max'') = Inr high"
    and "listing_price listing = Inr (Some price, False)"
    and "tolerance_of (policy_of policy0) ''budget_tolerance_percent'' = Inr tol"
    and "\<not> area_asked requirement"
  shows "\<exists>m. score_candidate now requirement listing policy0 = Inr (Some m) \<and> mt_listing m = listing"
proof -
  have "budget requirement = Inr (None, Some high) \<or> budget requirement = Inr (None, None)"
    using assms(2,3) by (auto simp: budget_def opt_float_def is_none_def)
  then obtain h where h: "budget requirement = Inr (None, h)" by blast
  have "\<exists>pm. price_verdict (policy_of policy0) None h (Some price) False = Inr (Pass pm)"
    using assms(5) by (cases h) (simp_all add: price_verdict_def Let_def)
  then obtain pm where "price_verdict (policy_of policy0) None h (Some price) False = Inr (Pass pm)" ..
  moreover have "area_verdict (policy_of policy0) requirement listing = Inr (Pass None)"
    using assms(6) by (simp add: area_verdict_def)
  ultimately have
    "score_candidate now requirement listing policy0 = Inr (Some (make_match requirement listing (Some price) False None pm None))"
    using assms(1,4) h unfolding score_candidate_Some score_pair_Some by blast
  then show ?thesis by (intro exI conjI) (assumption, simp add: make_match_def Let_def)
qed

text \<open>
  C24: Scores are between 0 and 100, and under a policy that does not set \<open>allow_missing_bhk\<close> they do not
  rank.  Every score lies in that range; and unless that preference is set, every match of a requirement that
  names a building or a market with a slug scores exactly 100, or exactly 80 when its price is implausible.
\<close>

theorem score_range:
  assumes "score_candidate now requirement listing policy0 = Inr (Some m)"
  shows "in_bounds (mt_score m) 100 \<and>
    (\<not> truthy (dget (policy_of policy0) ''allow_missing_bhk'') \<and>
     (building_requested requirement \<or>
        Option.bind (market_slug (dget requirement ''micro_market'')) nonempty \<noteq> None) \<longrightarrow>
     mt_score m = (if mt_implausible m then Fin 80 else Fin 100))"
proof (intro conjI impI; (elim conjE)?)
  from assms show "in_bounds (mt_score m) 100"
  proof (rule score_candidate_parts)
    fix price implausible low high pm am
    assume "m = make_match requirement listing price implausible low pm am" "pm = None \<or> pm = Some (Fin 0)"
    then show ?thesis
      using applicable_flags [of pm requirement listing low am]
      by (auto simp: make_match_score intro!: final_score_bounds)
  qed
  assume nb: "\<not> truthy (dget (policy_of policy0) ''allow_missing_bhk'')"
    and asked: "building_requested requirement \<or>
        Option.bind (market_slug (dget requirement ''micro_market'')) nonempty \<noteq> None"
  from assms show "mt_score m = (if mt_implausible m then Fin 80 else Fin 100)"
  proof (rule score_candidate_parts)
    fix price implausible low high pm am
    assume e: "eligible now (policy_of policy0) requirement listing"
      and m: "m = make_match requirement listing price implausible low pm am"
      and pm: "pm = None \<or> pm = Some (Fin 0)" and am: "am = None \<or> am = Some True"
    have "market_match requirement listing" using asked eligible_market [OF e] eligible_slug [OF e]
      by (auto simp: nonempty_def bind_eq_Some_conv split: if_splits)
    from eligible_flags [OF e this nb pm am] applicable_flags [OF pm, of requirement listing low am]
    show ?thesis by (simp add: m make_match_score final_score_full)
  qed
qed

text \<open>
  C20: The selection keeps the best matches.  \<open>cap_matches\<close> returns at most \<open>max 1 cap\<close> of the
  candidates, none below the minimum score, best first, and never the same typed listing twice.
\<close>

theorem cap_matches_ok:
  assumes "cap_matches xs cap minimum = Inr ys"
  shows "int (length ys) \<le> max 1 cap \<and> set ys \<subseteq> set xs \<and>
    list_all (\<lambda>m. \<not> flt (mt_score m) minimum) ys \<and>
    sorted_wrt (\<lambda>a b. mt_score b \<le> mt_score a \<and> \<not> key_eq (match_key b) (match_key a)) ys"
proof -
  have "kept_ok cap minimum ys \<and> set ys \<subseteq> set [] \<union> set (sorted_desc mt_score xs)"
    using assms unfolding cap_matches_def
    by (rule cap_loop_ok) (simp_all add: kept_ok_def sorted_desc_order)
  then show ?thesis by (simp add: kept_ok_def list_all_iff)
qed

text \<open>
  An expiry without a zone stops the matching.  The parsed \<open>expires_at\<close> is compared with an aware
  clock inside a handler for \<open>ValueError\<close> only: for a pair that passes the earlier checks, an expiry
  that parses to a date-time without an offset raises \<open>TypeError\<close> out of \<open>score_candidate\<close>.
\<close>

theorem naive_expiry_raises:
  assumes "same_tenant requirement listing" "active_requirement requirement" "same_type requirement listing"
    and "available_listing listing" and "truthy (dget listing ''expires_at'')"
    and "iso_of (dget listing ''expires_at'') = Inr d" and "dt_offset d = None"
  shows "score_candidate now requirement listing policy0 = Inl TypeError"
  using assms by (simp add: score_candidate_def expired_def Let_def instant_def)

section \<open>Examples\<close>

definition sample_requirement :: pydict where
  "sample_requirement =
    [(''tenant_id'', VStr ''t1''), (''id'', VInt 1), (''req_type'', VStr ''residential_rent''),
     (''micro_market'', VStr ''Bandra West''), (''bhk_options'', VList [VInt 2]), (''budget_min'', VInt 40000),
     (''budget_max'', VInt 60000), (''carpet_area_min_sqft'', VInt 600), (''carpet_area_max_sqft'', VInt 900)]"
definition sample_listing :: pydict where
  "sample_listing =
    [(''tenant_id'', VStr ''t1''), (''id'', VInt 7), (''asset_type'', VStr ''residential''),
     (''transaction_type'', VStr ''rent''), (''status'', VStr ''active''),
     (''created_at'', VStr ''2024-01-01T00:00:00+00:00''), (''locality_resolved'', VStr ''Bandra West''),
     (''bhk'', VStr ''2 BHK''), (''price'', VInt 50000), (''carpet_area_sqft'', VInt 700)]"
definition sample_policy :: pydict where
  "sample_policy = [(''area_tolerance_percent'', VInt 0)]"
definition sample_now :: int where
  "sample_now = 63839750400000000"
definition upper_requirement :: pydict where
  "upper_requirement =
    [(''tenant_id'', VStr ''t1''), (''req_type'', VStr ''residential_rent''), (''budget_max'', VInt 60000)]"

definition dear_listing :: pydict where
  "dear_listing =
    [(''tenant_id'', VStr ''t1''), (''asset_type'', VStr ''residential''), (''transaction_type'', VStr ''rent''),
     (''price'', VInt 5000000)]"

definition dated_listing :: pydict where
  "dated_listing = dput sample_listing ''expires_at'' (VStr ''2024-01-01'')"

definition sample_match :: matched where
  "sample_match =
     make_match sample_requirement sample_listing (Some (Fin 50000)) False (Some (Fin 40000))
       (Some (Fin 0)) (Some True)"

lemma sample_eligible:
  "eligible sample_now (policy_of (Some sample_policy)) sample_requirement sample_listing"
  by code_simp

lemma sample_facts:
  "listing_price sample_listing = Inr (Some (Fin 50000), False)"
  "budget sample_requirement = Inr (Some (Fin 40000), Some (Fin 60000))"
  "tolerance_of (policy_of (Some sample_policy)) ''budget_tolerance_percent'' = Inr (Fin 0)"
  "area_bounds (policy_of (Some sample_policy)) sample_requirement = Inr (Fin 600, Fin 900)"
  "float_of (listing_area sample_listing) = Inr (Fin 700)"
  "price_verdict (policy_of (Some sample_policy)) (Some (Fin 40000)) (Some (Fin 60000))
     (Some (Fin 50000)) False = Inr (Pass (Some (Fin 0)))"
  "area_verdict (policy_of (Some sample_policy)) sample_requirement sample_listing = Inr (Pass (Some True))"
  by code_simp+

lemma sample_scored:
  "score_candidate sample_now sample_requirement sample_listing (Some sample_policy) = Inr (Some sample_match)"
  unfolding score_candidate_Some score_pair_Some sample_match_def using sample_eligible sample_facts by blast

theorem match_identity_witness:
  "truthy (dget sample_requirement ''tenant_id'') \<and>
   py_eq (dget sample_listing ''tenant_id'') (dget sample_requirement ''tenant_id'')"
  using match_identity [OF sample_scored] by blast

theorem match_in_budget_witness:
  "fle (fmul (Fin 40000) (fsub (Fin 1) (Fin 0))) (Fin 50000) \<and>
   fle (Fin 50000) (fmul (Fin 60000) (fadd (Fin 1) (Fin 0))) \<and> fle (Fin 600) (Fin 700) \<and> fle (Fin 700) (Fin 900)"
proof -
  have "area_asked sample_requirement" "\<not> is_none (listing_area sample_listing)" by code_simp+
  then show ?thesis using match_in_budget [OF sample_scored] sample_facts by simp
qed

theorem upper_budget_ignored_witness:
  "\<exists>m. score_candidate 0 upper_requirement dear_listing None = Inr (Some m) \<and> mt_listing m = dear_listing"
proof (rule upper_budget_ignored [where high = "Fin 60000" and price = "Fin 5000000" and tol = "Fin 0"])
  show "eligible 0 (policy_of None) upper_requirement dear_listing" by code_simp
  show "dget upper_requirement ''budget_min'' = VNone" by code_simp
  show "float_of (dget upper_requirement ''budget_max'') = Inr (Fin 60000)" by code_simp
  show "listing_price dear_listing = Inr (Some (Fin 5000000), False)" by code_simp
  show "tolerance_of (policy_of None) ''budget_tolerance_percent'' = Inr (Fin 0)" by code_simp
  show "\<not> area_asked upper_requirement" by code_simp
qed

lemma sample_policy_bhk: "\<not> truthy (dget (policy_of (Some sample_policy)) ''allow_missing_bhk'')"
  by code_simp

lemma sample_market: "Option.bind (market_slug (dget sample_requirement ''micro_market'')) nonempty \<noteq> None"
  by code_simp

theorem score_range_witness: "mt_score sample_match = Fin 100"
  using score_range [OF sample_scored] sample_policy_bhk sample_market
  by (simp add: sample_match_def make_match_score)

theorem cap_matches_ok_witness:
  "int (length [sample_match]) \<le> max 1 5 \<and> list_all (\<lambda>m. \<not> flt (mt_score m) (Fin 50)) [sample_match]"
proof -
  have "mt_score sample_match = Fin 100" by code_simp
  moreover have "hashable (fst (match_key sample_match)) \<and> hashable (snd (match_key sample_match))" by code_simp
  moreover have "key_eq (match_key sample_match) (match_key sample_match)" by code_simp
  ultimately have "cap_matches [sample_match, sample_match] 5 (Fin 50) = Inr [sample_match]"
    by (simp add: cap_matches_def sorted_desc_def)
  from cap_matches_ok [OF this] show ?thesis by blast
qed

theorem naive_expiry_raises_witness:
  "score_candidate 0 sample_requirement dated_listing None = Inl TypeError"
proof (rule naive_expiry_raises)
  show "iso_of (dget dated_listing ''expires_at'') = Inr \<lparr>dt_local = 63839664000000000, dt_offset = None\<rparr>"
    by code_simp
  show "same_tenant sample_requirement dated_listing" "active_requirement sample_requirement"
    "same_type sample_requirement dated_listing" "available_listing dated_listing"
    "truthy (dget dated_listing ''expires_at'')" by code_simp+
qed simp

end
