(* ===== verification/SourceAuthority.thy ===== *)
theory SourceAuthority
  imports PyVal
begin

text \<open>
  \<open>source_authority.py\<close>: whether a value found in the source may replace the value a model
  extracted, field by field, and what has to be reviewed.
\<close>

section \<open>Evidence and decisions\<close>

datatype action = Trust_AI | Correct_From_Source | Review_Preserve_AI | Missing_Needs_Review

record evidence =
  ev_field :: string
  ev_value :: pyval
  ev_span :: "(int \<times> int) option"
  ev_rule :: string
  ev_confidence :: pyfloat
  ev_explicit :: bool
  ev_unique :: bool
  ev_slice_id :: "string option"

record decision =
  fd_field :: string
  fd_action :: action
  fd_ai :: pyval
  fd_final :: pyval
  fd_candidate :: pyval
  fd_evidence :: "evidence option"
  fd_confidence :: pyfloat
  fd_reasons :: "string list"
  fd_preserved :: bool

text \<open>An entry of \<open>provenance[''field_decisions'']\<close>, and the provenance.\<close>

record prov_entry =
  pe_action :: action
  pe_ai :: pyval
  pe_candidate :: pyval
  pe_rule :: "string option"
  pe_span :: "(int \<times> int) option"
  pe_slice_id :: "string option"
  pe_reasons :: "string list"

record provenance =
  pv_ai_values :: pydict
  pv_decisions :: "(string \<times> prov_entry) list"
  pv_text_available :: bool
  pv_slice :: "string option"

record authority =
  sa_values :: pydict
  sa_decisions :: "decision list"
  sa_review :: bool
  sa_flags :: "string list"
  sa_provenance :: provenance

section \<open>Comparison\<close>

definition correction_margin_default :: pyfloat where
  "correction_margin_default = flit (15 / 100)"

lemma correction_margin_code [code]: "correction_margin_default = Fin (5404319552844595 / 36028797018963968)"
  by (simp add: correction_margin_default_def float_eval)

definition generic_titles :: "string list" where
  "generic_titles =
    [''for sale'', ''for rent'', ''sale'', ''rent'', ''lease'', ''property for sale'', ''property for rent'']"

definition has_value :: "pyval \<Rightarrow> bool" where
  "has_value v = (case v of VNone \<Rightarrow> False | VStr s \<Rightarrow> strip s \<noteq> [] | _ \<Rightarrow> True)"

definition fold_spaces :: "string \<Rightarrow> string" where
  "fold_spaces s = casefold (re_sub (rx_plain ''%s+'') '' '' (strip s))"

definition normalise_for_compare :: "pyval \<Rightarrow> pyval result" where
  "normalise_for_compare v =
     (case v of
        VStr s \<Rightarrow> Inr (VStr (fold_spaces s))
      | VInt i \<Rightarrow> bindE (float_of v) (\<lambda>x. Inr (VFloat x))
      | VFloat x \<Rightarrow> Inr (VFloat x)
      | _ \<Rightarrow> Inr v)"

text \<open>\<open>math.isclose(a, b, rel_tol=1e-9, abs_tol=1e-9)\<close>.\<close>

definition close_tolerance :: pyfloat where
  "close_tolerance = flit (1 / 1000000000)"

lemma close_tolerance_code [code]: "close_tolerance = Fin (4835703278458517 / 4835703278458516698824704)"
  by (simp add: close_tolerance_def float_eval)

definition isclose :: "pyfloat \<Rightarrow> pyfloat \<Rightarrow> bool" where
  "isclose a b =
     (feq a b \<or>
      a \<notin> {PInf, NInf} \<and> b \<notin> {PInf, NInf} \<and>
      (let diff = fabs (fsub b a)
       in fle diff (fabs (fmul close_tolerance b)) \<or> fle diff (fabs (fmul close_tolerance a)) \<or> fle diff close_tolerance))"

definition values_agree :: "pyval \<Rightarrow> pyval \<Rightarrow> bool result" where
  "values_agree left right =
     bindE (normalise_for_compare left) (\<lambda>l. bindE (normalise_for_compare right) (\<lambda>r.
       Inr (case (l, r) of
              (VFloat a, VFloat b) \<Rightarrow> isclose a b
            | _ \<Rightarrow> py_eq l r)))"

definition span_is_valid :: "(int \<times> int) option \<Rightarrow> string \<Rightarrow> bool" where
  "span_is_valid where_at source =
     (case where_at of
        None \<Rightarrow> False
      | Some (a, b) \<Rightarrow> 0 \<le> a \<and> a < b \<and> b \<le> int (length source))"

definition is_generic_title :: "string \<Rightarrow> pyval \<Rightarrow> bool" where
  "is_generic_title field v =
     (field \<in> {''title'', ''summary_title''} \<and>
      (case v of VStr s \<Rightarrow> fold_spaces s \<in> set generic_titles | _ \<Rightarrow> False))"

section \<open>The strength of a candidate\<close>

definition effective_margin :: "evidence \<Rightarrow> pyfloat \<Rightarrow> pyfloat" where
  "effective_margin e margin =
     (if ev_field e = ''building_name'' \<and> ev_explicit e \<and> ev_unique e then Fin 0 else margin)"

definition crossed_slice :: "pyval \<Rightarrow> evidence \<Rightarrow> bool" where
  "crossed_slice expected e =
     (\<not> is_none expected \<and>
      (case ev_slice_id e of Some i \<Rightarrow> \<not> py_eq (VStr i) expected | None \<Rightarrow> False))"

definition weakness :: "evidence \<Rightarrow> string \<Rightarrow> pyval \<Rightarrow> pyfloat \<Rightarrow> pyfloat \<Rightarrow> string list" where
  "weakness e source expected ai_confidence margin =
     (if \<not> ev_explicit e then [''source_candidate_not_explicit''] else [])
     @ (if \<not> ev_unique e then [''source_candidate_ambiguous''] else [])
     @ (if \<not> span_is_valid (ev_span e) source then [''source_span_missing_or_invalid''] else [])
     @ (if crossed_slice expected e then [''source_candidate_crossed_item_slice''] else [])
     @ (if flt (ev_confidence e) (fadd ai_confidence (effective_margin e margin))
        then [''source_candidate_not_stronger_than_ai''] else [])"

definition candidate_is_strong ::
    "evidence \<Rightarrow> string \<Rightarrow> pyval \<Rightarrow> pyfloat \<Rightarrow> pyfloat \<Rightarrow> bool \<times> string list" where
  "candidate_is_strong e source expected ai_confidence margin =
     (let reasons = weakness e source expected ai_confidence margin in (reasons = [], reasons))"

section \<open>One field\<close>

text \<open>
  The context of an evaluation: the text that spans refer to, the slice, the margin, the
  malformed fields and their safe values, and the confidences.
\<close>

record authority_context =
  ac_source :: string
  ac_slice_id :: pyval
  ac_margin :: pyfloat
  ac_malformed :: "pyval list"
  ac_safe :: pyval
  ac_confidence :: "string \<Rightarrow> pyval"

text \<open>The verdict on a field: the action, the final value, the reasons and the flag.\<close>

type_synonym field_verdict = "action \<times> pyval \<times> string list \<times> string list"

definition safe_value :: "pyval \<Rightarrow> string \<Rightarrow> pyval \<Rightarrow> pyval result" where
  "safe_value safe field ai =
     (case safe of VDict d \<Rightarrow> Inr (dget_or d field ai) | _ \<Rightarrow> Inl AttributeError)"

definition weigh ::
    "authority_context \<Rightarrow> string \<Rightarrow> pyval \<Rightarrow> evidence \<Rightarrow> pyfloat \<Rightarrow> field_verdict" where
  "weigh ctx field ai e ai_confidence =
     (let ai_exists = has_value ai;
          (strong0, why0) =
            candidate_is_strong e (ac_source ctx) (ac_slice_id ctx)
              (if ai_exists then ai_confidence else Fin 0) (ac_margin ctx);
          generic = (ai_exists \<and> is_generic_title field (ev_value e) \<and> \<not> is_generic_title field ai);
          strong = (strong0 \<and> \<not> generic);
          why = (if generic then why0 @ [''generic_title_cannot_replace_specific_ai_title''] else why0)
      in if strong then
           (Correct_From_Source, ev_value e, [''explicit_unique_item_scoped_source_is_stronger''], [])
         else if ai_exists then
           (Review_Preserve_AI, ai, if why = [] then [''source_candidate_conflicts_with_ai''] else why,
            [field @ ''_source_conflict''])
         else
           (Missing_Needs_Review, VNone, if why = [] then [''source_candidate_is_not_strong_enough''] else why,
            [field @ ''_missing_strong_evidence'']))"

definition judge ::
    "authority_context \<Rightarrow> string \<Rightarrow> pyval \<Rightarrow> evidence option \<Rightarrow> pyfloat \<Rightarrow> field_verdict result" where
  "judge ctx field ai candidate ai_confidence =
     (if list_ex (py_eq (VStr field)) (ac_malformed ctx) then
        bindE (safe_value (ac_safe ctx) field ai) (\<lambda>v.
          Inr (Review_Preserve_AI, v, [''ai_value_malformed_schema_safe_only''], [field @ ''_malformed'']))
      else
        case candidate of
          None \<Rightarrow>
            if has_value ai
            then Inr (Trust_AI, ai, [''no_source_candidate_is_not_evidence_of_error''], [])
            else Inr (Missing_Needs_Review, VNone, [''missing_ai_value_and_source_candidate''],
                      [field @ ''_missing_source_evidence''])
        | Some e \<Rightarrow>
            bindE (if has_value ai then values_agree ai (ev_value e) else Inr False) (\<lambda>agree.
              if agree then Inr (Trust_AI, ai, [''source_candidate_agrees_with_ai''], [])
              else Inr (weigh ctx field ai e ai_confidence)))"

definition decide ::
    "authority_context \<Rightarrow> pydict \<Rightarrow> (string \<times> evidence option) list \<Rightarrow> string \<Rightarrow>
     (decision \<times> string list) result" where
  "decide ctx ai_extraction candidates field =
     (let ai = dget ai_extraction field;
          candidate = (case map_of candidates field of Some (Some e) \<Rightarrow> Some e | _ \<Rightarrow> None);
          candidate_value = (case candidate of Some e \<Rightarrow> ev_value e | None \<Rightarrow> VNone)
      in bindE (float_of (ac_confidence ctx field)) (\<lambda>ai_confidence.
         bindE (judge ctx field ai candidate ai_confidence) (\<lambda>(action, final, reasons, flags).
         bindE (if has_value ai then values_agree final ai else Inr False) (\<lambda>preserved.
           Inr (\<lparr>fd_field = field, fd_action = action, fd_ai = ai, fd_final = final,
                  fd_candidate = candidate_value, fd_evidence = candidate,
                  fd_confidence = (case candidate of Some e \<Rightarrow> ev_confidence e | None \<Rightarrow> ai_confidence),
                  fd_reasons = dedup reasons, fd_preserved = preserved\<rparr>, flags)))))"

section \<open>The evaluation\<close>

definition prov_of :: "decision \<Rightarrow> string \<times> prov_entry" where
  "prov_of d =
     (fd_field d,
      \<lparr>pe_action = fd_action d, pe_ai = fd_ai d, pe_candidate = fd_candidate d,
       pe_rule = map_option ev_rule (fd_evidence d), pe_span = Option.bind (fd_evidence d) ev_span,
       pe_slice_id = Option.bind (fd_evidence d) ev_slice_id, pe_reasons = fd_reasons d\<rparr>)"

definition all_fields ::
    "pydict \<Rightarrow> (string \<times> evidence option) list \<Rightarrow> pydict \<Rightarrow> string list" where
  "all_fields ai_extraction candidates confidences =
     dedup (map fst ai_extraction @ map fst candidates @ map fst confidences)"

definition needs_action :: "decision \<Rightarrow> bool" where
  "needs_action d = (fd_action d \<in> {Review_Preserve_AI, Missing_Needs_Review})"

definition context_of ::
    "string \<Rightarrow> string option \<Rightarrow> pydict \<Rightarrow> pydict \<Rightarrow> authority_context result" where
  "context_of source_text source_slice confidences context0 =
     bindE (float_of (dget_or context0 ''correction_margin'' (VFloat correction_margin_default))) (\<lambda>margin.
     bindE (iter_of (dget_or context0 ''malformed_fields'' (VList []))) (\<lambda>malformed.
       if \<not> list_all hashable malformed then Inl TypeError
       else Inr
         \<lparr>ac_source = (case source_slice of Some s \<Rightarrow> s | None \<Rightarrow> source_text),
          ac_slice_id = dget context0 ''source_slice_id'',
          ac_margin = margin, ac_malformed = malformed,
          ac_safe = dget_or context0 ''schema_safe_values'' (VDict []),
          ac_confidence =
            (\<lambda>field. dget_or confidences field (dget_or context0 ''default_ai_confidence'' (VFloat (Fin 0))))\<rparr>))"

definition evaluate_source_authority ::
    "pydict \<Rightarrow> string \<Rightarrow> string option \<Rightarrow> (string \<times> evidence option) list \<Rightarrow> pydict \<Rightarrow> pydict \<Rightarrow>
     authority result" where
  "evaluate_source_authority ai_extraction source_text source_slice candidates confidences context0 =
     bindE (context_of source_text source_slice confidences context0) (\<lambda>ctx.
     bindE (mapE (decide ctx ai_extraction candidates) (all_fields ai_extraction candidates confidences)) (\<lambda>ds.
       let decisions = map fst ds; flags = concat (map snd ds) in
       Inr
         \<lparr>sa_values = map (\<lambda>d. (fd_field d, fd_final d)) decisions,
          sa_decisions = decisions,
          sa_review = (flags \<noteq> [] \<or> list_ex needs_action decisions),
          sa_flags = dedup flags,
          sa_provenance =
            \<lparr>pv_ai_values = ai_extraction, pv_decisions = map prov_of decisions,
             pv_text_available = (strip source_text \<noteq> []), pv_slice = source_slice\<rparr>\<rparr>))"

section \<open>Facts\<close>

lemma judge_cases:
  assumes "judge ctx field ai candidate c = Inr (a, final, reasons, flags)"
  obtains
    (malformed) "list_ex (py_eq (VStr field)) (ac_malformed ctx)" "a = Review_Preserve_AI"
      "flags = [field @ ''_malformed'']"
  | (trusted) "\<not> list_ex (py_eq (VStr field)) (ac_malformed ctx)" "a = Trust_AI" "final = ai" "has_value ai"
      "flags = []"
  | (corrected) e where "\<not> list_ex (py_eq (VStr field)) (ac_malformed ctx)" "a = Correct_From_Source"
      "candidate = Some e" "final = ev_value e" "flags = []"
      "weakness e (ac_source ctx) (ac_slice_id ctx) (if has_value ai then c else Fin 0) (ac_margin ctx) = []"
      "\<not> (has_value ai \<and> is_generic_title field (ev_value e) \<and> \<not> is_generic_title field ai)"
  | (kept) "\<not> list_ex (py_eq (VStr field)) (ac_malformed ctx)" "a = Review_Preserve_AI" "final = ai"
      "has_value ai" "flags \<noteq> []"
  | (missing) "\<not> list_ex (py_eq (VStr field)) (ac_malformed ctx)" "a = Missing_Needs_Review" "final = VNone"
      "\<not> has_value ai" "flags \<noteq> []"
  using assms
  by (auto simp: judge_def weigh_def candidate_is_strong_def Let_def bindE_Inr_iff
      split: if_splits option.splits)

lemma decide_facts:
  assumes "decide ctx ai candidates field = Inr (d, flags)"
  obtains c reasons where
    "fd_field d = field" "fd_ai d = dget ai field"
    "float_of (ac_confidence ctx field) = Inr c"
    "judge ctx field (dget ai field)
       (case map_of candidates field of Some (Some e) \<Rightarrow> Some e | _ \<Rightarrow> None) c =
     Inr (fd_action d, fd_final d, reasons, flags)"
  using assms by (auto simp: decide_def Let_def bindE_Inr_iff)

text \<open>A field is flagged exactly when it needs action.\<close>

lemma decide_flags: "decide ctx ai candidates field = Inr (d, flags) \<Longrightarrow> flags \<noteq> [] \<longleftrightarrow> needs_action d"
  by (erule decide_facts, erule judge_cases) (auto simp: needs_action_def)

lemma evaluate_facts:
  assumes "evaluate_source_authority ai source_text slice candidates confidences context0 = Inr r"
  obtains ctx ds where "context_of source_text slice confidences context0 = Inr ctx"
    "list_all2 (\<lambda>f x. decide ctx ai candidates f = Inr x) (all_fields ai candidates confidences) ds"
    "sa_decisions r = map fst ds" "sa_flags r = dedup (concat (map snd ds))"
    "sa_values r = map (\<lambda>d. (fd_field d, fd_final d)) (sa_decisions r)"
    "sa_review r = (concat (map snd ds) \<noteq> [] \<or> list_ex needs_action (sa_decisions r))"
  using assms unfolding evaluate_source_authority_def Let_def bindE_Inr_iff mapE_Inr by auto

lemma evaluate_decision:
  assumes "evaluate_source_authority ai source_text slice candidates confidences context0 = Inr r"
    and "d \<in> set (sa_decisions r)"
  obtains ctx c reasons flags where "context_of source_text slice confidences context0 = Inr ctx"
    "fd_ai d = dget ai (fd_field d)" "float_of (ac_confidence ctx (fd_field d)) = Inr c"
    "judge ctx (fd_field d) (dget ai (fd_field d))
       (case map_of candidates (fd_field d) of Some (Some e) \<Rightarrow> Some e | _ \<Rightarrow> None) c =
     Inr (fd_action d, fd_final d, reasons, flags)"
proof -
  from assms(1) obtain ctx ds where ctx: "context_of source_text slice confidences context0 = Inr ctx"
    and ds: "list_all2 (\<lambda>f x. decide ctx ai candidates f = Inr x) (all_fields ai candidates confidences) ds"
      "sa_decisions r = map fst ds" by (rule evaluate_facts)
  from assms(2) ds(2) obtain flags where "(d, flags) \<in> set ds" by auto
  with ds(1) obtain f where "decide ctx ai candidates f = Inr (d, flags)"
    by (auto simp: list_all2_conv_all_nth in_set_conv_nth)
  then show thesis by (rule decide_facts) (use that ctx in blast)
qed

lemma context_facts:
  "context_of source_text slice confidences context0 = Inr ctx \<Longrightarrow>
   ac_source ctx = (case slice of Some s \<Rightarrow> s | None \<Rightarrow> source_text) \<and>
   ac_slice_id ctx = dget context0 ''source_slice_id'' \<and>
   iter_of (dget_or context0 ''malformed_fields'' (VList [])) = Inr (ac_malformed ctx) \<and>
   float_of (dget_or context0 ''correction_margin'' (VFloat correction_margin_default)) = Inr (ac_margin ctx)"
  by (auto simp: context_of_def bindE_Inr_iff split: if_splits)

lemma weakness_Nil:
  "weakness e source expected c margin = [] \<longleftrightarrow>
   ev_explicit e \<and> ev_unique e \<and> span_is_valid (ev_span e) source \<and> \<not> crossed_slice expected e \<and>
   \<not> flt (ev_confidence e) (fadd c (effective_margin e margin))"
  by (simp add: weakness_def)

section \<open>Properties\<close>

text \<open>
  C1: A model value gives way only to strong evidence.  Where a decision corrects a field from the
  source, the final value is the value of a candidate for that field which is explicit, unique,
  spans a non-empty part of the text evaluated, does not belong to another slice, and whose
  confidence is not below the confidence in the model's value plus the margin; a generic title
  never replaces a specific one.
\<close>

theorem correction_needs_evidence:
  assumes "evaluate_source_authority ai source_text slice candidates confidences context0 = Inr r"
    and "d \<in> set (sa_decisions r)" and "fd_action d = Correct_From_Source"
  shows "\<exists>e c margin.
    map_of candidates (fd_field d) = Some (Some e) \<and> fd_final d = ev_value e \<and>
    ev_explicit e \<and> ev_unique e \<and> \<not> crossed_slice (dget context0 ''source_slice_id'') e \<and>
    span_is_valid (ev_span e) (case slice of Some s \<Rightarrow> s | None \<Rightarrow> source_text) \<and>
    float_of (dget_or context0 ''correction_margin'' (VFloat correction_margin_default)) = Inr margin \<and>
    float_of (dget_or confidences (fd_field d) (dget_or context0 ''default_ai_confidence'' (VFloat (Fin 0)))) = Inr c \<and>
    \<not> flt (ev_confidence e) (fadd (if has_value (fd_ai d) then c else Fin 0) (effective_margin e margin)) \<and>
    \<not> (has_value (fd_ai d) \<and> is_generic_title (fd_field d) (ev_value e) \<and> \<not> is_generic_title (fd_field d) (fd_ai d))"
proof -
  from assms(1,2) obtain ctx c reasons flags
    where ctx: "context_of source_text slice confidences context0 = Inr ctx"
      and ai: "fd_ai d = dget ai (fd_field d)" and c: "float_of (ac_confidence ctx (fd_field d)) = Inr c"
      and j: "judge ctx (fd_field d) (dget ai (fd_field d))
        (case map_of candidates (fd_field d) of Some (Some e) \<Rightarrow> Some e | _ \<Rightarrow> None) c =
        Inr (fd_action d, fd_final d, reasons, flags)" by (rule evaluate_decision)
  from ctx have conf: "ac_confidence ctx (fd_field d) =
      dget_or confidences (fd_field d) (dget_or context0 ''default_ai_confidence'' (VFloat (Fin 0)))"
    by (auto simp: context_of_def bindE_Inr_iff split: if_splits)
  from j show ?thesis
  proof (cases rule: judge_cases)
    case (corrected e)
    then have "map_of candidates (fd_field d) = Some (Some e)" by (auto split: option.splits)
    with corrected context_facts [OF ctx] c conf ai show ?thesis
      unfolding weakness_Nil by (intro exI [of _ e] exI [of _ c] exI [of _ "ac_margin ctx"]) simp
  qed (use assms(3) in simp_all)
qed

text \<open>
  C2: Every field is decided once and nothing is lost silently.  The decisions cover exactly the fields
  of the extraction, the candidates and the confidences, each once and in that order; a value the
  model gave is kept unless the field is corrected from the source or malformed; and the review mark
  is set exactly when some field is, which is exactly when there is a flag.
\<close>

theorem no_silent_loss:
  assumes "evaluate_source_authority ai source_text slice candidates confidences context0 = Inr r"
  shows "map fd_field (sa_decisions r) = all_fields ai candidates confidences \<and>
    distinct (map fst (sa_values r)) \<and>
    (\<forall>d \<in> set (sa_decisions r).
       has_value (dget ai (fd_field d)) \<and> fd_action d \<noteq> Correct_From_Source \<and>
       VStr (fd_field d) \<notin> set (projr (iter_of (dget_or context0 ''malformed_fields'' (VList [])))) \<longrightarrow>
       fd_final d = dget ai (fd_field d)) \<and>
    (sa_review r \<longleftrightarrow> list_ex needs_action (sa_decisions r)) \<and>
    (sa_review r \<longleftrightarrow> sa_flags r \<noteq> [])"
proof -
  from assms obtain ctx ds where ctx: "context_of source_text slice confidences context0 = Inr ctx"
    and ds: "list_all2 (\<lambda>f x. decide ctx ai candidates f = Inr x) (all_fields ai candidates confidences) ds"
    and r: "sa_decisions r = map fst ds" "sa_flags r = dedup (concat (map snd ds))"
      "sa_values r = map (\<lambda>d. (fd_field d, fd_final d)) (sa_decisions r)"
      "sa_review r = (concat (map snd ds) \<noteq> [] \<or> list_ex needs_action (sa_decisions r))"
    by (rule evaluate_facts)
  have fields: "map fd_field (map fst ds) = all_fields ai candidates confidences"
  proof -
    have "list_all2 (=) (all_fields ai candidates confidences) (map (fd_field \<circ> fst) ds)"
      using ds by (auto simp: list_all2_map2 elim!: list_all2_mono decide_facts)
    then show ?thesis by (simp add: list.rel_eq)
  qed
  have flags: "snd x \<noteq> [] \<longleftrightarrow> needs_action (fst x)" if "x \<in> set ds" for x
    using ds that decide_flags by (cases x) (fastforce simp: list_all2_conv_all_nth in_set_conv_nth)
  then have "concat (map snd ds) \<noteq> [] \<longleftrightarrow> list_ex needs_action (map fst ds)"
    by (auto simp: list_ex_iff)
  then have review: "(sa_review r \<longleftrightarrow> list_ex needs_action (sa_decisions r)) \<and> (sa_review r \<longleftrightarrow> sa_flags r \<noteq> [])"
    by (auto simp: r)
  have "fd_final d = dget ai (fd_field d)"
    if d: "d \<in> set (sa_decisions r)" and h: "has_value (dget ai (fd_field d))" "fd_action d \<noteq> Correct_From_Source"
      "VStr (fd_field d) \<notin> set (projr (iter_of (dget_or context0 ''malformed_fields'' (VList []))))" for d
    using assms d
  proof (rule evaluate_decision)
    fix ctx c reasons flags
    assume c: "context_of source_text slice confidences context0 = Inr ctx"
      and j: "judge ctx (fd_field d) (dget ai (fd_field d))
        (case map_of candidates (fd_field d) of Some (Some e) \<Rightarrow> Some e | _ \<Rightarrow> None) c =
        Inr (fd_action d, fd_final d, reasons, flags)"
    from h(3) context_facts [OF c] have "\<not> list_ex (py_eq (VStr (fd_field d))) (ac_malformed ctx)"
      by (auto simp: list_ex_iff)
    with j h show ?thesis by (cases rule: judge_cases) simp_all
  qed
  moreover have "distinct (map fst (sa_values r))"
    using fields by (simp add: r comp_def all_fields_def)
  ultimately show ?thesis using fields review r(1) by auto
qed

section \<open>Example\<close>

definition sample_evidence :: evidence where
  "sample_evidence =
     \<lparr>ev_field = ''bhk'', ev_value = VStr ''3 BHK'', ev_span = Some (0, 5), ev_rule = ''bhk_rule'',
      ev_confidence = Fin 1, ev_explicit = True, ev_unique = True, ev_slice_id = None\<rparr>"

definition sample_authority :: "authority result" where
  "sample_authority =
     evaluate_source_authority [(''bhk'', VStr ''2 BHK''), (''title'', VStr ''Sea view'')]
       ''3 BHK flat'' None [(''bhk'', Some sample_evidence)] [] [(''correction_margin'', VInt 1)]"

definition sample_decision :: decision where
  "sample_decision =
     \<lparr>fd_field = ''bhk'', fd_action = Correct_From_Source, fd_ai = VStr ''2 BHK'', fd_final = VStr ''3 BHK'',
      fd_candidate = VStr ''3 BHK'', fd_evidence = Some sample_evidence, fd_confidence = Fin 1,
      fd_reasons = [''explicit_unique_item_scoped_source_is_stronger''], fd_preserved = False\<rparr>"

lemma sample_authority_ok: "isl sample_authority = False \<and> sa_decisions (projr sample_authority) ! 0 = sample_decision \<and>
  length (sa_decisions (projr sample_authority)) = 2"
  by code_simp

lemma sample_authority_Inr:
  "evaluate_source_authority [(''bhk'', VStr ''2 BHK''), (''title'', VStr ''Sea view'')]
     ''3 BHK flat'' None [(''bhk'', Some sample_evidence)] [] [(''correction_margin'', VInt 1)] =
   Inr (projr sample_authority)"
  using sample_authority_ok unfolding sample_authority_def by (metis sum.collapse(2))

theorem correction_needs_evidence_witness:
  "\<exists>e. map_of [(''bhk'', Some sample_evidence)] (fd_field sample_decision) = Some (Some e) \<and>
     fd_final sample_decision = ev_value e \<and> ev_explicit e \<and> ev_unique e"
proof -
  have "sample_decision \<in> set (sa_decisions (projr sample_authority))"
    using sample_authority_ok by (metis nth_mem zero_less_numeral)
  moreover have "fd_action sample_decision = Correct_From_Source" by (simp add: sample_decision_def)
  ultimately show ?thesis using correction_needs_evidence [OF sample_authority_Inr] by blast
qed

theorem no_silent_loss_witness:
  "map fd_field (sa_decisions (projr sample_authority)) =
     all_fields [(''bhk'', VStr ''2 BHK''), (''title'', VStr ''Sea view'')] [(''bhk'', Some sample_evidence)] [] \<and>
   (sa_review (projr sample_authority) \<longleftrightarrow> sa_flags (projr sample_authority) \<noteq> [])"
  using no_silent_loss [OF sample_authority_Inr] by blast

end
