(* ===== verification/SourceBoundary.thy ===== *)
theory SourceBoundary
  imports PyVal
begin

text \<open>
  \<open>source_boundary.py\<close>: the route a source text states, the conflicts it raises with the route a
  model chose, and the removal of values that do not occur in the source.
\<close>

section \<open>The signals of a source text\<close>

record boundary =
  sb_route :: "string option"
  sb_rent :: bool
  sb_sale :: bool
  sb_reasons :: "string list"

definition boundary_rent_re :: pattern where
  "boundary_rent_re =
     rx_i ''%b(?:rent|rental|monthly%s+rent|per%s+month|for%s+rent|on%s+rent|for%s+lease|on%s+lease|lease)%b''"

definition boundary_sale_re :: pattern where
  "boundary_sale_re = rx_i ''%b(?:sale|selling|for%s+sale|on%s+sale|asking%s+price|outright|outrate)%b''"

text \<open>The pattern has the inline flags \<open>im\<close>: it ignores case and a line is a place to start.\<close>

definition boundary_requirement_re :: pattern where
  "boundary_requirement_re =
     re_compile True True
       (''^%s*[%W_]*(?:very%s+|urgent%s+|immediate%s+)?''
        @ ''(?:(?:outright|property|rental|residential|commercial)%s+)*''
        @ ''(?:(?:buyer|tenant|client)%s+)?''
        @ ''(?:requirements?|required|require|wanted|want|need(?:s|ed)?)%b'')"

definition boundary_unit_re :: pattern where
  "boundary_unit_re = rx_i ''%b%d+(?:%.%d+)?%s*(?:bhk|rk|bedroom)s?%b''"

definition source_route :: "bool \<Rightarrow> bool \<Rightarrow> bool \<Rightarrow> bool \<Rightarrow> string option" where
  "source_route requirement rent sale inventory_unit =
     (if requirement then Some ''requirement''
      else if rent \<and> \<not> sale \<and> inventory_unit then Some ''rent''
      else if sale \<and> \<not> rent \<and> inventory_unit then Some ''sale''
      else None)"

definition classify_source_boundary :: "string \<Rightarrow> boundary" where
  "classify_source_boundary source =
     (let rent = re_found boundary_rent_re source; sale = re_found boundary_sale_re source;
          route = source_route (re_found boundary_requirement_re source) rent sale
                    (re_found boundary_unit_re source)
      in \<lparr>sb_route = route, sb_rent = rent, sb_sale = sale,
          sb_reasons =
            (if rent \<and> sale then [''mixed_rent_sale_source_signals''] else [])
            @ (case route of Some r \<Rightarrow> [''explicit_source_route:'' @ r] | None \<Rightarrow> [])\<rparr>)"

section \<open>Attaching the evidence\<close>

definition vstrs :: "string list \<Rightarrow> pyval" where
  "vstrs ss = VList (map VStr ss)"

definition vopt :: "string option \<Rightarrow> pyval" where
  "vopt s = (case s of Some t \<Rightarrow> VStr t | None \<Rightarrow> VNone)"

definition model_route :: "pydict \<Rightarrow> string" where
  "model_route item = clean_lower (or_val (dget item ''routing_listing_type'') (dget item ''listing_type''))"

definition route_conflict :: "boundary \<Rightarrow> pydict \<Rightarrow> string option" where
  "route_conflict b item =
     (case sb_route b of
        Some r \<Rightarrow> if model_route item \<noteq> [] \<and> model_route item \<noteq> r then Some r else None
      | None \<Rightarrow> None)"

definition mark_conflict :: "boundary \<Rightarrow> pydict \<Rightarrow> pydict" where
  "mark_conflict b item =
     (case route_conflict b item of
        None \<Rightarrow> item
      | Some r \<Rightarrow>
          dput (dput item ''needs_review'' (VBool True)) ''source_boundary_conflict''
            (VDict [(''field'', VStr ''listing_type''), (''model_value'', VStr (model_route item)),
                    (''source_value'', VStr r), (''reasons'', vstrs (sb_reasons b))]))"

definition mark_signals :: "boundary \<Rightarrow> pydict \<Rightarrow> pydict" where
  "mark_signals b item =
     (if sb_reasons b = [] then item
      else dput item ''source_boundary''
             (VDict [(''explicit_route'', vopt (sb_route b)), (''rent_explicit'', VBool (sb_rent b)),
                     (''sale_explicit'', VBool (sb_sale b)), (''reasons'', vstrs (sb_reasons b))]))"

definition mark_mixed :: "boundary \<Rightarrow> pydict \<Rightarrow> pydict" where
  "mark_mixed b item = (if sb_rent b \<and> sb_sale b then dput item ''needs_review'' (VBool True) else item)"

definition boundary_flags :: "boundary \<Rightarrow> pydict \<Rightarrow> pyval list" where
  "boundary_flags b item =
     (if route_conflict b item \<noteq> None then [VStr ''source_route_conflict_review''] else [])
     @ (if sb_rent b \<and> sb_sale b then [VStr ''mixed_rent_sale_source_signals''] else [])"

definition apply_source_boundary :: "pydict \<Rightarrow> string \<Rightarrow> pydict result" where
  "apply_source_boundary item source =
     (let b = classify_source_boundary source in
      bindE (list_or_empty (dget item ''validation_flags'')) (\<lambda>flags.
      bindE (fromkeys (flags @ boundary_flags b item)) (\<lambda>flags'.
        Inr (dput (mark_mixed b (mark_signals b (mark_conflict b item))) ''validation_flags'' (VList flags')))))"

section \<open>Removing values that are not in the source\<close>

definition source_scoped_fields :: "string list" where
  "source_scoped_fields = [''bhk'', ''building_name'']"

definition tokens_of :: "string \<Rightarrow> string list" where
  "tokens_of s = filter (\<lambda>t. 2 \<le> length t) (re_findall (rx_plain ''[a-z0-9]+'') (casefold s))"

definition first_number :: "string \<Rightarrow> pyfloat option" where
  "first_number s =
     Option.bind (re_search (rx_plain ''%d+(?:%.%d+)?'') s) (\<lambda>m. parse_float (m_text m))"

definition blank_value :: "pyval \<Rightarrow> bool" where
  "blank_value v = (v \<in> {VNone, VStr [], VList [], VDict []})"

definition value_is_grounded :: "string \<Rightarrow> string \<Rightarrow> pyval \<Rightarrow> bool" where
  "value_is_grounded source field v =
     (if field = ''bhk'' then
        (case (first_number (py_str v), re_search boundary_unit_re source) of
           (Some a, Some m) \<Rightarrow> (case first_number (m_text m) of Some b \<Rightarrow> feq a b | None \<Rightarrow> False)
         | _ \<Rightarrow> False)
      else list_ex (\<lambda>t. t \<in> set (tokens_of source)) (tokens_of (str_or v)))"

definition dropped :: "string \<Rightarrow> string \<Rightarrow> pyval \<Rightarrow> bool" where
  "dropped source field v =
     (\<not> blank_value v \<and> tokens_of (str_or v) \<noteq> [] \<and> \<not> value_is_grounded source field v)"

definition drop_record :: "string \<Rightarrow> pyval \<Rightarrow> pyval" where
  "drop_record field v =
     VDict [(''field'', VStr field), (''value'', v), (''reason'', VStr ''not_in_source_slice'')]"

definition drop_flag :: "string \<Rightarrow> pyval" where
  "drop_flag field = VStr (field @ ''_dropped_not_in_source_slice'')"

text \<open>The state of the loop: the item, the flags and the drops.\<close>

type_synonym drop_state = "pydict \<times> pyval list \<times> pyval list"

definition drop_step :: "string \<Rightarrow> drop_state \<Rightarrow> string \<Rightarrow> drop_state" where
  "drop_step source st field =
     (case st of (item, flags, drops) \<Rightarrow>
        let v = dget item field in
        if dropped source field v
        then (dput (dput item field VNone) ''needs_review'' (VBool True),
              flags @ [drop_flag field], drops @ [drop_record field v])
        else st)"

definition enforce_source_boundary :: "pydict \<Rightarrow> string \<Rightarrow> pydict result" where
  "enforce_source_boundary item0 source =
     bindE (apply_source_boundary item0 source) (\<lambda>item.
     bindE (list_or_empty (dget item ''validation_flags'')) (\<lambda>flags.
     bindE (list_or_empty (dget item ''source_boundary_drops'')) (\<lambda>drops.
       case foldl (drop_step source) (item, flags, drops) source_scoped_fields of
         (item', flags', drops') \<Rightarrow>
           bindE (fromkeys flags') (\<lambda>flags''.
             Inr (dput (if drops' = [] then item' else dput item' ''source_boundary_drops'' (VList drops'))
                    ''validation_flags'' (VList flags''))))))"

section \<open>Facts\<close>

lemma dput_there: "dget d k = v \<Longrightarrow> v \<noteq> VNone \<Longrightarrow> dput d k v = d"
  by (rule dput_same) (auto simp: dhas_def dget_def split: option.splits)

lemma fromkeys_again:
  assumes "fromkeys xs = Inr ys" and "\<forall>z \<in> set zs. \<exists>s. z = VStr s \<and> z \<in> set ys"
  shows "fromkeys (ys @ zs) = Inr ys"
proof -
  let ?step = "\<lambda>acc x. if list_ex (py_eq x) acc then acc else acc @ [x]"
  have grow: "sorted_wrt (\<lambda>a b. \<not> py_eq b a) acc \<Longrightarrow> sorted_wrt (\<lambda>a b. \<not> py_eq b a) (foldl ?step acc vs)" for acc vs
    by (induction vs arbitrary: acc) (auto simp: sorted_wrt_append list_ex_iff)
  have keep: "sorted_wrt (\<lambda>a b. \<not> py_eq b a) (acc @ vs) \<Longrightarrow> foldl ?step acc vs = acc @ vs" for acc vs
    by (induction vs arbitrary: acc) (auto simp: sorted_wrt_append list_ex_iff)
  have skip: "\<forall>z \<in> set vs. \<exists>s. z = VStr s \<and> z \<in> set acc \<Longrightarrow> foldl ?step acc vs = acc" for acc vs
  proof (induction vs)
    case (Cons z vs)
    then have "list_ex (py_eq z) acc" by (auto simp: list_ex_iff)
    with Cons show ?case by simp
  qed simp
  from assms(1) have h: "list_all hashable xs" "ys = foldl ?step [] xs"
    by (auto simp: fromkeys_def split: if_splits)
  have "list_all hashable (ys @ zs)"
    using h(1) fromkeys_sub [OF assms(1)] assms(2)
    by (fastforce simp: list_all_iff hashable_def is_list_def is_dict_def)
  moreover have "foldl ?step [] (ys @ zs) = ys"
    using keep [of "[]" ys] grow [of "[]" xs] h(2) skip [of zs ys] assms(2) by simp
  ultimately show ?thesis by (simp add: fromkeys_def)
qed

text \<open>Every string is kept in some place.\<close>

lemma fromkeys_covers:
  assumes "fromkeys xs = Inr ys" and "v \<in> set xs" and "v = VStr s"
  shows "list_ex (py_eq v) ys"
proof -
  let ?step = "\<lambda>acc x. if list_ex (py_eq x) acc then acc else acc @ [x]"
  have mono: "list_ex (py_eq v) acc \<Longrightarrow> list_ex (py_eq v) (foldl ?step acc vs)" for acc vs
    by (induction vs arbitrary: acc) auto
  have "v \<in> set vs \<Longrightarrow> list_ex (py_eq v) (foldl ?step acc vs)" for acc vs
  proof (induction vs arbitrary: acc)
    case (Cons z vs)
    show ?case
    proof (cases "v = z")
      case True
      then have "list_ex (py_eq v) (?step acc z)" using assms(3) by (auto simp: list_ex_iff)
      then show ?thesis using mono by simp
    qed (use Cons in simp)
  qed simp
  with assms show ?thesis by (auto simp: fromkeys_def split: if_splits)
qed

lemma list_or_empty_list [simp]: "list_or_empty (VList xs) = Inr xs"
  by (simp add: list_or_empty_def)

definition boundary_keys :: "string set" where
  "boundary_keys = {''needs_review'', ''source_boundary_conflict'', ''source_boundary'', ''validation_flags''}"

lemma apply_frame:
  assumes "apply_source_boundary item source = Inr out" "k \<notin> boundary_keys"
  shows "dget out k = dget item k"
  using assms
  by (auto simp: apply_source_boundary_def Let_def bindE_Inr_iff boundary_keys_def mark_mixed_def
      mark_signals_def mark_conflict_def split: option.splits)

lemma apply_marks:
  assumes "apply_source_boundary item source = Inr out" and "b = classify_source_boundary source"
  shows "route_conflict b item \<noteq> None \<or> (sb_rent b \<and> sb_sale b) \<Longrightarrow> dget out ''needs_review'' = VBool True"
    and "route_conflict b item = Some r \<Longrightarrow> dget out ''source_boundary_conflict'' =
      VDict [(''field'', VStr ''listing_type''), (''model_value'', VStr (model_route item)),
             (''source_value'', VStr r), (''reasons'', vstrs (sb_reasons b))]"
    and "sb_reasons b \<noteq> [] \<Longrightarrow> dget out ''source_boundary'' =
      VDict [(''explicit_route'', vopt (sb_route b)), (''rent_explicit'', VBool (sb_rent b)),
             (''sale_explicit'', VBool (sb_sale b)), (''reasons'', vstrs (sb_reasons b))]"
    and "\<exists>fs flags. dget out ''validation_flags'' = VList flags \<and> fromkeys (fs @ boundary_flags b item) = Inr flags"
  using assms
  by (auto simp: apply_source_boundary_def Let_def bindE_Inr_iff mark_mixed_def
      mark_signals_def mark_conflict_def split: option.splits)

text \<open>The loop over the scoped fields.\<close>

lemma drop_step_eq:
  "drop_step source (item, flags, drops) f =
     (if dropped source f (dget item f)
      then (dput (dput item f VNone) ''needs_review'' (VBool True), flags @ [drop_flag f],
            drops @ [drop_record f (dget item f)])
      else (item, flags, drops))"
  by (simp add: drop_step_def Let_def)

lemma drop_loop:
  assumes "foldl (drop_step source) (item, flags, drops) fs = (item', flags', drops')"
    and "distinct fs" "''needs_review'' \<notin> set fs"
  shows "(\<forall>k. k \<notin> set fs \<and> k \<noteq> ''needs_review'' \<longrightarrow> dget item' k = dget item k) \<and>
    (\<forall>f \<in> set fs. dget item' f = (if dropped source f (dget item f) then VNone else dget item f)) \<and>
    flags' = flags @ map drop_flag (filter (\<lambda>f. dropped source f (dget item f)) fs) \<and>
    drops' = drops @ map (\<lambda>f. drop_record f (dget item f)) (filter (\<lambda>f. dropped source f (dget item f)) fs) \<and>
    dget item' ''needs_review'' =
      (if \<exists>f \<in> set fs. dropped source f (dget item f) then VBool True else dget item ''needs_review'')"
  using assms
proof (induction fs arbitrary: item flags drops)
  case (Cons f fs)
  show ?case
  proof (cases "dropped source f (dget item f)")
    case True
    let ?item = "dput (dput item f VNone) ''needs_review'' (VBool True)"
    have same: "dget ?item g = dget item g" if "g \<in> set fs" for g
    proof -
      from Cons.prems(2,3) that have "g \<noteq> f" "g \<noteq> ''needs_review''" by auto
      then show ?thesis by simp
    qed
    have "foldl (drop_step source) (?item, flags @ [drop_flag f], drops @ [drop_record f (dget item f)]) fs =
        (item', flags', drops')"
      using Cons.prems(1) True by (simp add: drop_step_eq)
    from Cons.IH [OF this] Cons.prems have ih: "(\<forall>k. k \<notin> set fs \<and> k \<noteq> ''needs_review'' \<longrightarrow> dget item' k = dget ?item k) \<and>
      (\<forall>g \<in> set fs. dget item' g = (if dropped source g (dget ?item g) then VNone else dget ?item g)) \<and>
      flags' = (flags @ [drop_flag f]) @ map drop_flag (filter (\<lambda>g. dropped source g (dget ?item g)) fs) \<and>
      drops' = (drops @ [drop_record f (dget item f)]) @
        map (\<lambda>g. drop_record g (dget ?item g)) (filter (\<lambda>g. dropped source g (dget ?item g)) fs) \<and>
      dget item' ''needs_review'' = VBool True" by (auto split: if_splits)
    have fl: "filter (\<lambda>g. dropped source g (dget ?item g)) fs = filter (\<lambda>g. dropped source g (dget item g)) fs"
      using same by (intro filter_cong) simp_all
    have mp: "map (\<lambda>g. drop_record g (dget ?item g)) (filter (\<lambda>g. dropped source g (dget item g)) fs) =
        map (\<lambda>g. drop_record g (dget item g)) (filter (\<lambda>g. dropped source g (dget item g)) fs)"
      using same by (intro map_cong) simp_all
    have head: "dget item' f = VNone" using ih Cons.prems by auto
    show ?thesis using ih same Cons.prems True head unfolding fl mp by auto
  next
    case False
    then have "foldl (drop_step source) (item, flags, drops) fs = (item', flags', drops')"
      using Cons.prems(1) by (simp add: drop_step_eq)
    from Cons.IH [OF this] Cons.prems False show ?thesis by auto
  qed
qed simp

text \<open>The keys of an enforced item.\<close>

lemma enforce_facts:
  assumes "enforce_source_boundary item0 source = Inr out"
  obtains item flags drops where "apply_source_boundary item0 source = Inr item"
    "list_or_empty (dget item ''source_boundary_drops'') = Inr drops"
    "list_or_empty (dget item ''validation_flags'') = Inr flags"
    "\<And>f. f \<in> set source_scoped_fields \<Longrightarrow>
       dget out f = (if dropped source f (dget item0 f) then VNone else dget item0 f)"
    "\<And>k. k \<notin> insert ''source_boundary_drops'' (boundary_keys \<union> set source_scoped_fields) \<Longrightarrow>
       dget out k = dget item0 k"
    "\<And>k. k \<in> {''source_boundary_conflict'', ''source_boundary''} \<Longrightarrow> dget out k = dget item k"
    "dget out ''needs_review'' =
      (if \<exists>f \<in> set source_scoped_fields. dropped source f (dget item0 f) then VBool True
       else dget item ''needs_review'')"
    "\<exists>flags'. dget out ''validation_flags'' = VList flags' \<and>
       fromkeys (flags @ map drop_flag (filter (\<lambda>f. dropped source f (dget item0 f)) source_scoped_fields)) = Inr flags'"
    "\<exists>drops'. drops' = drops @ map (\<lambda>f. drop_record f (dget item0 f))
         (filter (\<lambda>f. dropped source f (dget item0 f)) source_scoped_fields) \<and>
       dget out ''source_boundary_drops'' =
         (if drops' = [] then dget item ''source_boundary_drops'' else VList drops')"
proof -
  let ?finish = "\<lambda>(item', flags', drops'). bindE (fromkeys flags') (\<lambda>flags''.
     Inr (dput (if drops' = [] then item' else dput item' ''source_boundary_drops'' (VList drops'))
            ''validation_flags'' (VList flags'')))"
  from assms obtain item flags drops where
    a: "apply_source_boundary item0 source = Inr item"
    and f: "list_or_empty (dget item ''validation_flags'') = Inr flags"
    and d: "list_or_empty (dget item ''source_boundary_drops'') = Inr drops"
    and fin: "?finish (foldl (drop_step source) (item, flags, drops) source_scoped_fields) = Inr out"
    unfolding enforce_source_boundary_def bindE_Inr_iff by blast
  obtain item' flags' drops' where
    l: "foldl (drop_step source) (item, flags, drops) source_scoped_fields = (item', flags', drops')"
    by (rule prod_cases3)
  from fin obtain flags'' where
    k: "fromkeys flags' = Inr flags''"
    and out: "out = dput (if drops' = [] then item' else dput item' ''source_boundary_drops'' (VList drops'))
      ''validation_flags'' (VList flags'')"
    unfolding l by (auto simp: bindE_Inr_iff)
  have sf: "distinct source_scoped_fields" "''needs_review'' \<notin> set source_scoped_fields"
    "set source_scoped_fields \<inter> boundary_keys = {}" "''source_boundary_drops'' \<notin> set source_scoped_fields"
    by (simp_all add: source_scoped_fields_def boundary_keys_def)
  have same: "dget item f = dget item0 f" if "f \<in> set source_scoped_fields" for f
    using apply_frame [OF a] sf(3) that by blast
  have fl: "filter (\<lambda>f. dropped source f (dget item f)) source_scoped_fields =
      filter (\<lambda>f. dropped source f (dget item0 f)) source_scoped_fields"
    using same by (intro filter_cong) simp_all
  have mp: "map (\<lambda>f. drop_record f (dget item f)) (filter (\<lambda>f. dropped source f (dget item0 f)) source_scoped_fields) =
      map (\<lambda>f. drop_record f (dget item0 f)) (filter (\<lambda>f. dropped source f (dget item0 f)) source_scoped_fields)"
    using same by (intro map_cong) simp_all
  note loop = drop_loop [OF l sf(1,2), unfolded fl mp]
  have put: "dget out k = dget item' k" if "k \<noteq> ''validation_flags''" "k \<noteq> ''source_boundary_drops''" for k
    using that by (simp add: out)
  show thesis
  proof (rule that [OF a d f])
    show "dget out f = (if dropped source f (dget item0 f) then VNone else dget item0 f)"
      if "f \<in> set source_scoped_fields" for f
    proof -
      have "f \<noteq> ''validation_flags''" "f \<noteq> ''source_boundary_drops''" using that sf by (auto simp: boundary_keys_def)
      then have "dget out f = dget item' f" by (rule put)
      moreover have "dget item' f = (if dropped source f (dget item f) then VNone else dget item f)"
        using loop that by blast
      ultimately show ?thesis by (simp only: same [OF that])
    qed
    show "dget out k = dget item0 k"
      if h: "k \<notin> insert ''source_boundary_drops'' (boundary_keys \<union> set source_scoped_fields)" for k
    proof -
      from h have n: "k \<notin> set source_scoped_fields" "k \<noteq> ''needs_review''" "k \<noteq> ''validation_flags''"
        "k \<noteq> ''source_boundary_drops''" "k \<notin> boundary_keys" by (auto simp: boundary_keys_def)
      from loop n(1,2) have "dget item' k = dget item k" by blast
      with put [OF n(3,4)] apply_frame [OF a n(5)] show ?thesis by simp
    qed
    show "dget out k = dget item k" if "k \<in> {''source_boundary_conflict'', ''source_boundary''}" for k
    proof -
      have n: "k \<notin> set source_scoped_fields" "k \<noteq> ''needs_review''" "k \<noteq> ''validation_flags''"
        "k \<noteq> ''source_boundary_drops''" using that by (auto simp: source_scoped_fields_def)
      from loop n(1,2) have "dget item' k = dget item k" by blast
      with put [OF n(3,4)] show ?thesis by simp
    qed
    show "dget out ''needs_review'' = (if \<exists>f \<in> set source_scoped_fields. dropped source f (dget item0 f)
        then VBool True else dget item ''needs_review'')"
      using loop same put [of "''needs_review''"] by auto
    show "\<exists>flags'. dget out ''validation_flags'' = VList flags' \<and>
       fromkeys (flags @ map drop_flag (filter (\<lambda>f. dropped source f (dget item0 f)) source_scoped_fields)) = Inr flags'"
      using loop k by (auto simp: out)
    have "dget item' ''source_boundary_drops'' = dget item ''source_boundary_drops''" using loop sf by auto
    then show "\<exists>drops'. drops' = drops @ map (\<lambda>f. drop_record f (dget item0 f))
         (filter (\<lambda>f. dropped source f (dget item0 f)) source_scoped_fields) \<and>
       dget out ''source_boundary_drops'' =
         (if drops' = [] then dget item ''source_boundary_drops'' else VList drops')"
      using loop by (auto simp: out)
  qed
qed

text \<open>Applying the boundary once more changes nothing, on an item where its marks are in place.\<close>

lemma apply_stable:
  assumes b: "b = classify_source_boundary source"
    and route: "route_conflict b item = route_conflict b out" "model_route item = model_route out"
    and review: "route_conflict b item \<noteq> None \<or> (sb_rent b \<and> sb_sale b) \<Longrightarrow> dget out ''needs_review'' = VBool True"
    and conflict: "\<And>r. route_conflict b item = Some r \<Longrightarrow> dget out ''source_boundary_conflict'' =
      VDict [(''field'', VStr ''listing_type''), (''model_value'', VStr (model_route item)),
             (''source_value'', VStr r), (''reasons'', vstrs (sb_reasons b))]"
    and signals: "sb_reasons b \<noteq> [] \<Longrightarrow> dget out ''source_boundary'' =
      VDict [(''explicit_route'', vopt (sb_route b)), (''rent_explicit'', VBool (sb_rent b)),
             (''sale_explicit'', VBool (sb_sale b)), (''reasons'', vstrs (sb_reasons b))]"
    and flags: "dget out ''validation_flags'' = VList flags" "fromkeys xs = Inr flags"
      "set (boundary_flags b item) \<subseteq> set flags"
  shows "apply_source_boundary out source = Inr out"
proof -
  have "mark_conflict b out = out"
    using review conflict route by (cases "route_conflict b out") (auto simp: mark_conflict_def dput_there)
  moreover have "mark_signals b out = out" using signals by (simp add: mark_signals_def dput_there)
  moreover have "mark_mixed b out = out" using review by (simp add: mark_mixed_def dput_there)
  moreover have "boundary_flags b out = boundary_flags b item" using route by (simp add: boundary_flags_def)
  moreover have "fromkeys (flags @ boundary_flags b item) = Inr flags"
    by (rule fromkeys_again [OF flags(2)]) (use flags(3) in \<open>auto simp: boundary_flags_def\<close>)
  moreover have "dput out ''validation_flags'' (VList flags) = out" using flags(1) by (simp add: dput_there)
  ultimately show ?thesis by (simp add: apply_source_boundary_def b [symmetric] flags(1))
qed

lemma fromkeys_keeps: "fromkeys xs = Inr ys \<Longrightarrow> VStr s \<in> set xs \<Longrightarrow> VStr s \<in> set ys"
  using fromkeys_covers [of xs ys "VStr s" s] by (auto simp: list_ex_iff)

section \<open>Properties\<close>

text \<open>
  What keeps a value: it is blank, it has no token of two or more characters, or it passes the test of its field.
  A bedroom count passes when its first number is the number of the first unit the source names; a building
  name passes when it shares a token of two or more characters with the source.
\<close>

lemma kept_iff:
  "\<not> dropped source f v \<longleftrightarrow> blank_value v \<or> tokens_of (str_or v) = [] \<or> value_is_grounded source f v"
  by (auto simp: dropped_def)

text \<open>A single digit is no token: a bedroom count without a unit is never compared with the source.\<close>

lemma bare_digit_unchecked:
  "\<not> dropped ''2 bhk on rent'' ''bhk'' (VInt 5)" "\<not> dropped ''2 bhk on rent'' ''bhk'' (VStr ''5'')"
  "\<not> dropped ''2 bhk on rent'' ''bhk'' (VFloat (Fin 5))" "dropped ''2 bhk on rent'' ''bhk'' (VStr ''5 BHK'')"
  by code_simp+

text \<open>
  C15: A value that fails the test against its source slice is removed in the open.  After
  \<open>enforce_source_boundary\<close> the bedroom count and the building name are as they were or removed, and each that is
  left is blank, or has no token of two or more characters, or passes: the number of the bedroom count is that
  of the first unit the source names, the building name shares a token with the source.  When one is removed it
  is \<open>None\<close>, the item is marked for review, the flag names the field and the removed value is kept in
  \<open>source_boundary_drops\<close>.  All other fields are as they were, the marks of the boundary apart.
\<close>

theorem enforced_grounded:
  assumes "enforce_source_boundary item source = Inr out"
  shows "(\<forall>f \<in> set source_scoped_fields.
       blank_value (dget out f) \<or> tokens_of (str_or (dget out f)) = [] \<or> value_is_grounded source f (dget out f)) \<and>
    (\<forall>f \<in> set source_scoped_fields. dget out f \<noteq> dget item f \<longrightarrow>
       dropped source f (dget item f) \<and>
       dget out f = VNone \<and> dget out ''needs_review'' = VBool True \<and>
       (\<exists>flags. dget out ''validation_flags'' = VList flags \<and> list_ex (py_eq (drop_flag f)) flags) \<and>
       (\<exists>drops. dget out ''source_boundary_drops'' = VList drops \<and> drop_record f (dget item f) \<in> set drops)) \<and>
    (\<forall>k. k \<notin> insert ''source_boundary_drops'' (boundary_keys \<union> set source_scoped_fields) \<longrightarrow>
       dget out k = dget item k)"
  using assms
proof (rule enforce_facts)
  fix a flags drops
  assume f: "\<And>f. f \<in> set source_scoped_fields \<Longrightarrow>
       dget out f = (if dropped source f (dget item f) then VNone else dget item f)"
    and k: "\<And>k. k \<notin> insert ''source_boundary_drops'' (boundary_keys \<union> set source_scoped_fields) \<Longrightarrow>
       dget out k = dget item k"
    and r: "dget out ''needs_review'' =
      (if \<exists>f \<in> set source_scoped_fields. dropped source f (dget item f) then VBool True
       else dget a ''needs_review'')"
    and fl: "\<exists>flags'. dget out ''validation_flags'' = VList flags' \<and>
       fromkeys (flags @ map drop_flag (filter (\<lambda>f. dropped source f (dget item f)) source_scoped_fields)) = Inr flags'"
    and d: "\<exists>drops'. drops' = drops @ map (\<lambda>f. drop_record f (dget item f))
         (filter (\<lambda>f. dropped source f (dget item f)) source_scoped_fields) \<and>
       dget out ''source_boundary_drops'' =
         (if drops' = [] then dget a ''source_boundary_drops'' else VList drops')"
  have blank: "\<not> dropped source f VNone" for f by (simp add: dropped_def blank_value_def)
  have removed: "dropped source f (dget item f) \<and> dget out f = VNone \<and> dget out ''needs_review'' = VBool True \<and>
       (\<exists>flags. dget out ''validation_flags'' = VList flags \<and> list_ex (py_eq (drop_flag f)) flags) \<and>
       (\<exists>drops. dget out ''source_boundary_drops'' = VList drops \<and> drop_record f (dget item f) \<in> set drops)"
    if f': "f \<in> set source_scoped_fields" "dget out f \<noteq> dget item f" for f
  proof -
    from f f' have dr: "dropped source f (dget item f)" by (metis (full_types))
    obtain flags' where "dget out ''validation_flags'' = VList flags'"
      "fromkeys (flags @ map drop_flag (filter (\<lambda>f. dropped source f (dget item f)) source_scoped_fields)) = Inr flags'"
      using fl by blast
    moreover from this(2) have "list_ex (py_eq (drop_flag f)) flags'"
      by (rule fromkeys_covers) (use f'(1) dr in \<open>auto simp: drop_flag_def\<close>)
    moreover have "filter (\<lambda>f. dropped source f (dget item f)) source_scoped_fields \<noteq> []"
      "f \<in> set (filter (\<lambda>f. dropped source f (dget item f)) source_scoped_fields)"
      using f'(1) dr by (auto simp: filter_empty_conv)
    ultimately show ?thesis using d r f [OF f'(1)] f'(1) dr by auto
  qed
  have left: "\<forall>f \<in> set source_scoped_fields. \<not> dropped source f (dget out f)" by (simp add: f blank)
  show ?thesis by (intro conjI left [unfolded kept_iff]; (intro ballI allI impI)?) (use removed in simp, use k in simp)
qed

text \<open>
  C32: Enforcing the boundary twice is enforcing it once.  The marks, the flags and the drops of the first
  run are in place in the second, which answers the same item, so a re-run of the extraction cannot
  pile up flags or overwrite the record of a removed value.
\<close>

theorem enforce_idempotent:
  assumes "enforce_source_boundary item source = Inr out"
  shows "enforce_source_boundary out source = Inr out"
  using assms
proof (rule enforce_facts)
  fix a flags drops
  let ?b = "classify_source_boundary source"
  let ?removed = "filter (\<lambda>f. dropped source f (dget item f)) source_scoped_fields"
  assume ap: "apply_source_boundary item source = Inr a"
    and ld: "list_or_empty (dget a ''source_boundary_drops'') = Inr drops"
    and lf: "list_or_empty (dget a ''validation_flags'') = Inr flags"
    and f: "\<And>f. f \<in> set source_scoped_fields \<Longrightarrow>
       dget out f = (if dropped source f (dget item f) then VNone else dget item f)"
    and k: "\<And>k. k \<notin> insert ''source_boundary_drops'' (boundary_keys \<union> set source_scoped_fields) \<Longrightarrow>
       dget out k = dget item k"
    and m: "\<And>k. k \<in> {''source_boundary_conflict'', ''source_boundary''} \<Longrightarrow> dget out k = dget a k"
    and r: "dget out ''needs_review'' =
      (if \<exists>f \<in> set source_scoped_fields. dropped source f (dget item f) then VBool True
       else dget a ''needs_review'')"
    and fl: "\<exists>flags'. dget out ''validation_flags'' = VList flags' \<and> fromkeys (flags @ map drop_flag ?removed) = Inr flags'"
    and d: "\<exists>drops'. drops' = drops @ map (\<lambda>f. drop_record f (dget item f)) ?removed \<and>
       dget out ''source_boundary_drops'' = (if drops' = [] then dget a ''source_boundary_drops'' else VList drops')"
  from fl obtain flags' where flags': "dget out ''validation_flags'' = VList flags'"
    "fromkeys (flags @ map drop_flag ?removed) = Inr flags'" by blast
  note marks = apply_marks [OF ap refl]
  obtain fs where fs: "fromkeys (fs @ boundary_flags ?b item) = Inr flags"
    using marks(4) lf by auto
  have route: "model_route item = model_route out"
    by (simp add: model_route_def k boundary_keys_def source_scoped_fields_def)
  have conflict: "route_conflict ?b item = route_conflict ?b out" unfolding route_conflict_def route ..
  have "set (boundary_flags ?b item) \<subseteq> set flags'"
  proof
    fix v assume v: "v \<in> set (boundary_flags ?b item)"
    then obtain s where s: "v = VStr s" by (auto simp: boundary_flags_def split: if_splits)
    with v have "VStr s \<in> set flags" by (intro fromkeys_keeps [OF fs]) simp
    then show "v \<in> set flags'" unfolding s by (intro fromkeys_keeps [OF flags'(2)]) simp
  qed
  then have again: "apply_source_boundary out source = Inr out"
    using marks r m
    by (intro apply_stable [OF refl conflict route _ _ _ flags']) auto
  have "\<not> dropped source g (dget out g)" if "g \<in> set source_scoped_fields" for g
    using f [OF that] by (auto simp: dropped_def blank_value_def)
  then have loop: "foldl (drop_step source) (out, xs, ys) source_scoped_fields = (out, xs, ys)" for xs ys
    by (simp add: source_scoped_fields_def drop_step_eq)
  have "fromkeys flags' = Inr flags'" using fromkeys_again [OF flags'(2), of "[]"] by simp
  moreover have "dput out ''validation_flags'' (VList flags') = out" using flags'(1) by (simp add: dput_there)
  moreover obtain drops' where "list_or_empty (dget out ''source_boundary_drops'') = Inr drops'"
    "drops' = [] \<or> dget out ''source_boundary_drops'' = VList drops'"
    using d ld by (auto split: if_splits)
  ultimately show ?thesis
    using dput_there [of out "''source_boundary_drops''"]
    by (auto simp: enforce_source_boundary_def again flags'(1) loop)
qed

section \<open>Example\<close>

definition sample_item :: pydict where
  "sample_item = [(''building_name'', VStr ''Sky Tower''), (''bhk'', VStr ''2 BHK''), (''listing_type'', VStr ''sale'')]"

definition sample_enforced :: pydict where
  "sample_enforced = projr (enforce_source_boundary sample_item ''2 bhk on rent'')"

lemma sample_enforced_ok:
  "\<not> isl (enforce_source_boundary sample_item ''2 bhk on rent'')"
  "dget sample_enforced ''building_name'' = VNone" "dget sample_enforced ''bhk'' = VStr ''2 BHK''"
  by code_simp+

lemma sample_enforced_Inr: "enforce_source_boundary sample_item ''2 bhk on rent'' = Inr sample_enforced"
  using sample_enforced_ok(1) by (simp add: sample_enforced_def)

theorem enforced_grounded_witness:
  "dget sample_enforced ''building_name'' = VNone \<and> dget sample_enforced ''needs_review'' = VBool True"
proof -
  have "dget sample_enforced ''building_name'' \<noteq> dget sample_item ''building_name''"
    unfolding sample_enforced_ok by code_simp
  then show ?thesis
    using enforced_grounded [OF sample_enforced_Inr] by (simp add: source_scoped_fields_def)
qed

theorem enforce_idempotent_witness:
  "enforce_source_boundary sample_enforced ''2 bhk on rent'' = Inr sample_enforced"
  by (rule enforce_idempotent [OF sample_enforced_Inr])

end
