(* ===== verification/ListingValidation.thy ===== *)
theory ListingValidation
  imports PyVal "HOL-Library.Char_ord" "HOL-Library.List_Lexorder"
begin

text \<open>
  \<open>listing_validation.py\<close>: the checks of a parsed listing before it is stored, the flags they raise,
  the locality checks against the reference tables, and the decision to hold a listing for review.
\<close>

section \<open>Tables\<close>

definition price_ranges :: "((string \<times> string) \<times> (int \<times> int)) list" where
  "price_ranges =
    [((''APARTMENT'', ''rent''), (3000, 1500000)), ((''VILLA'', ''rent''), (10000, 5000000)),
     ((''PENTHOUSE'', ''rent''), (25000, 8000000)), ((''STUDIO'', ''rent''), (5000, 80000)),
     ((''ROW_HOUSE'', ''rent''), (10000, 4000000)), ((''PLOT'', ''rent''), (1000, 500000)),
     ((''FARMHOUSE'', ''rent''), (5000, 2500000)), ((''DUPLEX'', ''rent''), (20000, 6000000)),
     ((''SOHO'', ''rent''), (8000, 2000000)),
     ((''APARTMENT'', ''sale''), (500000, 2000000000)), ((''VILLA'', ''sale''), (3000000, 50000000)),
     ((''PENTHOUSE'', ''sale''), (10000000, 80000000)), ((''STUDIO'', ''sale''), (1500000, 5000000)),
     ((''ROW_HOUSE'', ''sale''), (2000000, 10000000)), ((''PLOT'', ''sale''), (1000000, 20000000)),
     ((''FARMHOUSE'', ''sale''), (2500000, 15000000)), ((''DUPLEX'', ''sale''), (5000000, 40000000)),
     ((''SOHO'', ''sale''), (20000000, 1000000000)),
     ((''OFFICE_SPACE'', ''rent''), (8000, 8000000)), ((''OFFICE_SPACE'', ''sale''), (2000000, 50000000)),
     ((''SHOP'', ''rent''), (5000, 4000000)), ((''SHOP'', ''sale''), (1000000, 20000000)),
     ((''SHOWROOM'', ''rent''), (15000, 10000000)), ((''SHOWROOM'', ''sale''), (5000000, 50000000)),
     ((''WAREHOUSE'', ''rent''), (3000, 2000000)), ((''WAREHOUSE'', ''sale''), (1000000, 10000000)),
     ((''CO_WORKING'', ''rent''), (5000, 5000000)), ((''CO_WORKING'', ''sale''), (10000000, 500000000)),
     ((''INDUSTRIAL'', ''rent''), (2000, 3000000)), ((''INDUSTRIAL'', ''sale''), (1000000, 15000000))]"

definition commercial_category_aliases :: "(string \<times> string) list" where
  "commercial_category_aliases =
    [(''OFFICE'', ''OFFICE_SPACE''), (''OFFICE SPACE'', ''OFFICE_SPACE''), (''SHOP'', ''SHOP''),
     (''SHOWROOM'', ''SHOWROOM''), (''WAREHOUSE'', ''WAREHOUSE''), (''CO-WORKING'', ''CO_WORKING''),
     (''CO WORKING'', ''CO_WORKING''), (''COWORKING'', ''CO_WORKING''), (''INDUSTRIAL'', ''INDUSTRIAL'')]"

definition default_range :: "int \<times> int" where
  "default_range = (1000, 500000000)"

definition valid_intents :: "string list" where
  "valid_intents = [''SELL'', ''RENT'', ''BUY'', ''REQUIREMENT'', ''NO_ANCHOR'', ''DEMAND'']"

definition valid_price_units :: "pyval list" where
  "valid_price_units = [VStr ''abs'', VStr ''Cr'', VStr ''Lac'', VStr ''K'', VNone]"

definition valid_furnishings :: "string list" where
  "valid_furnishings =
    ['''', ''unfurnished'', ''semi_furnished'', ''fully_furnished'', ''bare_shell'', ''builder_finish'',
     ''not_specified'', ''none'']"

definition valid_possession :: "string list" where
  "valid_possession =
    ['''', ''ready_to_move'', ''under_construction'', ''ready_possession'', ''oc_received'', ''preleased'',
     ''not_specified'']"

definition valid_property_categories :: "string list" where
  "valid_property_categories =
    ['''', ''RESIDENTIAL'', ''COMMERCIAL'', ''APARTMENT'', ''VILLA'', ''PENTHOUSE'', ''STUDIO'', ''ROW_HOUSE'',
     ''PLOT'', ''FARMHOUSE'', ''DUPLEX'', ''SOHO'', ''OFFICE_SPACE'', ''SHOP'', ''SHOWROOM'', ''WAREHOUSE'',
     ''CO_WORKING'', ''INDUSTRIAL'']"

definition bhk_pattern :: pattern where
  "bhk_pattern = rx_plain ''^(%d+(?:%.%d+)?)%s*(?:BHK|RK)$''"

definition bhk_usual_re :: pattern where
  "bhk_usual_re = rx_plain ''^%d+(?:%.%d+)?%s*(?:BHK|RK|bhk|rk|Bedroom|bedroom)''"

definition rental_income_re :: pattern where
  "rental_income_re = rx_plain ''%b(?:monthly|rental)%s+income%b|%bmonthly%s+rent%b''"

section \<open>The result\<close>

record validation =
  vr_flags :: "string list"
  vr_reject :: bool
  vr_override :: "pyval option"

definition new_validation :: validation where
  "new_validation = \<lparr>vr_flags = [], vr_reject = False, vr_override = None\<rparr>"

definition flag :: "string \<Rightarrow> validation \<Rightarrow> validation" where
  "flag name r = r\<lparr>vr_flags := vr_flags r @ [name]\<rparr>"

definition hard_reject :: "string \<Rightarrow> validation \<Rightarrow> validation" where
  "hard_reject name r = r\<lparr>vr_flags := vr_flags r @ [name], vr_reject := True\<rparr>"

definition set_price_override :: "pyval option \<Rightarrow> validation \<Rightarrow> validation" where
  "set_price_override p r = r\<lparr>vr_override := p\<rparr>"

definition validation_ok :: "validation \<Rightarrow> bool" where
  "validation_ok r = (\<not> vr_reject r)"

section \<open>Reading the fields\<close>

text \<open>\<open>(v or '''')\<close> where a text method is called next.\<close>

definition text_of :: "pyval \<Rightarrow> string result" where
  "text_of v =
     (if \<not> truthy v then Inr [] else case v of VStr s \<Rightarrow> Inr s | _ \<Rightarrow> Inl AttributeError)"

text \<open>
  A price times a constant.  A price that is no number raises when it is compared with zero, right
  after.
\<close>

definition scaled :: "pyval \<Rightarrow> int \<Rightarrow> pyval result" where
  "scaled price k =
     (case price of
        VInt i \<Rightarrow> Inr (VInt (i * k))
      | VBool b \<Rightarrow> Inr (VInt (if b then k else 0))
      | VFloat x \<Rightarrow> Inr (VFloat (if k = 1 then x else fmul x (fint k)))
      | _ \<Rightarrow> Inl TypeError)"

definition unit_factor :: "string \<Rightarrow> int" where
  "unit_factor u =
     (if u \<in> {''cr'', ''crore''} then 10000000
      else if u \<in> {''lac'', ''lakh'', ''l''} then 100000
      else if u \<in> {''k'', ''thousand''} then 1000 else 1)"

definition abs_price_of :: "pyval \<Rightarrow> pyval \<Rightarrow> pyval option result" where
  "abs_price_of price price_unit =
     (if is_none price then Inr None
      else bindE (text_of price_unit) (\<lambda>u.
           bindE (scaled price (unit_factor (lower (strip u)))) (\<lambda>p. Inr (Some p))))"

definition parse_bhk_number :: "pyval \<Rightarrow> pyfloat option result" where
  "parse_bhk_number bhk =
     (if \<not> truthy bhk then Inr None
      else bindE (text_of bhk) (\<lambda>t.
        Inr (case re_match bhk_pattern (strip t) of
               Some m \<Rightarrow> Option.bind (m_group 1 m) parse_float
             | None \<Rightarrow> None)))"

text \<open>Comparison of a number with an integer, exact as in Python.\<close>

definition num :: "pyval \<Rightarrow> pyfloat" where
  "num v = (case num_val v of Some x \<Rightarrow> x | None \<Rightarrow> NaN)"

definition below :: "pyval \<Rightarrow> int \<Rightarrow> bool" where
  "below v k = flt (num v) (Fin (of_int k))"

definition above :: "pyval \<Rightarrow> int \<Rightarrow> bool" where
  "above v k = flt (Fin (of_int k)) (num v)"

definition not_positive :: "pyval \<Rightarrow> bool" where
  "not_positive v = fle (num v) (Fin 0)"

section \<open>The checks of a listing\<close>

text \<open>\<open>(v or '''').upper()\<close>.\<close>

definition upper_of :: "pyval \<Rightarrow> string result" where
  "upper_of v = bindE (text_of v) (\<lambda>s. Inr (upper s))"

definition sized_area :: "pydict \<Rightarrow> pyval" where
  "sized_area parsed =
     or_val (or_val (dget parsed ''area_sqft'') (dget parsed ''carpet_area_sqft'')) (dget parsed ''built_up_area_sqft'')"

definition property_category :: "pydict \<Rightarrow> string result" where
  "property_category parsed =
     bindE (upper_of (dget parsed ''asset_type'')) (\<lambda>a.
       let cat = replace ''-'' '' '' a in
       Inr (if cat = ''COMMERCIAL''
            then (case map_of commercial_category_aliases
                         (replace ''_'' '' '' (upper (str_or (dget parsed ''commercial_use_type'')))) of
                    Some c \<Rightarrow> c | None \<Rightarrow> ''COMMERCIAL'')
            else cat))"

definition range_for :: "string \<Rightarrow> string \<Rightarrow> int \<times> int" where
  "range_for cat txn =
     (case map_of price_ranges (cat, txn) of
        Some r \<Rightarrow> r
      | None \<Rightarrow> if cat = ''COMMERCIAL'' \<and> txn = ''sale'' then (1000000, 5000000000) else default_range)"

definition check_range :: "pyval \<Rightarrow> string \<Rightarrow> string \<Rightarrow> validation \<Rightarrow> validation" where
  "check_range p cat txn r =
     (case range_for cat txn of (lo, hi) \<Rightarrow>
        if below p lo then
          set_price_override None (flag (''price_below_range_'' @ cat @ ''_'' @ txn) r)
        else if above p hi then flag (''price_above_range_'' @ cat @ ''_'' @ txn) r
        else r)"

definition check_income :: "pydict \<Rightarrow> string \<Rightarrow> validation \<Rightarrow> validation" where
  "check_income parsed txn r =
     (if txn = ''sale'' \<and> re_found rental_income_re (lower (str_or (dget parsed ''price_raw_text'')))
      then set_price_override None (flag ''price_is_rental_income'' r) else r)"

text \<open>The rate per square foot of a sale, an integer price being converted first.\<close>

definition sale_rate :: "pyval \<Rightarrow> pyfloat option \<Rightarrow> string \<Rightarrow> pyfloat option result" where
  "sale_rate p area txn =
     (case area of
        Some a \<Rightarrow>
          if a \<noteq> Fin 0 \<and> flt (Fin 0) a \<and> txn = ''sale''
          then bindE (float_of p) (\<lambda>x. Inr (Some (fdiv x a))) else Inr None
      | None \<Rightarrow> Inr None)"

definition flag_low_rate :: "pyfloat option \<Rightarrow> pyfloat option \<Rightarrow> validation \<Rightarrow> validation" where
  "flag_low_rate rate area r =
     (case (rate, area) of
        (Some q, Some a) \<Rightarrow>
          if fle (Fin 1000) a \<and> flt q (Fin 500)
          then set_price_override None (flag ''price_per_sqft_implausibly_low'' r) else r
      | _ \<Rightarrow> r)"


definition check_rate :: "pydict \<Rightarrow> pyval \<Rightarrow> string \<Rightarrow> validation \<Rightarrow> validation result" where
  "check_rate parsed p txn r =
     catchE
       (bindE (if is_none (sized_area parsed) then Inr None
               else bindE (float_of (sized_area parsed)) (\<lambda>a. Inr (Some a))) (\<lambda>area.
        bindE (sale_rate p area txn) (\<lambda>rate.
          Inr (flag_low_rate rate area r))))
       [TypeError, ValueError, ZeroDivisionError] (Inr r)"

definition check_price :: "pydict \<Rightarrow> pyval \<Rightarrow> validation \<Rightarrow> validation result" where
  "check_price parsed p r =
     bindE (property_category parsed) (\<lambda>cat.
     bindE (upper_of (dget parsed ''intent'')) (\<lambda>intent.
       let txn = (if intent = ''RENT'' then ''rent'' else ''sale'')
       in check_rate parsed p txn (check_income parsed txn (check_range p cat txn r))))"

definition check_unit :: "pydict \<Rightarrow> validation \<Rightarrow> validation result" where
  "check_unit parsed r =
     (let u = dget parsed ''price_unit'' in
      if \<not> hashable u then Inl TypeError
      else if list_ex (py_eq u) valid_price_units then Inr r
      else Inr (flag (''invalid_price_unit:'' @ py_str u) r))"

definition flag_bhk :: "pyfloat option \<Rightarrow> string \<Rightarrow> validation \<Rightarrow> validation" where
  "flag_bhk n t r =
     (case n of
        Some x \<Rightarrow>
          let r1 = (if flt (Fin 10) x then flag (''bhk_too_high:'' @ t) r else r)
          in if feq x (Fin 0) \<and> \<not> contains (upper t) ''RK'' then flag ''bhk_zero_not_rk'' r1 else r1
      | None \<Rightarrow>
          if strip t \<noteq> [] \<and> re_match bhk_usual_re (strip t) = None
          then flag (''bhk_format_unusual:'' @ t) r else r)"


definition check_bhk :: "pydict \<Rightarrow> validation \<Rightarrow> validation result" where
  "check_bhk parsed r =
     (let bhk = dget parsed ''bhk'' in
      bindE (parse_bhk_number bhk) (\<lambda>n. bindE (text_of bhk) (\<lambda>t.
        Inr (flag_bhk n t r))))"

definition check_area :: "pydict \<Rightarrow> validation \<Rightarrow> validation result" where
  "check_area parsed r =
     (if is_none (sized_area parsed) then Inr r
      else catchE
        (bindE (float_of (sized_area parsed)) (\<lambda>a.
          Inr (if fle a (Fin 0) then flag ''area_non_positive'' r
               else if flt a (Fin 100) \<or> flt (Fin 100000) a then flag (''area_out_of_range:'' @ float_repr a) r
               else r)))
        [TypeError, ValueError] (Inr (flag ''area_not_numeric'' r)))"

definition check_intent :: "pydict \<Rightarrow> string \<Rightarrow> validation \<Rightarrow> validation" where
  "check_intent parsed intent r =
     (if intent \<noteq> [] \<and> intent \<notin> set valid_intents
      then flag (''invalid_intent:'' @ py_str (dget parsed ''intent'')) r else r)"

definition check_words :: "string \<Rightarrow> string \<Rightarrow> string list \<Rightarrow> pydict \<Rightarrow> validation \<Rightarrow> validation result" where
  "check_words key name allowed parsed r =
     bindE (text_of (dget parsed key)) (\<lambda>t.
       Inr (if t \<noteq> [] \<and> lower (strip t) \<notin> set allowed then flag (name @ t) r else r))"

definition anchored :: "pydict \<Rightarrow> bool" where
  "anchored parsed =
     (truthy (dget parsed ''building_name'') \<or> truthy (dget parsed ''micro_market'') \<or> truthy (dget parsed ''location_raw''))"

definition check_anchor :: "pydict \<Rightarrow> string \<Rightarrow> validation \<Rightarrow> validation" where
  "check_anchor parsed intent r =
     (if intent \<in> {''NO_ANCHOR'', ''''} then r
      else
        let r1 = (if anchored parsed then r else flag ''missing_building_or_locality'' r)
        in if intent \<in> {''SELL'', ''RENT'', ''LEASE''} \<and> is_none (dget parsed ''price'')
           then flag ''missing_price'' r1 else r1)"

definition cross_deviates :: "pyval \<Rightarrow> pyval \<Rightarrow> pyval \<Rightarrow> bool result" where
  "cross_deviates asked rate area =
     bindE (float_of rate) (\<lambda>q. bindE (float_of area) (\<lambda>a.
       let expected = fmul q a in
       if \<not> flt (Fin 0) expected then Inr False
       else bindE (float_of asked) (\<lambda>t.
              Inr (flt (flit (15 / 100)) (fdiv (fabs (fsub t expected)) expected)))))"

definition check_cross :: "pydict \<Rightarrow> validation \<Rightarrow> validation result" where
  "check_cross parsed r =
     (let asked = or_val (dget parsed ''total_asking_price'') (dget parsed ''monthly_rent'');
          rate = or_val (dget parsed ''price_per_sqft'') (dget parsed ''rent_per_sqft'');
          area = or_val (dget parsed ''area_sqft'') (dget parsed ''carpet_area_sqft'')
      in if is_none asked \<or> is_none rate \<or> \<not> truthy area then Inr r
         else catchE
           (bindE (cross_deviates asked rate area) (\<lambda>d.
             Inr (if d then flag ''price_area_cross_validation_mismatch'' r else r)))
           [TypeError, ValueError, ZeroDivisionError]
           (Inr (flag ''price_area_cross_validation_invalid'' r)))"

definition check_category :: "pydict \<Rightarrow> validation \<Rightarrow> validation result" where
  "check_category parsed r =
     bindE (text_of (dget parsed ''asset_type'')) (\<lambda>t.
       Inr (if t \<noteq> [] \<and> upper t \<notin> set valid_property_categories
            then flag (''unrecognised_asset_type:'' @ t) r else r))"

definition check_deposit :: "pydict \<Rightarrow> pyval option \<Rightarrow> string \<Rightarrow> validation \<Rightarrow> validation result" where
  "check_deposit parsed price intent r =
     (case price of
        None \<Rightarrow> Inr r
      | Some p \<Rightarrow>
          if is_none (dget parsed ''deposit_amount'') then Inr r
          else catchE
            (bindE (float_of (dget parsed ''deposit_amount'')) (\<lambda>d.
              if flt (Fin 0) d \<and> intent = ''RENT'' then
                bindE (scaled p 24) (\<lambda>limit.
                  Inr (if flt (num limit) d then flag (''deposit_exceeds_24x_rent:'' @ float_repr d) r else r))
              else Inr r))
            [TypeError, ValueError] (Inr r))"

definition check_consistency :: "pyval option \<Rightarrow> string \<Rightarrow> validation \<Rightarrow> validation" where
  "check_consistency price intent r =
     (case price of
        None \<Rightarrow> r
      | Some p \<Rightarrow>
          let r1 = (if intent = ''RENT'' \<and> above p 50000000
                    then set_price_override None (flag ''rent_price_over_5cr'' r) else r)
          in if intent = ''SELL'' \<and> below p 500000
             then set_price_override None (flag ''sale_price_under_5l'' r1) else r1)"

text \<open>A price that is zero or negative is flagged and no longer looked at.\<close>

definition start_price :: "pyval option \<Rightarrow> validation \<times> pyval option" where
  "start_price price =
     (case price of
        None \<Rightarrow> (new_validation, None)
      | Some p \<Rightarrow>
          if not_positive p
          then (set_price_override None (flag ''price_negative_or_zero'' new_validation), None)
          else (new_validation, Some p))"

definition validate_listing :: "pydict \<Rightarrow> validation result" where
  "validate_listing parsed =
     bindE (abs_price_of (dget parsed ''price'') (dget parsed ''price_unit'')) (\<lambda>price0.
       case start_price price0 of (r0, price) \<Rightarrow>
         bindE (case price of Some p \<Rightarrow> check_price parsed p r0 | None \<Rightarrow> Inr r0) (\<lambda>r1.
         bindE (check_unit parsed r1) (\<lambda>r2.
         bindE (check_bhk parsed r2) (\<lambda>r3.
         bindE (check_area parsed r3) (\<lambda>r4.
         bindE (upper_of (dget parsed ''intent'')) (\<lambda>intent.
         bindE (check_words ''furnishing'' ''unrecognised_furnishing:'' valid_furnishings parsed
                  (check_intent parsed intent r4)) (\<lambda>r5.
         bindE (check_words ''possession_status'' ''unrecognised_possession:'' valid_possession parsed r5) (\<lambda>r6.
         bindE (check_cross parsed (check_anchor parsed intent r6)) (\<lambda>r7.
         bindE (check_category parsed r7) (\<lambda>r8.
         bindE (check_deposit parsed price intent r8) (\<lambda>r9.
           Inr (check_consistency price intent r9))))))))))))"

section \<open>The decision\<close>

definition price_flag :: "string \<Rightarrow> bool" where
  "price_flag f = startswith f ''price_''"

definition locality_flag :: "string \<Rightarrow> bool" where
  "locality_flag f = (startswith f ''micro_market'' \<or> startswith f ''building_locality'')"

definition existing_flags :: "pydict \<Rightarrow> pyval list result" where
  "existing_flags parsed =
     bindE (list_or_empty (dget parsed ''validation_flags'')) (\<lambda>fs.
       Inr (if truthy (dget parsed ''needs_review'') \<and> \<not> list_ex (py_eq (VStr ''ai_needs_review'')) fs
            then fs @ [VStr ''ai_needs_review''] else fs))"

definition apply_validation :: "pydict \<Rightarrow> validation \<Rightarrow> pydict result" where
  "apply_validation parsed r =
     bindE (existing_flags parsed) (\<lambda>fs.
       let flags = fs @ map VStr (vr_flags r);
           held = list_ex price_flag (vr_flags r);
           out1 = dput parsed ''validation_flags''
                    (VList (if held then flags @ [VStr ''price_held_for_review''] else flags));
           out2 = dput out1 ''needs_review'' (VBool (flags \<noteq> []));
           out3 = dput out2 ''price_validated'' (VBool (\<not> held));
           out4 = dput out3 ''locality_validated'' (VBool (\<not> list_ex locality_flag (vr_flags r)))
       in Inr (if held then dput out4 ''publication_status'' (VStr ''held'') else out4))"

section \<open>The locality checks\<close>

text \<open>
  The reference tables, \<open>None\<close> standing for a query that raises: the rows whose parent locality is a
  name, the rows whose sub-locality is one, and the rows of a building with a known market.
\<close>

record locality_db =
  db_parent :: "string \<Rightarrow> pydict list option"
  db_sub :: "string \<Rightarrow> pydict list option"
  db_building :: "string \<Rightarrow> pydict list option"

definition market_in_reference :: "locality_db \<Rightarrow> string \<Rightarrow> bool option" where
  "market_in_reference db m =
     (case db_parent db m of
        None \<Rightarrow> None
      | Some rows \<Rightarrow> if rows \<noteq> [] then Some True else map_option (\<lambda>rows. rows \<noteq> []) (db_sub db m))"

definition reference_flags :: "locality_db \<Rightarrow> string \<Rightarrow> string list" where
  "reference_flags db m =
     (if market_in_reference db m = Some False then [''micro_market_not_in_reference:'' @ m] else [])"

definition known_markets :: "pydict list \<Rightarrow> string list result" where
  "known_markets rows =
     bindE (mapE (\<lambda>r. text_of (dget r ''micro_market'')) rows) (\<lambda>ts.
       Inr (filter (\<lambda>t. t \<noteq> []) (map strip ts)))"

definition building_flags :: "locality_db \<Rightarrow> string \<Rightarrow> string \<Rightarrow> string list" where
  "building_flags db m building =
     (if building = [] then []
      else case db_building db building of
             None \<Rightarrow> []
           | Some rows \<Rightarrow>
               (case known_markets rows of
                  Inl _ \<Rightarrow> []
                | Inr known \<Rightarrow>
                    let others = sorted_list_of_set (set known - {m})
                    in if others = [] then []
                       else [''building_locality_mismatch:'' @ m @ ''_vs_'' @ join '','' others]))"

definition validate_listing_locality :: "pydict \<Rightarrow> locality_db option \<Rightarrow> string list result" where
  "validate_listing_locality parsed storage =
     bindE (text_of (dget parsed ''micro_market'')) (\<lambda>m0.
     bindE (text_of (dget parsed ''building_name'')) (\<lambda>b0.
       let m = strip m0; building = strip b0 in
       Inr (if m = [] then []
            else case storage of
                   None \<Rightarrow> []
                 | Some db \<Rightarrow> reference_flags db m @ building_flags db m building)))"

section \<open>Facts\<close>

text \<open>A check only adds flags: it never rejects, and never sets a price.\<close>

definition extends :: "validation \<Rightarrow> validation \<Rightarrow> bool" where
  "extends r r' = ((\<exists>fs. vr_flags r' = vr_flags r @ fs) \<and> vr_reject r' = vr_reject r \<and>
     (vr_override r = None \<longrightarrow> vr_override r' = None))"

lemma extends_refl [simp, intro]: "extends r r"
  by (simp add: extends_def)

lemma extends_trans: "extends a b \<Longrightarrow> extends b c \<Longrightarrow> extends a c"
  by (auto simp: extends_def)

lemma extends_flag [simp, intro]: "extends r (flag f r)"
  by (simp add: extends_def flag_def)

lemma extends_override [simp, intro]: "extends r (set_price_override None (flag f r))"
  by (simp add: extends_def flag_def set_price_override_def)

lemma extends_flag2: "extends r (flag g (flag f r))"
  by (simp add: extends_def flag_def)

named_theorems extends_checks

lemma range_extends [extends_checks]: "extends r (check_range p cat txn r)"
  by (simp add: check_range_def split: prod.split)

lemma income_extends [extends_checks]: "extends r (check_income parsed txn r)"
  by (simp add: check_income_def)

lemma low_rate_extends: "extends r (flag_low_rate rate area r)"
  by (auto simp: flag_low_rate_def split: option.splits)

lemma catchE_cases: "catchE m es (Inr r) = Inr r' \<Longrightarrow> m = Inr r' \<or> r' = r"
  by (auto simp: catchE_def split: sum.splits if_splits)

lemma rate_extends [extends_checks]: "check_rate parsed p txn r = Inr r' \<Longrightarrow> extends r r'"
  unfolding check_rate_def by (drule catchE_cases) (auto simp: bindE_Inr_iff intro: low_rate_extends)

lemma price_extends [extends_checks]: "check_price parsed p r = Inr r' \<Longrightarrow> extends r r'"
  by (auto simp: check_price_def bindE_Inr_iff Let_def
      intro: extends_trans [OF extends_trans [OF range_extends income_extends] rate_extends])

lemma unit_extends [extends_checks]: "check_unit parsed r = Inr r' \<Longrightarrow> extends r r'"
  by (auto simp: check_unit_def Let_def split: if_splits)

lemma bhk_flag_extends: "extends r (flag_bhk n t r)"
  by (cases n) (simp_all add: flag_bhk_def Let_def extends_flag2)

lemma bhk_extends [extends_checks]: "check_bhk parsed r = Inr r' \<Longrightarrow> extends r r'"
  by (auto simp: check_bhk_def Let_def bindE_Inr_iff intro: bhk_flag_extends)

lemma area_extends [extends_checks]: "check_area parsed r = Inr r' \<Longrightarrow> extends r r'"
  by (auto simp: check_area_def catchE_def bindE_Inr_iff split: sum.splits if_splits)

lemma intent_extends [extends_checks]: "extends r (check_intent parsed intent r)"
  by (simp add: check_intent_def)

lemma words_extends [extends_checks]: "check_words key name allowed parsed r = Inr r' \<Longrightarrow> extends r r'"
  by (auto simp: check_words_def bindE_Inr_iff split: if_splits)

lemma anchor_extends [extends_checks]: "extends r (check_anchor parsed intent r)"
  by (simp add: check_anchor_def Let_def extends_flag2)

lemma cross_extends [extends_checks]: "check_cross parsed r = Inr r' \<Longrightarrow> extends r r'"
  by (auto simp: check_cross_def Let_def catchE_def bindE_Inr_iff split: sum.splits if_splits)

lemma category_extends [extends_checks]: "check_category parsed r = Inr r' \<Longrightarrow> extends r r'"
  by (auto simp: check_category_def bindE_Inr_iff split: if_splits)

lemma deposit_extends [extends_checks]: "check_deposit parsed price intent r = Inr r' \<Longrightarrow> extends r r'"
  by (auto simp: check_deposit_def catchE_def bindE_Inr_iff split: sum.splits if_splits option.splits)

lemma consistency_extends [extends_checks]: "extends r (check_consistency price intent r)"
proof (cases price)
  case (Some p)
  let ?r1 = "if intent = ''RENT'' \<and> above p 50000000 then set_price_override None (flag ''rent_price_over_5cr'' r) else r"
  have "extends r ?r1" by simp
  moreover have "extends ?r1 (check_consistency price intent r)"
    by (simp add: check_consistency_def Some Let_def)
  ultimately show ?thesis by (rule extends_trans)
qed (simp add: check_consistency_def)

lemma start_extends: "extends new_validation (fst (start_price price))"
  by (auto simp: start_price_def split: option.splits)

text \<open>The checks after the price checks.\<close>

definition later_checks :: "pydict \<Rightarrow> pyval option \<Rightarrow> validation \<Rightarrow> validation result" where
  "later_checks parsed price r1 =
     bindE (check_unit parsed r1) (\<lambda>r2.
     bindE (check_bhk parsed r2) (\<lambda>r3.
     bindE (check_area parsed r3) (\<lambda>r4.
     bindE (upper_of (dget parsed ''intent'')) (\<lambda>intent.
     bindE (check_words ''furnishing'' ''unrecognised_furnishing:'' valid_furnishings parsed
              (check_intent parsed intent r4)) (\<lambda>r5.
     bindE (check_words ''possession_status'' ''unrecognised_possession:'' valid_possession parsed r5) (\<lambda>r6.
     bindE (check_cross parsed (check_anchor parsed intent r6)) (\<lambda>r7.
     bindE (check_category parsed r7) (\<lambda>r8.
     bindE (check_deposit parsed price intent r8) (\<lambda>r9.
       Inr (check_consistency price intent r9))))))))))"

lemma later_checks_steps:
  assumes "later_checks parsed price r1 = Inr r"
  obtains r2 r3 r4 r6 r7 r8 r9 intent where "check_unit parsed r1 = Inr r2" "check_bhk parsed r2 = Inr r3"
    "check_area parsed r3 = Inr r4" "upper_of (dget parsed ''intent'') = Inr intent" "extends r4 r6"
    "check_cross parsed (check_anchor parsed intent r6) = Inr r7" "check_category parsed r7 = Inr r8"
    "check_deposit parsed price intent r8 = Inr r9" "r = check_consistency price intent r9"
proof -
  from assms obtain r2 r3 r4 r5 r6 r7 r8 r9 intent where
    s: "check_unit parsed r1 = Inr r2" "check_bhk parsed r2 = Inr r3"
    "check_area parsed r3 = Inr r4" "upper_of (dget parsed ''intent'') = Inr intent"
    "check_words ''furnishing'' ''unrecognised_furnishing:'' valid_furnishings parsed (check_intent parsed intent r4) = Inr r5"
    "check_words ''possession_status'' ''unrecognised_possession:'' valid_possession parsed r5 = Inr r6"
    "check_cross parsed (check_anchor parsed intent r6) = Inr r7" "check_category parsed r7 = Inr r8"
    "check_deposit parsed price intent r8 = Inr r9" "r = check_consistency price intent r9"
    unfolding later_checks_def bindE_Inr_iff by blast
  have "extends r4 r6"
    by (rule extends_trans [OF intent_extends extends_trans [OF words_extends [OF s(5)] words_extends [OF s(6)]]])
  then show thesis using that s by blast
qed

lemma later_checks_extends:
  assumes "later_checks parsed price r1 = Inr r"
  shows "extends r1 r"
  using assms
proof (rule later_checks_steps)
  fix r2 r3 r4 r6 r7 r8 r9 intent
  assume s: "check_unit parsed r1 = Inr r2" "check_bhk parsed r2 = Inr r3"
    "check_area parsed r3 = Inr r4" "extends r4 r6"
    "check_cross parsed (check_anchor parsed intent r6) = Inr r7" "check_category parsed r7 = Inr r8"
    "check_deposit parsed price intent r8 = Inr r9" "r = check_consistency price intent r9"
  note e = extends_trans
  from s show "extends r1 r"
    by (blast intro: e [OF unit_extends e [OF bhk_extends e [OF area_extends e [OF _ e [OF anchor_extends
      e [OF cross_extends e [OF category_extends e [OF deposit_extends]]]]]]]] consistency_extends)
qed

lemma validate_listing_split:
  "validate_listing parsed =
     bindE (abs_price_of (dget parsed ''price'') (dget parsed ''price_unit'')) (\<lambda>price0.
     bindE (case snd (start_price price0) of
              Some p \<Rightarrow> check_price parsed p (fst (start_price price0))
            | None \<Rightarrow> Inr (fst (start_price price0))) (\<lambda>r1.
       later_checks parsed (snd (start_price price0)) r1))"
  unfolding validate_listing_def later_checks_def by (simp add: case_prod_unfold)

lemma validate_steps:
  assumes "validate_listing parsed = Inr r"
  obtains price0 r1 where "abs_price_of (dget parsed ''price'') (dget parsed ''price_unit'') = Inr price0"
    "(case snd (start_price price0) of
        Some p \<Rightarrow> check_price parsed p (fst (start_price price0))
      | None \<Rightarrow> Inr (fst (start_price price0))) = Inr r1"
    "extends (fst (start_price price0)) r1"
    "later_checks parsed (snd (start_price price0)) r1 = Inr r" "extends r1 r"
proof -
  from assms obtain price0 r1 where s: "abs_price_of (dget parsed ''price'') (dget parsed ''price_unit'') = Inr price0"
    "(case snd (start_price price0) of
        Some p \<Rightarrow> check_price parsed p (fst (start_price price0))
      | None \<Rightarrow> Inr (fst (start_price price0))) = Inr r1"
    "later_checks parsed (snd (start_price price0)) r1 = Inr r"
    unfolding validate_listing_split bindE_Inr_iff by blast
  have "extends (fst (start_price price0)) r1"
    using s(2) price_extends by (auto split: option.splits)
  with s later_checks_extends [OF s(3)] that show thesis by blast
qed

definition has_price_flag :: "validation \<Rightarrow> bool" where
  "has_price_flag r = list_ex price_flag (vr_flags r)"

lemma extends_price_flag: "extends r r' \<Longrightarrow> has_price_flag r \<Longrightarrow> has_price_flag r'"
  by (auto simp: extends_def has_price_flag_def)


definition in_range_price :: "pyval \<Rightarrow> string \<Rightarrow> string \<Rightarrow> bool" where
  "in_range_price p cat txn =
     (\<not> below p (fst (range_for cat txn)) \<and> \<not> above p (snd (range_for cat txn)))"

lemma check_range_flags:
  "\<not> in_range_price p cat txn \<Longrightarrow> has_price_flag (check_range p cat txn r)"
  by (auto simp: in_range_price_def check_range_def has_price_flag_def flag_def set_price_override_def
      price_flag_def startswith_def split: prod.splits)

lemma check_price_range:
  assumes "check_price parsed p r = Inr r1"
  obtains cat intent where "property_category parsed = Inr cat" "upper_of (dget parsed ''intent'') = Inr intent"
    "extends (check_range p cat (if intent = ''RENT'' then ''rent'' else ''sale'') r) r1"
  using assms
  by (auto simp: check_price_def bindE_Inr_iff Let_def intro: extends_trans [OF income_extends rate_extends])

text \<open>The flags of a price: none only if the price is positive and in the range of its kind.\<close>

lemma priced_flags:
  assumes "validate_listing parsed = Inr r"
    and "abs_price_of (dget parsed ''price'') (dget parsed ''price_unit'') = Inr (Some p)"
    and "property_category parsed = Inr cat" and "upper_of (dget parsed ''intent'') = Inr intent"
    and "not_positive p \<or> \<not> in_range_price p cat (if intent = ''RENT'' then ''rent'' else ''sale'')"
  shows "has_price_flag r"
  using assms(1)
proof (rule validate_steps)
  fix price0 r1
  assume a: "abs_price_of (dget parsed ''price'') (dget parsed ''price_unit'') = Inr price0"
    and s: "(case snd (start_price price0) of
        Some p \<Rightarrow> check_price parsed p (fst (start_price price0))
      | None \<Rightarrow> Inr (fst (start_price price0))) = Inr r1"
    and e: "extends (fst (start_price price0)) r1" "extends r1 r"
  from a assms(2) have p: "price0 = Some p" by simp
  show ?thesis
  proof (cases "not_positive p")
    case True
    then have "has_price_flag (fst (start_price price0))"
      by (simp add: p start_price_def has_price_flag_def flag_def set_price_override_def price_flag_def startswith_def)
    then show ?thesis using e extends_price_flag by blast
  next
    case False
    with s p have "check_price parsed p new_validation = Inr r1" by (simp add: start_price_def)
    then show ?thesis
      by (rule check_price_range) (use False assms(3-5) e check_range_flags extends_price_flag in auto)
  qed
qed


section \<open>Properties\<close>


text \<open>
  An implausible price is held, never erased.  If the price of a listing is not positive, or outside the
  range of its category and transaction, then the listing that \<open>apply_validation\<close> returns is held
  from publication and marked for review, with the flags of before and of the check, and every
  field apart from the five marks - the price among them - is unchanged.
\<close>

theorem implausible_price_held:
  assumes "validate_listing parsed = Inr r" and "apply_validation parsed r = Inr out"
    and "abs_price_of (dget parsed ''price'') (dget parsed ''price_unit'') = Inr (Some p)"
    and "property_category parsed = Inr cat" and "upper_of (dget parsed ''intent'') = Inr intent"
    and "not_positive p \<or> \<not> in_range_price p cat (if intent = ''RENT'' then ''rent'' else ''sale'')"
  shows "dget out ''publication_status'' = VStr ''held'' \<and> dget out ''needs_review'' = VBool True \<and>
    dget out ''price_validated'' = VBool False \<and>
    (\<forall>k. k \<notin> {''validation_flags'', ''needs_review'', ''price_validated'', ''locality_validated'', ''publication_status''}
       \<longrightarrow> dget out k = dget parsed k)"
proof -
  have "list_ex price_flag (vr_flags r)"
    using priced_flags [OF assms(1,3-6)] by (simp add: has_price_flag_def)
  moreover from this have "vr_flags r \<noteq> []" by auto
  ultimately show ?thesis using assms(2) by (auto simp: apply_validation_def Let_def bindE_Inr_iff)
qed

text \<open>
  The validation never rejects a listing and never replaces a price: whatever the input, the result
  of \<open>validate_listing\<close> is ok and has no override.
\<close>

theorem never_rejects:
  assumes "validate_listing parsed = Inr r"
  shows "validation_ok r \<and> vr_override r = None"
  using assms
proof (rule validate_steps)
  fix price0 r1
  assume "extends (fst (start_price price0)) r1" "extends r1 r"
  then have "extends new_validation r" using start_extends extends_trans by blast
  then show ?thesis by (simp add: extends_def new_validation_def validation_ok_def)
qed

section \<open>Examples\<close>

definition dear_villa :: pydict where
  "dear_villa =
     [(''price'', VInt 60000000), (''asset_type'', VStr ''VILLA''), (''intent'', VStr ''SELL''),
      (''building_name'', VStr ''Palm House''), (''bhk'', VStr ''4 BHK''), (''area_sqft'', VInt 3000)]"

text \<open>
  The sale ceilings of most categories are a hundred times lower than they are documented.  A villa for
  sale at six crore - the table's comment says the range ends at 500 crore - is flagged as above
  the range and held from publication.
\<close>

theorem six_crore_villa_held:
  "\<exists>r out. validate_listing dear_villa = Inr r \<and> apply_validation dear_villa r = Inr out \<and>
     vr_flags r = [''price_above_range_VILLA_sale''] \<and> dget out ''publication_status'' = VStr ''held''"
proof -
  have v: "validate_listing dear_villa = Inr \<lparr>vr_flags = [''price_above_range_VILLA_sale''], vr_reject = False, vr_override = None\<rparr>"
    by code_simp
  have "bindE (apply_validation dear_villa \<lparr>vr_flags = [''price_above_range_VILLA_sale''], vr_reject = False, vr_override = None\<rparr>)
      (\<lambda>out. Inr (dget out ''publication_status'')) = Inr (VStr ''held'')"
    by code_simp
  with v show ?thesis by (auto simp: bindE_Inr_iff)
qed

definition sane_flat :: pydict where
  "sane_flat =
     [(''price'', VInt 5), (''price_unit'', VStr ''Cr''), (''asset_type'', VStr ''apartment''), (''intent'', VStr ''SELL''),
      (''building_name'', VStr ''Palm House''), (''bhk'', VStr ''3 BHK''), (''area_sqft'', VInt 1200)]"


text \<open>The pattern of the count is case-sensitive, the one for usual forms is not: fifteen bedrooms pass.\<close>

lemma lower_case_bhk_unflagged:
  "validate_listing (dput sane_flat ''bhk'' (VStr ''15 bhk'')) = Inr new_validation"
  by code_simp

lemma dear_villa_valid:
  "validate_listing dear_villa = Inr (flag ''price_above_range_VILLA_sale'' new_validation)"
  by code_simp


theorem implausible_price_held_witness:
  "\<exists>out. apply_validation dear_villa (flag ''price_above_range_VILLA_sale'' new_validation) = Inr out \<and>
     dget out ''publication_status'' = VStr ''held'' \<and> dget out ''price'' = VInt 60000000"
proof -
  have p: "dget dear_villa ''price'' = VInt 60000000" by code_simp
  have f: "abs_price_of (dget dear_villa ''price'') (dget dear_villa ''price_unit'') = Inr (Some (VInt 60000000))"
    "property_category dear_villa = Inr ''VILLA''" "upper_of (dget dear_villa ''intent'') = Inr ''SELL''"
    "not_positive (VInt 60000000) \<or> \<not> in_range_price (VInt 60000000) ''VILLA'' (if ''SELL'' = ''RENT'' then ''rent'' else ''sale'')"
    by code_simp+
  have "existing_flags dear_villa = Inr []" by code_simp
  then obtain out where "apply_validation dear_villa (flag ''price_above_range_VILLA_sale'' new_validation) = Inr out"
    by (simp add: apply_validation_def Let_def)
  with implausible_price_held [OF dear_villa_valid this f] p show ?thesis by auto
qed

theorem never_rejects_witness: "validation_ok (flag ''price_above_range_VILLA_sale'' new_validation)"
  using never_rejects [OF dear_villa_valid] by blast

end
