(* ===== verification/Scheduler.thy ===== *)
theory Scheduler
  imports PyVal
begin

text \<open>
  \<open>scheduler.py\<close> and \<open>ingestion/registry.py\<close>: the background synchronisation of the sources, as a
  transition system.  The state is the scheduler object, the job rows it writes, the events it
  publishes and the threads it started; a thread takes one step for every iteration of its loops,
  and \<open>start\<close> and \<open>stop\<close> interleave with the threads.

  What a source answers (whether it is connected, its jobs, how many records its iterator yields, possibly
  without an end), whether a record is processed, and whether a call of the job store raises, is chosen by the
  environment.  The lock of the scheduler guards short blocks without a call; each of them lies within one step
  here, so the state has no lock.  The running flag is read without the lock at the head of the loops.
\<close>

section \<open>The registry of sources\<close>

text \<open>A source is known by its name; registering a name again replaces the source in its place.\<close>

type_synonym 'a registry = "(string \<times> 'a) list"

fun register :: "'a registry \<Rightarrow> string \<Rightarrow> 'a \<Rightarrow> 'a registry" where
  "register [] n x = [(n, x)]"
| "register ((m, y) # r) n x = (if m = n then (n, x) # r else (m, y) # register r n x)"

definition registry_get :: "'a registry \<Rightarrow> string \<Rightarrow> 'a option" where
  "registry_get r n = map_of r n"

definition registry_all :: "'a registry \<Rightarrow> 'a list" where
  "registry_all r = map snd r"

definition registry_names :: "'a registry \<Rightarrow> string list" where
  "registry_names r = map fst r"

section \<open>Jobs, rows and events\<close>

record sync_job =
  sj_source :: string
  sj_instance :: string
  sj_group_id :: string
  sj_group_name :: string
  sj_meta :: pydict

datatype job_status = Pending | Running | Complete | Failed | Cancelled

record job_row =
  jr_job :: sync_job
  jr_status :: job_status
  jr_found :: nat
  jr_processed :: nat
  jr_failed :: nat
  jr_cursor :: "string option"
  jr_error :: "string option"

datatype event =
    Progress nat string nat nat nat
  | Completed nat string job_status nat nat nat

text \<open>
  The counts of the job a thread is in: records still to come (\<open>None\<close>: an iterator without an end), found,
  processed, failed.
\<close>

record counts =
  ct_left :: "nat option"
  ct_found :: nat
  ct_processed :: nat
  ct_failed :: nat

type_synonym entry = "nat \<times> sync_job"

datatype worker =
    Starting string
  | Discovering "string list" "entry list"
  | Creating "sync_job list" "string list" "entry list"
  | Dispatching "entry list" nat nat
  | InJob entry counts "entry list" nat nat
  | Finished

section \<open>The state\<close>

record sched =
  sd_running :: bool
  sd_overall :: string
  sd_total :: nat
  sd_completed :: nat
  sd_failed :: nat
  sd_records_ok :: nat
  sd_records_failed :: nat
  sd_started_at :: "nat option"
  sd_completed_at :: "nat option"
  sd_error :: "string option"
  sd_rows :: "nat \<Rightarrow> job_row option"
  sd_events :: "event list"
  sd_workers :: "worker list"

definition idle :: sched where
  "idle =
     \<lparr>sd_running = False, sd_overall = ''idle'', sd_total = 0, sd_completed = 0, sd_failed = 0,
      sd_records_ok = 0, sd_records_failed = 0, sd_started_at = None, sd_completed_at = None,
      sd_error = None, sd_rows = Map.empty, sd_events = [], sd_workers = []\<rparr>"

definition start :: "string \<Rightarrow> nat \<Rightarrow> sched \<Rightarrow> bool \<times> sched" where
  "start src t s =
     (if sd_running s then (False, s)
      else (True, s\<lparr>sd_running := True, sd_overall := ''running'', sd_started_at := Some t,
                    sd_workers := sd_workers s @ [Starting src]\<rparr>))"

definition stop :: "sched \<Rightarrow> sched" where
  "stop s = s\<lparr>sd_running := False\<rparr>"

definition mark_complete :: "nat \<Rightarrow> sched \<Rightarrow> sched" where
  "mark_complete t s = s\<lparr>sd_running := False, sd_overall := ''complete'', sd_completed_at := Some t\<rparr>"

text \<open>The handler around the whole of \<open>_run\<close>.\<close>

definition run_failed :: "string \<Rightarrow> sched \<Rightarrow> sched" where
  "run_failed msg s = s\<lparr>sd_overall := ''error'', sd_error := Some msg\<rparr>"

section \<open>Writing rows\<close>

definition new_row :: "sync_job \<Rightarrow> job_row" where
  "new_row j =
     \<lparr>jr_job = j, jr_status = Pending, jr_found = 0, jr_processed = 0, jr_failed = 0, jr_cursor = None,
      jr_error = None\<rparr>"

definition update_row :: "nat \<Rightarrow> (job_row \<Rightarrow> job_row) \<Rightarrow> sched \<Rightarrow> sched" where
  "update_row i f s = s\<lparr>sd_rows := (sd_rows s)(i := map_option f (sd_rows s i))\<rparr>"

definition cursor_text :: "nat \<Rightarrow> string option" where
  "cursor_text n = Some (show_int (int n))"

definition set_running :: "nat \<Rightarrow> sched \<Rightarrow> sched" where
  "set_running i = update_row i (\<lambda>r. r\<lparr>jr_status := Running\<rparr>)"

definition set_cancelled :: "nat \<Rightarrow> counts \<Rightarrow> sched \<Rightarrow> sched" where
  "set_cancelled i c = update_row i (\<lambda>r. r\<lparr>jr_status := Cancelled, jr_processed := ct_processed c,
     jr_failed := ct_failed c, jr_cursor := cursor_text (ct_processed c + ct_found c)\<rparr>)"

definition set_progress :: "nat \<Rightarrow> counts \<Rightarrow> sched \<Rightarrow> sched" where
  "set_progress i c = update_row i (\<lambda>r. r\<lparr>jr_processed := ct_processed c, jr_failed := ct_failed c,
     jr_cursor := cursor_text (ct_found c)\<rparr>)"

definition end_status :: "counts \<Rightarrow> job_status" where
  "end_status c = (if ct_failed c = 0 then Complete else Failed)"

definition set_ended :: "nat \<Rightarrow> counts \<Rightarrow> sched \<Rightarrow> sched" where
  "set_ended i c = update_row i (\<lambda>r. r\<lparr>jr_status := end_status c, jr_found := ct_found c,
     jr_processed := ct_processed c, jr_failed := ct_failed c, jr_cursor := cursor_text (ct_found c)\<rparr>)"

definition set_failed :: "nat \<Rightarrow> counts \<Rightarrow> string \<Rightarrow> sched \<Rightarrow> sched" where
  "set_failed i c msg = update_row i (\<lambda>r. r\<lparr>jr_status := Failed, jr_processed := ct_processed c,
     jr_failed := ct_failed c, jr_error := Some msg\<rparr>)"

definition publish_event :: "event \<Rightarrow> sched \<Rightarrow> sched" where
  "publish_event e s = s\<lparr>sd_events := sd_events s @ [e]\<rparr>"

section \<open>Counting records\<close>

definition fresh_counts :: "nat option \<Rightarrow> counts" where
  "fresh_counts n = \<lparr>ct_left = n, ct_found = 0, ct_processed = 0, ct_failed = 0\<rparr>"

definition count_ok :: "counts \<Rightarrow> counts" where
  "count_ok c = c\<lparr>ct_left := map_option (\<lambda>n. n - 1) (ct_left c), ct_found := ct_found c + 1, ct_processed := ct_processed c + 1\<rparr>"

definition count_bad :: "counts \<Rightarrow> counts" where
  "count_bad c = c\<lparr>ct_left := map_option (\<lambda>n. n - 1) (ct_left c), ct_found := ct_found c + 1, ct_failed := ct_failed c + 1\<rparr>"

definition checkpoint_due :: "counts \<Rightarrow> bool" where
  "checkpoint_due c = ((ct_found c + ct_processed c) mod 20 = 0)"

definition record_ok :: "entry \<Rightarrow> counts \<Rightarrow> sched \<Rightarrow> sched" where
  "record_ok e c s =
     (let s1 = s\<lparr>sd_records_ok := sd_records_ok s + 1\<rparr> in
      publish_event
        (Progress (fst e) (sj_group_name (snd e)) (ct_processed (count_ok c)) (ct_found (count_ok c))
          (sd_records_ok s1)) s1)"

definition record_bad :: "sched \<Rightarrow> sched" where
  "record_bad s = s\<lparr>sd_records_failed := sd_records_failed s + 1\<rparr>"

definition checkpoint :: "nat \<Rightarrow> counts \<Rightarrow> sched \<Rightarrow> sched" where
  "checkpoint i c s = (if checkpoint_due c then set_progress i c s else s)"

text \<open>The counters \<open>_run\<close> writes after a job.\<close>

definition tally :: "nat \<Rightarrow> nat \<Rightarrow> sched \<Rightarrow> sched" where
  "tally completed failed s = s\<lparr>sd_completed := completed, sd_failed := failed\<rparr>"

section \<open>The steps of a thread\<close>

text \<open>The steps in which nothing raises, and the ones in which a call raises or the source is unknown.\<close>

inductive calm :: "string registry \<Rightarrow> worker \<times> sched \<Rightarrow> worker \<times> sched \<Rightarrow> bool" for reg where
  begin_all: "calm reg (Starting [], s) (Discovering (registry_all reg) [], s)"
| begin_one: "f \<noteq> [] \<Longrightarrow> registry_get reg f = Some src \<Longrightarrow>
    calm reg (Starting f, s) (Discovering [src] [], s)"
| discover_stopped: "\<not> sd_running s \<Longrightarrow>
    calm reg (Discovering (x # xs) es, s) (Discovering [] es, s)"
| discover_skipped: "sd_running s \<Longrightarrow>
    calm reg (Discovering (x # xs) es, s) (Discovering xs es, s)"
| discover_jobs: "sd_running s \<Longrightarrow>
    calm reg (Discovering (x # xs) es, s) (Creating js xs es, s)"
| create_row: "sd_rows s i = None \<Longrightarrow>
    calm reg (Creating (j # js) xs es, s)
      (Creating js xs (es @ [(i, j)]), s\<lparr>sd_rows := (sd_rows s)(i \<mapsto> new_row j)\<rparr>)"
| created: "calm reg (Creating [] xs es, s) (Discovering xs es, s)"
| no_jobs: "calm reg (Discovering [] [], s) (Finished, mark_complete t (s\<lparr>sd_total := 0\<rparr>))"
| dispatch: "es \<noteq> [] \<Longrightarrow>
    calm reg (Discovering [] es, s) (Dispatching es 0 0, s\<lparr>sd_total := length es\<rparr>)"
| dispatch_stopped: "\<not> sd_running s \<Longrightarrow>
    calm reg (Dispatching (e # es) c f, s) (Finished, mark_complete t s)"
| dispatched: "calm reg (Dispatching [] c f, s) (Finished, mark_complete t s)"
| job_started: "sd_running s \<Longrightarrow>
    calm reg (Dispatching (e # es) c f, s) (InJob e (fresh_counts n) es c f, set_running (fst e) s)"
| job_cancelled: "\<not> sd_running s \<Longrightarrow> ct_left k \<noteq> Some 0 \<Longrightarrow>
    calm reg (InJob e k es c f, s)
      (Dispatching es c (f + 1), tally c (f + 1) (set_cancelled (fst e) k s))"
| processed: "sd_running s \<Longrightarrow> ct_left k \<noteq> Some 0 \<Longrightarrow>
    calm reg (InJob e k es c f, s)
      (InJob e (count_ok k) es c f, checkpoint (fst e) (count_ok k) (record_ok e k s))"
| not_processed: "sd_running s \<Longrightarrow> ct_left k \<noteq> Some 0 \<Longrightarrow>
    calm reg (InJob e k es c f, s)
      (InJob e (count_bad k) es c f, checkpoint (fst e) (count_bad k) (record_bad s))"
| job_ended: "ct_left k = Some 0 \<Longrightarrow> ct_failed k = 0 \<Longrightarrow>
    calm reg (InJob e k es c f, s)
      (Dispatching es (c + 1) f, tally (c + 1) f
        (publish_event (Completed (fst e) (sj_group_name (snd e)) Complete (ct_processed k) (ct_found k) (ct_failed k))
          (set_ended (fst e) k s)))"
| job_ended_failed: "ct_left k = Some 0 \<Longrightarrow> 0 < ct_failed k \<Longrightarrow>
    calm reg (InJob e k es c f, s)
      (Dispatching es c (f + 1), tally c (f + 1)
        (publish_event (Completed (fst e) (sj_group_name (snd e)) Failed (ct_processed k) (ct_found k) (ct_failed k))
          (set_ended (fst e) k s)))"

inductive raised :: "string registry \<Rightarrow> worker \<times> sched \<Rightarrow> worker \<times> sched \<Rightarrow> bool" for reg where
  begin_unknown: "f \<noteq> [] \<Longrightarrow> registry_get reg f = None \<Longrightarrow>
    raised reg (Starting f, s) (Finished, run_failed (''Unknown source: '' @ f) s)"
| discover_raised: "sd_running s \<Longrightarrow>
    raised reg (Discovering (x # xs) es, s) (Finished, run_failed msg s)"
| create_raised: "raised reg (Creating (j # js) xs es, s) (Finished, run_failed msg s)"
| job_start_raised: "sd_running s \<Longrightarrow>
    raised reg (Dispatching (e # es) c f, s) (Finished, run_failed msg s)"
| checkpoint_raised_ok: "sd_running s \<Longrightarrow> ct_left k \<noteq> Some 0 \<Longrightarrow> checkpoint_due (count_ok k) \<Longrightarrow>
    raised reg (InJob e k es c f, s)
      (Dispatching es c (f + 1), tally c (f + 1) (set_failed (fst e) (count_ok k) msg (record_ok e k s)))"
| checkpoint_raised_bad: "sd_running s \<Longrightarrow> ct_left k \<noteq> Some 0 \<Longrightarrow> checkpoint_due (count_bad k) \<Longrightarrow>
    raised reg (InJob e k es c f, s)
      (Dispatching es c (f + 1), tally c (f + 1) (set_failed (fst e) (count_bad k) msg (record_bad s)))"
| job_raised: "raised reg (InJob e k es c f, s)
      (Dispatching es c (f + 1), tally c (f + 1) (set_failed (fst e) k msg s))"
| job_handler_raised: "raised reg (InJob e k es c f, s) (Finished, run_failed msg s)"

inductive wstep :: "string registry \<Rightarrow> worker \<times> sched \<Rightarrow> worker \<times> sched \<Rightarrow> bool" for reg where
  calm_step: "calm reg x y \<Longrightarrow> wstep reg x y"
| raised_step: "raised reg x y \<Longrightarrow> wstep reg x y"

text \<open>The steps of the system: the two calls from outside, and a step of one of the threads.\<close>

inductive sstep :: "string registry \<Rightarrow> sched \<Rightarrow> sched \<Rightarrow> bool" for reg where
  do_start: "start src t s = (b, s') \<Longrightarrow> sstep reg s s'"
| do_stop: "sstep reg s (stop s)"
| do_work: "i < length (sd_workers s) \<Longrightarrow> wstep reg (sd_workers s ! i, s) (w, s') \<Longrightarrow>
    sstep reg s (s'\<lparr>sd_workers := (sd_workers s)[i := w]\<rparr>)"

inductive reachable :: "string registry \<Rightarrow> sched \<Rightarrow> bool" for reg where
  init: "reachable reg idle"
| step: "reachable reg s \<Longrightarrow> sstep reg s s' \<Longrightarrow> reachable reg s'"


inductive_simps wstep_iff: "wstep reg x y"


section \<open>The invariant\<close>

text \<open>The jobs a thread has still to run, and the ones it will still write.\<close>

fun queued :: "worker \<Rightarrow> nat list" where
  "queued (Starting _) = []"
| "queued (Discovering _ es) = map fst es"
| "queued (Creating _ _ es) = map fst es"
| "queued (Dispatching es _ _) = map fst es"
| "queued (InJob _ _ es _ _) = map fst es"
| "queued Finished = []"

fun current :: "worker \<Rightarrow> nat list" where
  "current (InJob e _ _ _ _) = [fst e]"
| "current _ = []"

definition owned :: "worker \<Rightarrow> nat list" where
  "owned w = current w @ queued w"

definition row_ok :: "job_row \<Rightarrow> bool" where
  "row_ok r =
     ((jr_status r = Complete \<longrightarrow>
         jr_failed r = 0 \<and> jr_processed r = jr_found r \<and> jr_cursor r = cursor_text (jr_found r)) \<and>
      (jr_status r = Pending \<longrightarrow> r = new_row (jr_job r)))"

definition has_status :: "(nat \<Rightarrow> job_row option) \<Rightarrow> job_status \<Rightarrow> nat \<Rightarrow> bool" where
  "has_status rows st i = (\<exists>r. rows i = Some r \<and> jr_status r = st)"

fun counts_ok :: "worker \<Rightarrow> bool" where
  "counts_ok (InJob _ k _ _ _) = (ct_found k = ct_processed k + ct_failed k)"
| "counts_ok _ = True"

definition worker_ok :: "(nat \<Rightarrow> job_row option) \<Rightarrow> worker \<Rightarrow> bool" where
  "worker_ok rows w =
     (counts_ok w \<and> distinct (owned w) \<and> (\<forall>i \<in> set (queued w). has_status rows Pending i) \<and>
      (\<forall>i \<in> set (current w). has_status rows Running i))"

definition rows_ok :: "(nat \<Rightarrow> job_row option) \<Rightarrow> bool" where
  "rows_ok rows = (\<forall>i r. rows i = Some r \<longrightarrow> row_ok r)"

text \<open>What a step does to the rows: only own rows change, and new ones are own.\<close>

definition rows_frame :: "worker \<Rightarrow> (nat \<Rightarrow> job_row option) \<Rightarrow> worker \<Rightarrow> (nat \<Rightarrow> job_row option) \<Rightarrow> bool" where
  "rows_frame w rows w' rows' =
     ((\<forall>i. i \<notin> set (owned w) \<and> rows i \<noteq> None \<longrightarrow> rows' i = rows i) \<and>
      (\<forall>i \<in> set (owned w'). i \<in> set (owned w) \<or> rows i = None) \<and>
      (\<forall>i r. rows i = Some r \<and> jr_status r \<notin> {Pending, Running} \<longrightarrow> rows' i = Some r))"

lemmas row_writes = set_running_def set_cancelled_def set_progress_def set_ended_def set_failed_def
  update_row_def checkpoint_def record_ok_def record_bad_def tally_def publish_event_def Let_def
  mark_complete_def run_failed_def

lemma wstep_workers: "wstep reg x y \<Longrightarrow> sd_workers (snd y) = sd_workers (snd x)"
  by (elim wstep.cases calm.cases raised.cases) (simp_all add: row_writes)

lemma rows_okD: "rows_ok rows \<Longrightarrow> rows i = Some r \<Longrightarrow> row_ok r"
  by (simp add: rows_ok_def)

lemma worker_okI:
  assumes "counts_ok w" "distinct (owned w)" "\<And>i. i \<in> set (queued w) \<Longrightarrow> has_status rows Pending i"
    "\<And>i. i \<in> set (current w) \<Longrightarrow> has_status rows Running i"
  shows "worker_ok rows w"
  using assms by (simp add: worker_ok_def)

text \<open>Writing a row of one's own leaves the other rows of the queue pending.\<close>

lemma has_status_other: "j \<noteq> i \<Longrightarrow> has_status (rows(i := x)) st j = has_status rows st j"
  by (simp add: has_status_def)

lemma rows_ok_update:
  "rows_ok rows \<Longrightarrow> (\<And>r. rows i = Some r \<Longrightarrow> row_ok (f r)) \<Longrightarrow> rows_ok (rows(i := map_option f (rows i)))"
  by (auto simp: rows_ok_def)

text \<open>An update of the current row, from which the thread goes on or which it leaves.\<close>

lemma current_written:
  assumes w: "worker_ok rows w" "rows_ok rows" and c: "current w = [i]"
    and w': "queued w' = queued w" "current w' = [] \<or> current w' = [i] \<and> st = Running" "counts_ok w'"
    and f: "\<And>r. jr_status r = Running \<Longrightarrow> row_ok (f r) \<and> jr_status (f r) = st"
  shows "worker_ok (rows(i := map_option f (rows i))) w' \<and> rows_ok (rows(i := map_option f (rows i))) \<and>
    rows_frame w rows w' (rows(i := map_option f (rows i)))"
proof -
  from w(1) c obtain r where r: "rows i = Some r" "jr_status r = Running"
    by (auto simp: worker_ok_def has_status_def)
  have d: "i \<notin> set (queued w)" "distinct (queued w)" using w(1) c by (auto simp: worker_ok_def owned_def)
  have "worker_ok (rows(i := map_option f (rows i))) w'"
  proof (rule worker_okI)
    show "distinct (owned w')" using w' d by (auto simp: owned_def)
    fix j
    show "has_status (rows(i := map_option f (rows i))) Pending j" if "j \<in> set (queued w')"
    proof -
      from that w'(1) d have "j \<noteq> i" "j \<in> set (queued w)" by auto
      with w(1) show ?thesis by (simp add: has_status_other worker_ok_def)
    qed
    show "has_status (rows(i := map_option f (rows i))) Running j" if "j \<in> set (current w')"
      using that w'(2) f [OF r(2)] r(1) by (auto simp: has_status_def)
  qed (rule w'(3))
  moreover have "rows_ok (rows(i := map_option f (rows i)))"
    using w(2) f r by (intro rows_ok_update) auto
  moreover have "rows_frame w rows w' (rows(i := map_option f (rows i)))"
    using w' c r by (auto simp: rows_frame_def owned_def)
  ultimately show ?thesis by blast
qed

text \<open>A step that writes no row and queues nothing new.\<close>

lemma nothing_written:
  assumes "worker_ok rows w" "rows_ok rows"
    and "queued w' = [] \<or> queued w' = queued w" "current w' = []" "counts_ok w'"
  shows "worker_ok rows w' \<and> rows_ok rows \<and> rows_frame w rows w' rows"
  using assms by (auto simp: worker_ok_def rows_frame_def owned_def)

lemma row_ok_intros:
  "jr_status r = Running \<Longrightarrow> row_ok r" "jr_status r = Cancelled \<Longrightarrow> row_ok r" "jr_status r = Failed \<Longrightarrow> row_ok r"
  by (simp_all add: row_ok_def)

lemma row_started:
  assumes w: "worker_ok rows (Dispatching (e # es) c f)" "rows_ok rows"
  shows "worker_ok (rows(fst e := map_option (\<lambda>r. r\<lparr>jr_status := Running\<rparr>) (rows (fst e)))) (InJob e (fresh_counts n) es c f) \<and>
    rows_ok (rows(fst e := map_option (\<lambda>r. r\<lparr>jr_status := Running\<rparr>) (rows (fst e)))) \<and>
    rows_frame (Dispatching (e # es) c f) rows (InJob e (fresh_counts n) es c f)
      (rows(fst e := map_option (\<lambda>r. r\<lparr>jr_status := Running\<rparr>) (rows (fst e))))"
proof -
  have d: "fst e \<notin> fst ` set es" "distinct (map fst es)" using w(1) by (auto simp: worker_ok_def owned_def)
  from w(1) obtain r where r: "rows (fst e) = Some r" "jr_status r = Pending"
    by (auto simp: worker_ok_def has_status_def)
  have ne: "fst x \<noteq> fst e" if "x \<in> set es" for x using d(1) that by (metis imageI)
  have "worker_ok (rows(fst e := map_option (\<lambda>r. r\<lparr>jr_status := Running\<rparr>) (rows (fst e)))) (InJob e (fresh_counts n) es c f)"
    using w(1) r d ne by (auto simp: worker_ok_def owned_def has_status_def fresh_counts_def)
  moreover have "rows_ok (rows(fst e := map_option (\<lambda>r. r\<lparr>jr_status := Running\<rparr>) (rows (fst e))))"
    using w(2) by (intro rows_ok_update) (auto simp: row_ok_intros)
  ultimately show ?thesis using r by (auto simp: rows_frame_def owned_def)
qed

lemma row_created:
  assumes w: "worker_ok rows (Creating (j # js) xs es)" "rows_ok rows" and i: "rows i = None"
  shows "worker_ok (rows(i \<mapsto> new_row j)) (Creating js xs (es @ [(i, j)])) \<and> rows_ok (rows(i \<mapsto> new_row j)) \<and>
    rows_frame (Creating (j # js) xs es) rows (Creating js xs (es @ [(i, j)])) (rows(i \<mapsto> new_row j))"
proof -
  have "i \<notin> fst ` set es" using w(1) i by (auto simp: worker_ok_def has_status_def)
  then have ne: "fst x \<noteq> i" if "x \<in> set es" for x using that by auto
  have "worker_ok (rows(i \<mapsto> new_row j)) (Creating js xs (es @ [(i, j)]))"
    using w(1) i ne by (auto simp: worker_ok_def owned_def has_status_def new_row_def)
  moreover have "rows_ok (rows(i \<mapsto> new_row j))" using w(2) by (auto simp: rows_ok_def row_ok_def new_row_def)
  ultimately show ?thesis using i by (auto simp: rows_frame_def owned_def)
qed

lemma count_simps [simp]:
  "ct_found (count_ok k) = ct_found k + 1" "ct_processed (count_ok k) = ct_processed k + 1"
  "ct_failed (count_ok k) = ct_failed k" "ct_left (count_ok k) = map_option (\<lambda>n. n - 1) (ct_left k)"
  "ct_found (count_bad k) = ct_found k + 1" "ct_processed (count_bad k) = ct_processed k"
  "ct_failed (count_bad k) = ct_failed k + 1" "ct_left (count_bad k) = map_option (\<lambda>n. n - 1) (ct_left k)"
  by (simp_all add: count_ok_def count_bad_def)

lemma job_written:
  assumes "worker_ok rows (InJob e k es c f)" "rows_ok rows"
    and "\<And>r. jr_status r = Running \<Longrightarrow> row_ok (g r)"
  shows "worker_ok (rows(fst e := map_option g (rows (fst e)))) (Dispatching es c' f') \<and>
    rows_ok (rows(fst e := map_option g (rows (fst e)))) \<and>
    rows_frame (InJob e k es c f) rows (Dispatching es c' f') (rows(fst e := map_option g (rows (fst e))))"
proof -
  obtain r where r: "rows (fst e) = Some r" "jr_status r = Running"
    using assms(1) by (auto simp: worker_ok_def has_status_def)
  have d: "fst e \<notin> fst ` set es" using assms(1) by (auto simp: worker_ok_def owned_def)
  then have ne: "fst x \<noteq> fst e" if "x \<in> set es" for x using that by (metis imageI)
  have "worker_ok (rows(fst e := map_option g (rows (fst e)))) (Dispatching es c' f')"
    using assms(1) ne by (auto simp: worker_ok_def owned_def has_status_def)
  moreover have "rows_ok (rows(fst e := map_option g (rows (fst e))))"
    using assms(2,3) r by (intro rows_ok_update) auto
  ultimately show ?thesis using r by (auto simp: rows_frame_def owned_def)
qed

lemma job_counted:
  assumes "worker_ok rows (InJob e k es c f)" "rows_ok rows"
    and "ct_found k' = ct_processed k' + ct_failed k'"
    and "rows' = rows \<or> rows' = rows(fst e := map_option (\<lambda>r. r\<lparr>jr_processed := ct_processed k',
      jr_failed := ct_failed k', jr_cursor := cursor_text (ct_found k')\<rparr>) (rows (fst e)))"
  shows "worker_ok rows' (InJob e k' es c f) \<and> rows_ok rows' \<and>
    rows_frame (InJob e k es c f) rows (InJob e k' es c f) rows'"
  using assms(4)
proof
  assume "rows' = rows"
  then show ?thesis using assms(1-3) by (auto simp: worker_ok_def rows_frame_def owned_def)
next
  let ?g = "\<lambda>r. r\<lparr>jr_processed := ct_processed k', jr_failed := ct_failed k', jr_cursor := cursor_text (ct_found k')\<rparr>"
  assume rows': "rows' = rows(fst e := map_option ?g (rows (fst e)))"
  show ?thesis unfolding rows'
    by (rule current_written [OF assms(1,2), where st = Running]) (use assms(3) in \<open>auto simp: row_ok_intros\<close>)
qed

lemma ended_ok: "ct_found k = ct_processed k + ct_failed k \<Longrightarrow>
  row_ok (r\<lparr>jr_status := end_status k, jr_found := ct_found k, jr_processed := ct_processed k,
    jr_failed := ct_failed k, jr_cursor := cursor_text (ct_found k)\<rparr>)"
  by (simp add: row_ok_def end_status_def)

lemma calm_invariant:
  assumes "calm reg (w, s) (w', s')" and "worker_ok (sd_rows s) w" "rows_ok (sd_rows s)"
  shows "worker_ok (sd_rows s') w' \<and> rows_ok (sd_rows s') \<and> rows_frame w (sd_rows s) w' (sd_rows s')"
  using assms
proof (cases rule: calm.cases)
  case (create_row i j js xs es)
  with assms row_created [of "sd_rows s" j js xs es i] show ?thesis by simp
next
  case (job_started e es c f n)
  with assms row_started [of "sd_rows s" e es c f n] show ?thesis by (simp add: set_running_def update_row_def)
next
  case (job_cancelled k e es c f)
  with assms show ?thesis
    by (simp add: row_writes) (rule job_written, simp_all add: row_ok_intros)
next
  case (processed k e es c f)
  with assms job_counted [of "sd_rows s" e k es c f "count_ok k" "sd_rows s'"] show ?thesis
    by (simp add: worker_ok_def row_writes)
next
  case (not_processed k e es c f)
  with assms job_counted [of "sd_rows s" e k es c f "count_bad k" "sd_rows s'"] show ?thesis
    by (simp add: worker_ok_def row_writes)
next
  case (job_ended k e es c f)
  then have "ct_found k = ct_processed k + ct_failed k" using assms(2) by (simp add: worker_ok_def)
  with job_ended assms ended_ok [of k] show ?thesis
    by (simp add: row_writes) (rule job_written, simp_all)
next
  case (job_ended_failed k e es c f)
  then have "ct_found k = ct_processed k + ct_failed k" using assms(2) by (simp add: worker_ok_def)
  with job_ended_failed assms ended_ok [of k] show ?thesis
    by (simp add: row_writes) (rule job_written, simp_all)
qed (use assms(2,3) in \<open>auto simp: worker_ok_def rows_frame_def owned_def row_writes\<close>)

lemma raised_invariant:
  assumes "raised reg (w, s) (w', s')" and "worker_ok (sd_rows s) w" "rows_ok (sd_rows s)"
  shows "worker_ok (sd_rows s') w' \<and> rows_ok (sd_rows s') \<and> rows_frame w (sd_rows s) w' (sd_rows s')"
  using assms
proof (cases rule: raised.cases)
  case (checkpoint_raised_ok k e es c f msg)
  with assms show ?thesis
    by (simp add: row_writes) (rule job_written, simp_all add: row_ok_intros)
next
  case (checkpoint_raised_bad k e es c f msg)
  with assms show ?thesis
    by (simp add: row_writes) (rule job_written, simp_all add: row_ok_intros)
next
  case (job_raised e k es c f msg)
  with assms show ?thesis
    by (simp add: row_writes) (rule job_written, simp_all add: row_ok_intros)
qed (use assms(2,3) in \<open>auto simp: worker_ok_def rows_frame_def owned_def row_writes\<close>)

lemma wstep_invariant:
  assumes "wstep reg (w, s) (w', s')" and "worker_ok (sd_rows s) w" "rows_ok (sd_rows s)"
  shows "worker_ok (sd_rows s') w' \<and> rows_ok (sd_rows s') \<and> rows_frame w (sd_rows s) w' (sd_rows s')"
  using assms calm_invariant raised_invariant unfolding wstep_iff by blast

section \<open>All threads\<close>

definition sched_ok :: "sched \<Rightarrow> bool" where
  "sched_ok s =
     (rows_ok (sd_rows s) \<and> (\<forall>w \<in> set (sd_workers s). worker_ok (sd_rows s) w) \<and>
      (\<forall>i < length (sd_workers s). \<forall>j < length (sd_workers s). i \<noteq> j \<longrightarrow>
         set (owned (sd_workers s ! i)) \<inter> set (owned (sd_workers s ! j)) = {}))"

lemma owned_has_row: "worker_ok rows w \<Longrightarrow> i \<in> set (owned w) \<Longrightarrow> rows i \<noteq> None"
  by (auto simp: worker_ok_def owned_def has_status_def)

lemma worker_ok_frame:
  assumes "worker_ok rows w2" "rows_frame w rows w' rows'" "set (owned w) \<inter> set (owned w2) = {}"
  shows "worker_ok rows' w2"
proof -
  have "rows' i = rows i" if "i \<in> set (owned w2)" for i
    using assms that owned_has_row [OF assms(1) that] unfolding rows_frame_def by blast
  then show ?thesis using assms(1) by (auto simp: worker_ok_def owned_def has_status_def)
qed

lemma work_ok:
  assumes ok: "sched_ok s" and i: "i < length (sd_workers s)"
    and st: "wstep reg (sd_workers s ! i, s) (w, s')"
  shows "sched_ok (s'\<lparr>sd_workers := (sd_workers s)[i := w]\<rparr>)"
    and "rows_frame (sd_workers s ! i) (sd_rows s) w (sd_rows s')"
proof -
  have "worker_ok (sd_rows s) (sd_workers s ! i)" "rows_ok (sd_rows s)" using ok i by (auto simp: sched_ok_def)
  from wstep_invariant [OF st this] have n: "worker_ok (sd_rows s') w" "rows_ok (sd_rows s')"
    and fr: "rows_frame (sd_workers s ! i) (sd_rows s) w (sd_rows s')" by auto
  have others: "worker_ok (sd_rows s') (sd_workers s ! j)" if "j < length (sd_workers s)" "j \<noteq> i" for j
    using ok i that by (intro worker_ok_frame [OF _ fr]) (auto simp: sched_ok_def)
  have disj: "set (owned w) \<inter> set (owned (sd_workers s ! j)) = {}" if "j < length (sd_workers s)" "j \<noteq> i" for j
  proof -
    have "worker_ok (sd_rows s) (sd_workers s ! j)" using ok that by (auto simp: sched_ok_def)
    then have "sd_rows s x \<noteq> None" if "x \<in> set (owned (sd_workers s ! j))" for x using that owned_has_row by blast
    moreover have "set (owned (sd_workers s ! i)) \<inter> set (owned (sd_workers s ! j)) = {}"
      using ok i that by (auto simp: sched_ok_def)
    ultimately show ?thesis using fr unfolding rows_frame_def by blast
  qed
  show "sched_ok (s'\<lparr>sd_workers := (sd_workers s)[i := w]\<rparr>)"
    unfolding sched_ok_def
  proof (intro conjI ballI allI impI)
    fix v assume "v \<in> set (sd_workers (s'\<lparr>sd_workers := (sd_workers s)[i := w]\<rparr>))"
    then obtain j where "j < length (sd_workers s)" "v = (sd_workers s)[i := w] ! j"
      by (auto simp: in_set_conv_nth)
    then show "worker_ok (sd_rows (s'\<lparr>sd_workers := (sd_workers s)[i := w]\<rparr>)) v"
      using n others i by (cases "j = i") auto
  next
    fix j k
    assume "j < length (sd_workers (s'\<lparr>sd_workers := (sd_workers s)[i := w]\<rparr>))"
      "k < length (sd_workers (s'\<lparr>sd_workers := (sd_workers s)[i := w]\<rparr>))" "j \<noteq> k"
    then show "set (owned (sd_workers (s'\<lparr>sd_workers := (sd_workers s)[i := w]\<rparr>) ! j)) \<inter>
        set (owned (sd_workers (s'\<lparr>sd_workers := (sd_workers s)[i := w]\<rparr>) ! k)) = {}"
      using disj i ok by (cases "j = i"; cases "k = i") (auto simp: sched_ok_def)
  qed (use n in simp)
  show "rows_frame (sd_workers s ! i) (sd_rows s) w (sd_rows s')" by (rule fr)
qed

lemma start_ok: "sched_ok s \<Longrightarrow> sched_ok (snd (start src t s))"
  by (auto simp: start_def sched_ok_def nth_append worker_ok_def owned_def less_Suc_eq)

lemma sstep_ok:
  assumes "sstep reg s s'" "sched_ok s"
  shows "sched_ok s' \<and> (\<forall>i r. sd_rows s i = Some r \<and> jr_status r \<notin> {Pending, Running} \<longrightarrow> sd_rows s' i = Some r)"
  using assms
proof (cases rule: sstep.cases)
  case (do_start src t b)
  then show ?thesis using start_ok [OF assms(2), of src t] by (auto simp: start_def split: if_splits)
next
  case do_stop
  then show ?thesis using assms(2) by (simp add: stop_def sched_ok_def)
next
  case (do_work i w t)
  from work_ok [OF assms(2) do_work(2,3)] do_work(1) show ?thesis by (auto simp: rows_frame_def)
qed

lemma reachable_ok: "reachable reg s \<Longrightarrow> sched_ok s"
proof (induction rule: reachable.induct)
  case init
  show ?case by (simp add: idle_def sched_ok_def rows_ok_def)
next
  case (step s s')
  then show ?case using sstep_ok by blast
qed

section \<open>Termination\<close>

text \<open>The stage of a thread, its sources, its jobs to create, its jobs to run, and its records.\<close>

fun progress :: "worker \<Rightarrow> nat \<times> nat \<times> nat \<times> nat \<times> nat" where
  "progress (Starting _) = (4, 0, 0, 0, 0)"
| "progress (Discovering xs _) = (3, length xs, 0, 0, 0)"
| "progress (Creating js xs _) = (3, length xs, Suc (length js), 0, 0)"
| "progress (Dispatching es _ _) = (1, 0, 0, 2 * length es, 0)"
| "progress (InJob _ k es _ _) = (1, 0, 0, Suc (2 * length es), case ct_left k of Some n \<Rightarrow> n | None \<Rightarrow> 0)"
| "progress Finished = (0, 0, 0, 0, 0)"

definition stage_order :: "((nat \<times> nat \<times> nat \<times> nat \<times> nat) \<times> (nat \<times> nat \<times> nat \<times> nat \<times> nat)) set" where
  "stage_order = less_than <*lex*> less_than <*lex*> less_than <*lex*> less_than <*lex*> less_than"

lemma wf_stage_order: "wf stage_order"
  unfolding stage_order_def by (intro wf_lex_prod wf_less_than)

lemma trans_stage_order: "trans stage_order"
  unfolding stage_order_def by (intro trans_lex_prod trans_less_than)

text \<open>A thread in a job whose records have no end.\<close>

fun endless :: "worker \<Rightarrow> bool" where
  "endless (InJob _ k _ _ _) = (ct_left k = None)"
| "endless _ = False"

text \<open>Every step brings a thread nearer to its end, unless it reads an endless iterator of a running scheduler.\<close>

lemma wstep_progress:
  assumes "wstep reg (w, s) (w', s')"
  shows "(progress w', progress w) \<in> stage_order \<or> endless w \<and> sd_running s \<and> progress w' = progress w"
  using assms
proof (cases rule: wstep.cases)
  case calm_step
  then show ?thesis by (cases rule: calm.cases) (auto simp: stage_order_def split: option.splits)
next
  case raised_step
  then show ?thesis by (cases rule: raised.cases) (auto simp: stage_order_def)
qed

lemma steps_advance:
  assumes "\<And>n. wstep reg (w n, s n) (w (Suc n), s' n)" and "m \<le> n"
  shows "(progress (w n), progress (w m)) \<in> stage_order \<or> progress (w n) = progress (w m)"
  using assms(2)
proof (induction n rule: dec_induct)
  case (step n)
  with wstep_progress [OF assms(1) [of n]] show ?case using transD [OF trans_stage_order] by metis
qed simp

lemma steps_bounded:
  assumes st: "\<And>n. wstep reg (w n, s n) (w (Suc n), s' n)"
  shows "finite {n. \<not> (endless (w n) \<and> sd_running (s n))}"
proof -
  have "\<exists>N. \<forall>n \<ge> N. endless (w n) \<and> sd_running (s n)" if "v = progress (w m)" for v m
    using that
  proof (induction v arbitrary: m rule: wf_induct_rule [OF wf_stage_order])
    case (1 v)
    show ?case
    proof (cases "\<forall>n \<ge> m. endless (w n) \<and> sd_running (s n)")
      case False
      then obtain k where k: "m \<le> k" "\<not> (endless (w k) \<and> sd_running (s k))" by blast
      from k(2) wstep_progress [OF st [of k]] have "(progress (w (Suc k)), progress (w k)) \<in> stage_order" by blast
      with steps_advance [of reg w s s', OF st k(1)] have "(progress (w (Suc k)), progress (w m)) \<in> stage_order"
        using transD [OF trans_stage_order] by metis
      with 1 show ?thesis by blast
    qed blast
  qed
  then obtain N where "\<forall>n \<ge> N. endless (w n) \<and> sd_running (s n)" by blast
  then have "{n. \<not> (endless (w n) \<and> sd_running (s n))} \<subseteq> {..<N}" by (auto simp: not_le [symmetric])
  then show ?thesis by (rule finite_subset) simp
qed

text \<open>The job store holds finitely many rows, so an identifier for a new one is left.\<close>

lemma wstep_rows:
  assumes "wstep reg x y"
  shows "finite (dom (sd_rows (snd x))) \<Longrightarrow> finite (dom (sd_rows (snd y)))"
  using assms by (elim wstep.cases calm.cases raised.cases) (auto simp: row_writes)

lemma reachable_rows: "reachable reg s \<Longrightarrow> finite (dom (sd_rows s))"
proof (induction rule: reachable.induct)
  case (step s s')
  from step(2) show ?case
  proof (cases rule: sstep.cases)
    case (do_work i w t)
    with step.IH wstep_rows [OF do_work(3)] show ?thesis by simp
  qed (use step.IH in \<open>auto simp: start_def stop_def split: if_splits\<close>)
qed (simp add: idle_def)

text \<open>A thread that has not finished can take a step without an exception.\<close>

lemma calm_total:
  assumes "w \<noteq> Finished" and "\<And>f. w = Starting f \<Longrightarrow> f = [] \<or> registry_get reg f \<noteq> None" and "finite (dom (sd_rows s))"
  shows "\<exists>w' s'. calm reg (w, s) (w', s')"
proof (cases w)
  case (Starting f)
  with assms(2) show ?thesis by (cases "f = []") (blast intro: calm.intros)+
next
  case (Discovering xs es)
  then show ?thesis
    by (cases xs; cases "es = []"; cases "sd_running s") (simp_all, (blast intro: calm.intros)+)
next
  case (Creating js xs es)
  obtain i where "sd_rows s i = None" using ex_new_if_finite [OF infinite_UNIV_nat assms(3)] by auto
  with Creating show ?thesis by (cases js) (simp_all, (blast intro: calm.intros)+)
next
  case (Dispatching es c f)
  then show ?thesis by (cases es; cases "sd_running s") (simp_all, (blast intro: calm.intros)+)
next
  case (InJob e k es c f)
  then show ?thesis
    by (cases "ct_left k = Some 0"; cases "ct_failed k = 0"; cases "sd_running s") (blast intro: calm.intros)+
qed (use assms(1) in simp)

section \<open>Properties\<close>

text \<open>
  C33: The rows of the jobs tell the truth.  In every reachable state, however \<open>start\<close>, \<open>stop\<close> and the
  threads interleave, a row marked complete has no failed record, as many processed as found, and
  the cursor of its last record; a pending row has never been written; and no job belongs to two
  threads.
\<close>

theorem job_rows_sound:
  assumes "reachable reg s" and "sd_rows s i = Some r"
  shows "(jr_status r = Complete \<longrightarrow>
      jr_failed r = 0 \<and> jr_processed r = jr_found r \<and> jr_cursor r = cursor_text (jr_found r)) \<and>
    (jr_status r = Pending \<longrightarrow> r = new_row (jr_job r)) \<and>
    (\<forall>a < length (sd_workers s). \<forall>b < length (sd_workers s). a \<noteq> b \<longrightarrow>
       \<not> (i \<in> set (owned (sd_workers s ! a)) \<and> i \<in> set (owned (sd_workers s ! b))))"
proof -
  from reachable_ok [OF assms(1)] have ok: "sched_ok s" .
  then have "row_ok r" using assms(2) by (auto simp: sched_ok_def dest: rows_okD)
  with ok show ?thesis unfolding sched_ok_def row_ok_def by blast
qed


text \<open>
  C36: When a thread ends.  However the other threads and the callers change the state between its steps, a
  thread that goes on for ever spends all but finitely many of its steps in a running scheduler with a job
  whose source yields records without an end: over sources that end it takes finitely many steps, and so it does
  after a \<open>stop\<close> that lasts.  And until it has finished it is never stuck: in every reachable state a thread has a
  step in which nothing raises - unless it is about to report an unknown source.
\<close>

theorem thread_terminates:
  "(\<forall>w s s'. (\<forall>n. wstep reg (w n, s n) (w (Suc n), s' n)) \<longrightarrow> finite {n. \<not> (endless (w n) \<and> sd_running (s n))}) \<and>
   (\<forall>s v. reachable reg s \<and> v \<in> set (sd_workers s) \<and> v \<noteq> Finished \<and>
      (\<forall>f. v = Starting f \<longrightarrow> f = [] \<or> registry_get reg f \<noteq> None) \<longrightarrow> (\<exists>v' s'. calm reg (v, s) (v', s')))"
  by (intro conjI allI impI steps_bounded) (auto intro: calm_total reachable_rows)

lemma reach_start: "reachable reg s \<Longrightarrow> reachable reg (snd (start src t s))"
  by (rule reachable.step, assumption, rule do_start, rule surjective_pairing)

lemma reach_stop: "reachable reg s \<Longrightarrow> reachable reg (stop s)"
  by (rule reachable.step [OF _ do_stop])

lemma reach_work:
  "reachable reg s \<Longrightarrow> i < length (sd_workers s) \<Longrightarrow> wstep reg (sd_workers s ! i, s) (w, s') \<Longrightarrow>
   reachable reg (s'\<lparr>sd_workers := (sd_workers s)[i := w]\<rparr>)"
  by (rule reachable.step [OF _ do_work])

text \<open>A state with a single thread.\<close>

definition sole :: "worker \<Rightarrow> sched \<Rightarrow> sched" where
  "sole w s = s\<lparr>sd_workers := [w]\<rparr>"

lemma sole_step:
  "reachable reg (sole w s) \<Longrightarrow> wstep reg (w, sole w s) (w', s') \<Longrightarrow> reachable reg (sole w' s')"
  using reach_work [of reg "sole w s" 0 w' s'] by (simp add: sole_def)



text \<open>
  A stopped run is reported as complete.  With a source that has a job there is a reachable state in which
  the scheduler's state is complete and no thread is left, although the job has never been started.
\<close>

theorem stopped_run_complete:
  assumes "registry_get reg f = Some x" and "f \<noteq> []"
  shows "\<exists>s i r. reachable reg s \<and> sd_overall s = ''complete'' \<and> (\<forall>w \<in> set (sd_workers s). w = Finished) \<and>
     sd_rows s i = Some r \<and> jr_status r = Pending \<and> sd_total s = 1"
proof -
  let ?j = "\<lparr>sj_source = f, sj_instance = f, sj_group_id = f, sj_group_name = f, sj_meta = []\<rparr>"
  let ?s1 = "snd (start f 0 idle)"
  have s1: "reachable reg ?s1" "sd_workers ?s1 = [Starting f]" "sd_running ?s1" "sd_rows ?s1 = Map.empty"
    by (rule reach_start [OF reachable.init]) (simp_all add: start_def idle_def)
  have "sole (Starting f) ?s1 = ?s1" unfolding sole_def by (rule sched.equality) (simp_all add: s1(2))
  then have p1: "reachable reg (sole (Starting f) ?s1)" using s1(1) by simp
  have "reachable reg (sole (Discovering [x] []) ?s1)"
    using sole_step [OF p1 calm.begin_one [THEN calm_step, OF assms(2,1)]] by (simp add: sole_def)
  from sole_step [OF this calm.discover_jobs [THEN calm_step]] have "reachable reg (sole (Creating [?j] [] []) ?s1)"
    using s1(3) by (simp add: sole_def)
  from sole_step [OF this calm.create_row [where i = 0, THEN calm_step]]
  have "reachable reg (sole (Creating [] [] [(0, ?j)]) (?s1\<lparr>sd_rows := [0 \<mapsto> new_row ?j]\<rparr>))"
    using s1(4) by (simp add: sole_def)
  from sole_step [OF this calm.created [THEN calm_step]]
  have "reachable reg (sole (Discovering [] [(0, ?j)]) (?s1\<lparr>sd_rows := [0 \<mapsto> new_row ?j]\<rparr>))"
    by (simp add: sole_def)
  from sole_step [OF this calm.dispatch [THEN calm_step]]
  have "reachable reg (sole (Dispatching [(0, ?j)] 0 0) (?s1\<lparr>sd_rows := [0 \<mapsto> new_row ?j], sd_total := 1\<rparr>))"
    by (simp add: sole_def)
  moreover have "stop (sole (Dispatching [(0, ?j)] 0 0) (?s1\<lparr>sd_rows := [0 \<mapsto> new_row ?j], sd_total := 1\<rparr>)) =
      sole (Dispatching [(0, ?j)] 0 0)
        (?s1\<lparr>sd_rows := [0 \<mapsto> new_row ?j], sd_total := 1, sd_running := False\<rparr>)"
    by (rule sched.equality) (simp_all add: sole_def stop_def)
  ultimately have "reachable reg (sole (Dispatching [(0, ?j)] 0 0)
      (?s1\<lparr>sd_rows := [0 \<mapsto> new_row ?j], sd_total := 1, sd_running := False\<rparr>))"
    by (metis reach_stop)
  from sole_step [OF this calm.dispatch_stopped [where t = 0, THEN calm_step]]
  have "reachable reg (sole Finished (mark_complete 0
      (?s1\<lparr>sd_rows := [0 \<mapsto> new_row ?j], sd_total := 1, sd_running := False\<rparr>)))"
    by (simp add: sole_def mark_complete_def)
  then show ?thesis
    by (intro exI [of _ "sole Finished (mark_complete 0
        (?s1\<lparr>sd_rows := [0 \<mapsto> new_row ?j], sd_total := 1, sd_running := False\<rparr>))"] exI [of _ 0]
        exI [of _ "new_row ?j"])
      (simp add: sole_def mark_complete_def new_row_def)
qed

text \<open>
  A stop and a start leave two threads at work.  \<open>start\<close> looks only at the running flag, which \<open>stop\<close>
  clears at once: from every reachable state with a thread still at work, a stop and a start lead to
  a running scheduler in which that thread goes on beside the new one.
\<close>

theorem restart_overlaps:
  assumes "reachable reg s" and "i < length (sd_workers s)" and "sd_workers s ! i \<noteq> Finished"
  shows "\<exists>s' j. reachable reg s' \<and> sd_running s' \<and> i \<noteq> j \<and> j < length (sd_workers s') \<and>
    sd_workers s' ! i = sd_workers s ! i \<and> sd_workers s' ! j = Starting src"
proof -
  let ?s = "snd (start src t (stop s))"
  have "reachable reg ?s" by (rule reach_start [OF reach_stop [OF assms(1)]])
  then show ?thesis
    using assms(2) by (intro exI [of _ ?s] exI [of _ "length (sd_workers s)"]) (simp add: start_def stop_def nth_append)
qed

section \<open>Examples\<close>

definition sample_job :: sync_job where
  "sample_job =
     \<lparr>sj_source = ''wa'', sj_instance = ''wa'', sj_group_id = ''g'', sj_group_name = ''g'', sj_meta = []\<rparr>"

definition started :: sched where
  "started = snd (start ''wa'' 0 idle)"

lemma started_reachable: "reachable [(''wa'', ''wa'')] started"
  unfolding started_def by (rule reach_start [OF reachable.init])

lemma started_facts: "sd_workers started = [Starting ''wa'']" "sd_running started" "sd_rows started = Map.empty"
  by (simp_all add: started_def start_def idle_def)

theorem restart_overlaps_witness:
  "\<exists>s' j. reachable [(''wa'', ''wa'')] s' \<and> sd_running s' \<and> 0 \<noteq> j \<and> j < length (sd_workers s') \<and>
    sd_workers s' ! 0 = sd_workers started ! 0 \<and> sd_workers s' ! j = Starting []"
  by (rule restart_overlaps [OF started_reachable]) (simp_all add: started_facts)

theorem stopped_run_complete_witness:
  "\<exists>s i r. reachable [(''wa'', ''wa'')] s \<and> sd_overall s = ''complete'' \<and> (\<forall>w \<in> set (sd_workers s). w = Finished) \<and>
     sd_rows s i = Some r \<and> jr_status r = Pending \<and> sd_total s = 1"
  by (rule stopped_run_complete [where f = "''wa''" and x = "''wa''"]) (simp_all add: registry_get_def)

definition dispatched_state :: sched where
  "dispatched_state = started\<lparr>sd_rows := [0 \<mapsto> new_row sample_job], sd_total := 1\<rparr>"

definition completed_state :: sched where
  "completed_state = tally 1 0
     (publish_event (Completed 0 ''g'' Complete 0 0 0) (set_ended 0 (fresh_counts (Some 0)) (set_running 0 dispatched_state)))"

lemma dispatched_reachable:
  "reachable [(''wa'', ''wa'')] (sole (Dispatching [(0, sample_job)] 0 0) dispatched_state)"
proof -
  have "sole (Starting ''wa'') started = started"
    unfolding sole_def by (rule sched.equality) (simp_all add: started_facts)
  then have "reachable [(''wa'', ''wa'')] (sole (Starting ''wa'') started)" using started_reachable by simp
  from sole_step [OF this calm.begin_one [where src = "''wa''", THEN calm_step]]
  have "reachable [(''wa'', ''wa'')] (sole (Discovering [''wa''] []) started)"
    by (simp add: registry_get_def sole_def)
  from sole_step [OF this calm.discover_jobs [THEN calm_step]]
  have "reachable [(''wa'', ''wa'')] (sole (Creating [sample_job] [] []) started)"
    by (simp add: sole_def started_facts)
  from sole_step [OF this calm.create_row [where i = 0, THEN calm_step]]
  have "reachable [(''wa'', ''wa'')]
      (sole (Creating [] [] [(0, sample_job)]) (started\<lparr>sd_rows := [0 \<mapsto> new_row sample_job]\<rparr>))"
    by (simp add: sole_def started_facts)
  from sole_step [OF this calm.created [THEN calm_step]]
  have "reachable [(''wa'', ''wa'')]
      (sole (Discovering [] [(0, sample_job)]) (started\<lparr>sd_rows := [0 \<mapsto> new_row sample_job]\<rparr>))"
    by (simp add: sole_def)
  from sole_step [OF this calm.dispatch [THEN calm_step]] show ?thesis by (simp add: sole_def dispatched_state_def)
qed

lemma completed_reachable: "reachable [(''wa'', ''wa'')] (sole (Dispatching [] 1 0) completed_state)"
proof -
  have "wstep [(''wa'', ''wa'')] (Dispatching [(0, sample_job)] 0 0, sole (Dispatching [(0, sample_job)] 0 0) dispatched_state)
      (InJob (0, sample_job) (fresh_counts (Some 0)) [] 0 0,
       set_running (fst (0, sample_job)) (sole (Dispatching [(0, sample_job)] 0 0) dispatched_state))"
    by (rule calm.job_started [THEN calm_step]) (simp add: sole_def dispatched_state_def started_facts)
  from sole_step [OF dispatched_reachable this]
  have "reachable [(''wa'', ''wa'')] (sole (InJob (0, sample_job) (fresh_counts (Some 0)) [] 0 0) (set_running 0 dispatched_state))"
    by (simp add: sole_def set_running_def update_row_def)
  from sole_step [OF this calm.job_ended [THEN calm_step]] show ?thesis
    by (simp add: fresh_counts_def sole_def completed_state_def sample_job_def tally_def publish_event_def
        set_ended_def update_row_def)
qed

definition completed_row :: job_row where
  "completed_row = \<lparr>jr_job = sample_job, jr_status = Complete, jr_found = 0, jr_processed = 0, jr_failed = 0,
     jr_cursor = cursor_text 0, jr_error = None\<rparr>"

lemma completed_row_there: "sd_rows (sole (Dispatching [] 1 0) completed_state) 0 = Some completed_row"
  by (simp add: sole_def completed_state_def tally_def publish_event_def set_ended_def update_row_def
      set_running_def dispatched_state_def new_row_def end_status_def fresh_counts_def completed_row_def)

theorem job_rows_sound_witness:
  "jr_failed completed_row = 0 \<and> jr_cursor completed_row = cursor_text (jr_found completed_row)"
  using job_rows_sound [OF completed_reachable completed_row_there] by (simp add: completed_row_def)


theorem thread_terminates_witness:
  "\<exists>v' s'. calm [(''wa'', ''wa'')] (Starting ''wa'', started) (v', s')"
proof -
  have "Starting ''wa'' \<in> set (sd_workers started)" by (simp add: started_facts)
  with thread_terminates [of "[(''wa'', ''wa'')]"] started_reachable show ?thesis by (auto simp: registry_get_def)
qed



end
