(* ===== verification/PyIO.thy ===== *)
theory PyIO
  imports Prelude
begin

text \<open>
  Code that calls services: a computation takes the state of the services to a result and a state;
  what was written before an exception stays written.
\<close>

type_synonym ('s, 'a) io = "'s \<Rightarrow> 'a result \<times> 's"

definition retI :: "'a \<Rightarrow> ('s, 'a) io" where
  "retI x s = (Inr x, s)"

definition liftI :: "'a result \<Rightarrow> ('s, 'a) io" where
  "liftI r s = (r, s)"

definition bindI :: "('s, 'a) io \<Rightarrow> ('a \<Rightarrow> ('s, 'b) io) \<Rightarrow> ('s, 'b) io" where
  "bindI m f s = (case m s of (Inl e, s') \<Rightarrow> (Inl e, s') | (Inr x, s') \<Rightarrow> f x s')"

text \<open>\<open>try: m except Exception: h\<close>.\<close>

definition tryI :: "('s, 'a) io \<Rightarrow> ('s, 'a) io \<Rightarrow> ('s, 'a) io" where
  "tryI m h s = (case m s of (Inl e, s') \<Rightarrow> h s' | (Inr x, s') \<Rightarrow> (Inr x, s'))"

text \<open>A query and a write of a service; \<open>None\<close> is an exception, which leaves the state as it is.\<close>

definition queryI :: "('s \<Rightarrow> 'a option) \<Rightarrow> ('s, 'a) io" where
  "queryI q s = (case q s of Some x \<Rightarrow> (Inr x, s) | None \<Rightarrow> (Inl ServiceError, s))"

definition writeI :: "('s \<Rightarrow> 's option) \<Rightarrow> ('s, unit) io" where
  "writeI w s = (case w s of Some s' \<Rightarrow> (Inr (), s') | None \<Rightarrow> (Inl ServiceError, s))"

definition updateI :: "('s \<Rightarrow> ('s \<times> 'a) option) \<Rightarrow> ('s, 'a) io" where
  "updateI w s = (case w s of Some (s', x) \<Rightarrow> (Inr x, s') | None \<Rightarrow> (Inl ServiceError, s))"

fun foldI :: "('b \<Rightarrow> 'a \<Rightarrow> ('s, 'b) io) \<Rightarrow> 'b \<Rightarrow> 'a list \<Rightarrow> ('s, 'b) io" where
  "foldI f b [] = retI b"
| "foldI f b (x # xs) = bindI (f b x) (\<lambda>b'. foldI f b' xs)"

definition eachI :: "('a \<Rightarrow> ('s, unit) io) \<Rightarrow> 'a list \<Rightarrow> ('s, unit) io" where
  "eachI f xs = foldI (\<lambda>_ x. f x) () xs"

lemma bindI_Inr:
  "bindI m f s = (Inr y, s') \<longleftrightarrow> (\<exists>x s1. m s = (Inr x, s1) \<and> f x s1 = (Inr y, s'))"
  by (auto simp: bindI_def split: prod.splits sum.splits)

lemma retI_Inr [simp]: "retI x s = (Inr y, s') \<longleftrightarrow> y = x \<and> s' = s"
  by (auto simp: retI_def)

lemma liftI_Inr [simp]: "liftI r s = (Inr y, s') \<longleftrightarrow> r = Inr y \<and> s' = s"
  by (auto simp: liftI_def)

lemma queryI_Inr: "queryI q s = (Inr x, s') \<longleftrightarrow> q s = Some x \<and> s' = s"
  by (auto simp: queryI_def split: option.splits)

lemma writeI_Inr: "writeI w s = (Inr u, s') \<longleftrightarrow> w s = Some s'"
  by (auto simp: writeI_def split: option.splits)

lemma updateI_Inr: "updateI w s = (Inr x, s') \<longleftrightarrow> w s = Some (s', x)"
  by (auto simp: updateI_def split: option.splits)

text \<open>What holds of the state at every step holds in the end, whether the computation raises or not.\<close>

definition keeps :: "('s \<Rightarrow> bool) \<Rightarrow> ('s, 'a) io \<Rightarrow> bool" where
  "keeps P m = (\<forall>s. P s \<longrightarrow> P (snd (m s)))"

named_theorems keeps_intros

lemma keeps_ret [keeps_intros]: "keeps P (retI x)"
  by (simp add: keeps_def retI_def)

lemma keeps_lift [keeps_intros]: "keeps P (liftI r)"
  by (simp add: keeps_def liftI_def)

lemma keeps_query [keeps_intros]: "keeps P (queryI q)"
  by (simp add: keeps_def queryI_def split: option.split)

lemma keeps_bind [keeps_intros]: "keeps P m \<Longrightarrow> (\<And>x. keeps P (f x)) \<Longrightarrow> keeps P (bindI m f)"
  by (fastforce simp: keeps_def bindI_def split: prod.splits sum.splits)

lemma keeps_try [keeps_intros]: "keeps P m \<Longrightarrow> keeps P h \<Longrightarrow> keeps P (tryI m h)"
  by (fastforce simp: keeps_def tryI_def split: prod.splits sum.splits)

lemma keeps_write: "(\<And>s s'. P s \<Longrightarrow> w s = Some s' \<Longrightarrow> P s') \<Longrightarrow> keeps P (writeI w)"
  by (auto simp: keeps_def writeI_def split: option.split)

lemma keeps_update: "(\<And>s s' x. P s \<Longrightarrow> w s = Some (s', x) \<Longrightarrow> P s') \<Longrightarrow> keeps P (updateI w)"
  by (auto simp: keeps_def updateI_def split: option.split)

lemma keeps_fold [keeps_intros]: "(\<And>b x. keeps P (f b x)) \<Longrightarrow> keeps P (foldI f b xs)"
  by (induction xs arbitrary: b) (simp_all add: keeps_ret keeps_bind)

lemma keeps_each [keeps_intros]: "(\<And>x. keeps P (f x)) \<Longrightarrow> keeps P (eachI f xs)"
  unfolding eachI_def by (rule keeps_fold)

lemma keeps_if [keeps_intros]: "keeps P m \<Longrightarrow> keeps P n \<Longrightarrow> keeps P (if b then m else n)"
  by simp

lemma keeps_then: "keeps P m \<Longrightarrow> P s \<Longrightarrow> m s = (r, s') \<Longrightarrow> P s'"
  unfolding keeps_def by (metis snd_conv)

end
