(* ===== verification/MatchService.thy ===== *)
theory MatchService
  imports Matching TableStore PyIO
begin

text \<open>
  \<open>matching/service.py\<close> and the cycle of \<open>matching/worker.py\<close>: which requirements are matched against
  which listings of a tenant, and what is written to the match tables.

  The table service is the parameter \<open>me_ops\<close>, the clock \<open>me_now\<close>; the queries that sort and filter by
  a set of statuses are \<open>me_requirements\<close>, and \<open>me_order\<close> is the order in which Python walks a set.
\<close>

section \<open>The environment\<close>

record 's match_env =
  me_ops :: "'s rest"
  me_now :: int
  me_order :: "(string \<times> string) list \<Rightarrow> (string \<times> string) list"
  me_requirements :: "'s \<Rightarrow> string \<Rightarrow> string option \<Rightarrow> int option \<Rightarrow> int \<Rightarrow> pydict list option"

definition select_rows :: "'s match_env \<Rightarrow> string \<Rightarrow> filters \<Rightarrow> ('s, pydict list) io" where
  "select_rows env t fs = queryI (\<lambda>s. rest_select (me_ops env) s t fs)"

definition delete_rows :: "'s match_env \<Rightarrow> string \<Rightarrow> filters \<Rightarrow> ('s, unit) io" where
  "delete_rows env t fs = writeI (\<lambda>s. rest_delete (me_ops env) s t fs)"

definition upsert_rows :: "'s match_env \<Rightarrow> string \<Rightarrow> string list \<Rightarrow> pydict list \<Rightarrow> ('s, pydict list) io" where
  "upsert_rows env t ks rows = updateI (\<lambda>s. rest_upserts (me_ops env) s t ks rows)"

definition insert_rows :: "'s match_env \<Rightarrow> string \<Rightarrow> pydict list \<Rightarrow> ('s, unit) io" where
  "insert_rows env t rows = writeI (\<lambda>s. rest_insert (me_ops env) s t rows)"

section \<open>Loading\<close>

definition type_pair :: "pydict \<Rightarrow> (string \<times> string) option" where
  "type_pair row =
     (let t = str_or (dget row ''req_type'') in
      if CHR ''_'' \<in> set t
      then Some (takeWhile (\<lambda>c. c \<noteq> CHR ''_'') t, tl (dropWhile (\<lambda>c. c \<noteq> CHR ''_'') t)) else None)"

definition load_listings :: "'s match_env \<Rightarrow> string \<Rightarrow> pydict list \<Rightarrow> ('s, pydict list) io" where
  "load_listings env tenant requirements =
     foldI
       (\<lambda>listings (asset, transaction).
          bindI (select_rows env ''listings_unified_matching''
                   [(''tenant_id'', VStr tenant), (''asset_type'', VStr asset),
                    (''transaction_type'', VStr transaction)])
            (\<lambda>rows. retI (listings @ take 2000 rows)))
       [] (me_order env (dedup (List.map_filter type_pair requirements)))"

definition load_approvals :: "'s match_env \<Rightarrow> string \<Rightarrow> string \<Rightarrow> ('s, pydict list) io" where
  "load_approvals env tenant item_kind =
     tryI (select_rows env ''matching_item_approvals''
             [(''tenant_id'', VStr tenant), (''item_kind'', VStr item_kind), (''approved'', VBool True)])
       (retI [])"

text \<open>Dictionaries keyed by a type and an integer: a later row replaces an earlier one.\<close>

type_synonym keyed = "((pyval \<times> int) \<times> pydict) list"

definition typed_key :: "pyval \<Rightarrow> pyval \<Rightarrow> (pyval \<times> int) result" where
  "typed_key t v = bindE (int_of v) (\<lambda>i. if hashable t then Inr (t, i) else Inl TypeError)"

definition keyed_rows :: "pydict list \<Rightarrow> keyed result" where
  "keyed_rows rows =
     mapE (\<lambda>r. bindE (typed_key (dget r ''source_type'') (dget r ''source_id'')) (\<lambda>k. Inr (k, r))) rows"

definition keyed_get :: "keyed \<Rightarrow> pyval \<times> int \<Rightarrow> pydict option" where
  "keyed_get d k =
     map_option snd (List.find (\<lambda>(k', _). py_eq (fst k) (fst k') \<and> snd k = snd k') (rev d))"

type_synonym prefs = "((string \<times> int) \<times> pydict) list"

definition load_preferences :: "'s match_env \<Rightarrow> string \<Rightarrow> ('s, prefs) io" where
  "load_preferences env tenant =
     bindI (tryI (select_rows env ''requirement_match_preferences'' [(''tenant_id'', VStr tenant)]) (retI []))
       (\<lambda>rows. liftI (mapE
          (\<lambda>r. bindE (int_of (dget r ''requirement_typed_id'')) (\<lambda>i.
                 Inr ((py_str (dget r ''requirement_type''), i), r)))
          (filter (\<lambda>r. truthy (dget r ''requirement_type'') \<and> \<not> is_none (dget r ''requirement_typed_id'')) rows)))"

definition preference_of :: "prefs \<Rightarrow> pydict \<Rightarrow> pydict result" where
  "preference_of preferences requirement =
     (let t = dget requirement ''req_type''; i = dget requirement ''id'' in
      if \<not> hashable t \<or> \<not> hashable i then Inl TypeError
      else Inr (case List.find (\<lambda>((t', i'), _). py_eq (VStr t') t \<and> py_eq (VInt i') i) (rev preferences) of
                  Some (_, r) \<Rightarrow> r | None \<Rightarrow> []))"

section \<open>Candidates\<close>

definition run_policy :: "pydict \<Rightarrow> pyfloat option \<Rightarrow> int option \<Rightarrow> pydict" where
  "run_policy preference minimum cap =
     (let p = dupdate default_policy preference;
          p1 = (case minimum of Some m \<Rightarrow> dput p ''minimum_score'' (VFloat m) | None \<Rightarrow> p)
      in case cap of Some c \<Rightarrow> dput p1 ''max_matches'' (VInt c) | None \<Rightarrow> p1)"

definition visible_to :: "pydict \<Rightarrow> pydict \<Rightarrow> bool" where
  "visible_to requirement_approval approval =
     (py_eq (dget approval ''visibility'') (VStr ''shared_market'') \<or>
      py_eq (dget approval ''owner_user_id'') (dget requirement_approval ''owner_user_id''))"

definition other_market :: "pydict \<Rightarrow> pydict \<Rightarrow> bool" where
  "other_market requirement listing =
     ((case (Option.bind (market_slug (dget requirement ''micro_market'')) nonempty, listing_market listing) of
         (Some a, Some b) \<Rightarrow> a \<noteq> b | _ \<Rightarrow> False) \<and>
      \<not> truthy (dget requirement ''building_name''))"

definition outside_area :: "pydict \<Rightarrow> pydict \<Rightarrow> pydict \<Rightarrow> bool result" where
  "outside_area policy requirement listing =
     (let area = dget listing ''carpet_area_sqft'';
          req_min = dget requirement ''carpet_area_min_sqft''; req_max = dget requirement ''carpet_area_max_sqft''
      in if \<not> truthy area \<or> \<not> (truthy req_min \<or> truthy req_max) then Inr False
         else catchE
           (bindE (float_of (or_val (dget_or policy ''area_tolerance_percent'' (VInt 20)) (VInt 0))) (\<lambda>t.
            let tol = fdiv (fmax (Fin 0) t) (Fin 100) in
            bindE (float_of (or_val req_min req_max)) (\<lambda>lo. bindE (float_of (or_val req_max req_min)) (\<lambda>hi.
            bindE (float_of area) (\<lambda>a.
              Inr (\<not> (fle (fmul lo (fsub (Fin 1) tol)) a \<and> fle a (fmul hi (fadd (Fin 1) tol)))))))))
           [TypeError, ValueError] (Inr False))"

definition candidate_of ::
    "int \<Rightarrow> pydict \<Rightarrow> keyed \<Rightarrow> pydict \<Rightarrow> pydict \<Rightarrow> pydict \<Rightarrow> matched list result" where
  "candidate_of now policy approved_listings requirement_approval requirement listing =
     bindE (typed_key (dget listing ''card_type'') (dget listing ''id'')) (\<lambda>k.
       case keyed_get approved_listings k of
         None \<Rightarrow> Inr []
       | Some approval \<Rightarrow>
           if \<not> visible_to requirement_approval approval \<or> other_market requirement listing then Inr []
           else bindE (outside_area policy requirement listing) (\<lambda>out.
             if out then Inr []
             else bindE (score_candidate now requirement listing (Some policy)) (\<lambda>m.
               Inr (case m of Some x \<Rightarrow> [x] | None \<Rightarrow> []))))"

definition candidates_of ::
    "int \<Rightarrow> pydict \<Rightarrow> keyed \<Rightarrow> pydict \<Rightarrow> pydict \<Rightarrow> pydict list \<Rightarrow> matched list result" where
  "candidates_of now policy approved_listings requirement_approval requirement listings =
     bindE (mapE (candidate_of now policy approved_listings requirement_approval requirement) listings)
       (\<lambda>xss. Inr (concat xss))"

text \<open>The first match of every pair of identifiers.\<close>

definition pair_eq :: "matched \<Rightarrow> matched \<Rightarrow> bool" where
  "pair_eq a b =
     (py_eq (mt_requirement_id a) (mt_requirement_id b) \<and> py_eq (mt_listing_id a) (mt_listing_id b))"

definition unique_pairs :: "matched list \<Rightarrow> matched list result" where
  "unique_pairs xs =
     (if list_all (\<lambda>m. hashable (mt_requirement_id m) \<and> hashable (mt_listing_id m)) xs
      then Inr (foldl (\<lambda>acc m. if list_ex (pair_eq m) acc then acc else acc @ [m]) [] xs)
      else Inl TypeError)"

definition selected_of ::
    "int \<Rightarrow> pydict \<Rightarrow> keyed \<Rightarrow> pydict \<Rightarrow> pydict \<Rightarrow> pydict list \<Rightarrow> matched list result" where
  "selected_of now policy approved_listings requirement_approval requirement listings =
     bindE (candidates_of now policy approved_listings requirement_approval requirement listings) (\<lambda>candidates.
     bindE (int_of (dget policy ''max_matches'')) (\<lambda>cap.
     bindE (float_of (dget policy ''minimum_score'')) (\<lambda>minimum.
     bindE (cap_matches candidates cap minimum) unique_pairs)))"

section \<open>Writing\<close>

definition listed :: "matched \<Rightarrow> bool" where
  "listed m = (truthy (dget (mt_listing m) ''card_type'') \<and> \<not> is_none (dget (mt_listing m) ''id''))"

definition vbool_opt :: "bool option \<Rightarrow> pyval" where
  "vbool_opt b = (case b of Some x \<Rightarrow> VBool x | None \<Rightarrow> VNone)"

definition match_row :: "string \<Rightarrow> string \<Rightarrow> pydict \<Rightarrow> matched \<Rightarrow> pydict" where
  "match_row now tenant requirement m =
     [(''match_score'', VFloat (mt_score m)), (''bhk_match'', VBool (mt_bhk m)), (''market_match'', VBool (mt_market m)),
      (''price_match'', opt_val (mt_price m)), (''building_match'', vbool_opt (mt_building m)),
      (''intent_match'', VBool (mt_intent m)),
      (''match_reasons'', VList (map VStr (mt_reasons m))), (''unknown_fields'', VList (map VStr (mt_unknown m))),
      (''requirement_id'', dget requirement ''matching_id''), (''listing_id'', dget (mt_listing m) ''matching_id''),
      (''requirement_type'', dget requirement ''req_type''), (''requirement_typed_id'', dget requirement ''id''),
      (''listing_type'', dget (mt_listing m) ''card_type''), (''listing_typed_id'', dget (mt_listing m) ''id''),
      (''matched_at'', VStr now), (''tenant_id'', VStr tenant)]"

definition match_keys :: "string list" where
  "match_keys = [''tenant_id'', ''requirement_type'', ''requirement_typed_id'', ''listing_type'', ''listing_typed_id'']"

definition bucket_label :: "pydict \<Rightarrow> string" where
  "bucket_label requirement =
     (let market = strip (str_or (dget requirement ''micro_market''));
          bhk = strip (str_or (dget requirement ''bhk_options''));
          label = join '' '' (filter (\<lambda>p. p \<noteq> []) [bhk, ''requirement'', market])
      in if label = [] then ''Requirement matches'' else label)"

definition bucket_row :: "string \<Rightarrow> pydict \<Rightarrow> pydict \<Rightarrow> string \<Rightarrow> int \<Rightarrow> pydict" where
  "bucket_row tenant requirement approval rtype rid =
     [(''tenant_id'', VStr tenant), (''client_id'', dget approval ''client_id''),
      (''owner_user_id'', dget approval ''owner_user_id''), (''name'', VStr (take 120 (bucket_label requirement))),
      (''bucket_kind'', VStr ''listings''),
      (''visibility'', or_val (dget approval ''visibility'') (VStr ''workspace_private'')),
      (''generated_from_requirement_type'', VStr rtype), (''generated_from_requirement_id'', VInt rid),
      (''generation_mode'', VStr ''deterministic_requirement_match'')]"

definition bucket_item :: "string \<Rightarrow> pyval \<Rightarrow> matched \<Rightarrow> pydict" where
  "bucket_item tenant bucket_id m =
     [(''tenant_id'', VStr tenant), (''bucket_id'', bucket_id),
      (''source_type'', dget (mt_listing m) ''card_type''), (''source_id'', dget (mt_listing m) ''id'')]"

definition fill_bucket ::
    "'s match_env \<Rightarrow> string \<Rightarrow> matched list \<Rightarrow> pydict list \<Rightarrow> ('s, unit) io" where
  "fill_bucket env tenant selected bucket_rows =
     (case bucket_rows of
        [] \<Rightarrow> retI ()
      | b # _ \<Rightarrow>
          if \<not> dhas b ''id'' then liftI (Inl KeyError)
          else
            bindI (delete_rows env ''match_bucket_items''
                     [(''tenant_id'', VStr tenant), (''bucket_id'', dget b ''id'')]) (\<lambda>_.
              let items = map (bucket_item tenant (dget b ''id'')) (filter listed selected)
              in if items = [] then retI () else insert_rows env ''match_bucket_items'' items))"

definition sync_bucket ::
    "'s match_env \<Rightarrow> string \<Rightarrow> pydict \<Rightarrow> pydict \<Rightarrow> matched list \<Rightarrow> ('s, unit) io" where
  "sync_bucket env tenant requirement approval selected =
     (let rtype = str_or (dget requirement ''req_type''); rid = dget requirement ''id'' in
      if rtype = [] \<or> is_none rid then retI ()
      else
        bindI (liftI (int_of rid)) (\<lambda>i.
          tryI
            (bindI (upsert_rows env ''match_buckets''
                      [''tenant_id'', ''generated_from_requirement_type'', ''generated_from_requirement_id'']
                      [bucket_row tenant requirement approval rtype i]) (\<lambda>rows0.
             bindI (if rows0 \<noteq> [] then retI rows0
                    else bindI (select_rows env ''match_buckets''
                           [(''tenant_id'', VStr tenant), (''generated_from_requirement_type'', VStr rtype),
                            (''generated_from_requirement_id'', VInt i)]) (\<lambda>rs. retI (take 1 rs)))
               (fill_bucket env tenant selected)))
            (retI ())))"

text \<open>The stale rows of a requirement go before its new ones are written.\<close>

definition replace_matches ::
    "'s match_env \<Rightarrow> string \<Rightarrow> pydict \<Rightarrow> matched list \<Rightarrow> ('s, nat) io" where
  "replace_matches env tenant requirement selected =
     (let rtype = dget requirement ''req_type''; rid = dget requirement ''id'' in
      bindI
        (if truthy rtype \<and> \<not> is_none rid
         then delete_rows env ''requirement_matches''
                [(''tenant_id'', VStr tenant), (''requirement_type'', rtype), (''requirement_typed_id'', rid)]
         else retI ()) (\<lambda>_.
      if selected = [] then retI 0
      else
        let payload = map (match_row (isoformat (me_now env)) tenant requirement) (filter listed selected)
        in bindI (upsert_rows env ''requirement_matches'' match_keys payload) (\<lambda>_. retI (length payload))))"

section \<open>A run\<close>

record run_counts =
  rc_scanned :: nat
  rc_written :: nat
  rc_groups :: nat

definition match_requirement ::
    "'s match_env \<Rightarrow> string \<Rightarrow> pyfloat option \<Rightarrow> int option \<Rightarrow> prefs \<Rightarrow> pydict list \<Rightarrow> keyed \<Rightarrow> keyed \<Rightarrow>
     run_counts \<Rightarrow> pydict \<Rightarrow> ('s, run_counts) io" where
  "match_requirement env tenant minimum cap preferences listings approved_requirements approved_listings counts requirement =
     bindI (liftI (typed_key (dget requirement ''req_type'') (dget requirement ''id''))) (\<lambda>k.
       case keyed_get approved_requirements k of
         None \<Rightarrow> retI counts
       | Some approval \<Rightarrow>
           bindI (liftI (preference_of preferences requirement)) (\<lambda>preference.
             let policy = run_policy preference minimum cap in
             if \<not> truthy (dget_or policy ''enabled'' (VBool True)) then retI counts
             else
               bindI (liftI (selected_of (me_now env) policy approved_listings approval requirement listings)) (\<lambda>selected.
               bindI (sync_bucket env tenant requirement approval selected) (\<lambda>_.
               bindI (replace_matches env tenant requirement selected) (\<lambda>n.
                 retI (counts\<lparr>rc_written := rc_written counts + n,
                              rc_groups := rc_groups counts + (if selected = [] then 0 else 1)\<rparr>))))))"

definition run_requirements ::
    "'s match_env \<Rightarrow> string \<Rightarrow> pydict list \<Rightarrow> pyfloat option \<Rightarrow> int option \<Rightarrow> prefs \<Rightarrow> ('s, run_counts) io" where
  "run_requirements env tenant requirements minimum cap preferences =
     bindI (load_listings env tenant requirements) (\<lambda>listings.
     bindI (load_approvals env tenant ''requirement'') (\<lambda>ra.
     bindI (liftI (keyed_rows ra)) (\<lambda>approved_requirements.
     bindI (load_approvals env tenant ''listing'') (\<lambda>la.
     bindI (liftI (keyed_rows la)) (\<lambda>approved_listings.
       foldI (match_requirement env tenant minimum cap preferences listings approved_requirements approved_listings)
         \<lparr>rc_scanned = length requirements, rc_written = 0, rc_groups = 0\<rparr> requirements)))))"

definition run_requirement ::
    "'s match_env \<Rightarrow> string \<Rightarrow> int \<Rightarrow> string option \<Rightarrow> pyfloat option \<Rightarrow> int option \<Rightarrow> ('s, run_counts) io" where
  "run_requirement env tenant requirement_id req_type minimum cap =
     bindI (queryI (\<lambda>s. me_requirements env s tenant (Option.bind req_type nonempty) (Some requirement_id) 1)) (\<lambda>requirements.
     bindI (load_preferences env tenant) (\<lambda>preferences.
       run_requirements env tenant requirements minimum cap preferences))"

definition run_sample ::
    "'s match_env \<Rightarrow> string \<Rightarrow> string option \<Rightarrow> int \<Rightarrow> pyfloat option \<Rightarrow> int option \<Rightarrow> ('s, run_counts) io" where
  "run_sample env tenant req_type limit minimum cap =
     bindI (queryI (\<lambda>s. me_requirements env s tenant (Option.bind req_type nonempty) None (min limit 250))) (\<lambda>requirements.
     bindI (load_preferences env tenant) (\<lambda>preferences.
       run_requirements env tenant requirements minimum cap preferences))"

section \<open>The due requirements\<close>

definition waits :: "int \<Rightarrow> pydict \<Rightarrow> bool result" where
  "waits now policy =
     (if dget_or policy ''enabled'' (VBool True) = VBool False then Inr True
      else let next_run = dget policy ''next_run_at'' in
        if \<not> truthy next_run then Inr False
        else catchE (bindE (iso_of next_run) (\<lambda>d. bindE (instant d) (\<lambda>t. Inr (now < t)))) [ValueError] (Inr False))"

definition due_requirements :: "int \<Rightarrow> prefs \<Rightarrow> pydict list \<Rightarrow> pydict list result" where
  "due_requirements now preferences requirements =
     bindE (mapE (\<lambda>r. bindE (preference_of preferences r) (\<lambda>p. bindE (waits now p) (\<lambda>w. Inr (if w then [] else [r])))) requirements)
       (\<lambda>xss. Inr (concat xss))"

definition cadence_of :: "pydict \<Rightarrow> int result" where
  "cadence_of policy =
     bindE (int_of (or_val (dget_or policy ''cadence_minutes'' (VInt 15)) (VInt 15))) (\<lambda>c. Inr (max 5 (min 1440 c)))"

definition metrics_of :: "run_counts \<Rightarrow> pyval" where
  "metrics_of r =
     VDict [(''requirements_scanned'', VInt (int (rc_scanned r))), (''match_rows_written'', VInt (int (rc_written r))),
            (''requirements_with_matches'', VInt (int (rc_groups r)))]"

definition schedule_row :: "int \<Rightarrow> string \<Rightarrow> pydict \<Rightarrow> int \<Rightarrow> run_counts \<Rightarrow> pydict" where
  "schedule_row now tenant requirement cadence counts =
     [(''tenant_id'', VStr tenant), (''requirement_type'', dget requirement ''req_type''),
      (''requirement_typed_id'', dget requirement ''id''),
      (''next_run_at'', VStr (isoformat (now + cadence * 60000000))), (''last_run_at'', VStr (isoformat now)),
      (''last_run_status'', VStr ''ok''), (''last_run_metrics'', metrics_of counts)]"

definition reschedule :: "'s match_env \<Rightarrow> string \<Rightarrow> prefs \<Rightarrow> run_counts \<Rightarrow> pydict \<Rightarrow> ('s, unit) io" where
  "reschedule env tenant preferences counts requirement =
     bindI (liftI (bindE (preference_of preferences requirement) cadence_of)) (\<lambda>cadence.
       tryI (bindI (upsert_rows env ''requirement_match_preferences''
                      [''tenant_id'', ''requirement_type'', ''requirement_typed_id'']
                      [schedule_row (me_now env) tenant requirement cadence counts]) (\<lambda>_. retI ()))
         (retI ()))"

definition run_due :: "'s match_env \<Rightarrow> string \<Rightarrow> int \<Rightarrow> ('s, run_counts) io" where
  "run_due env tenant limit =
     bindI (queryI (\<lambda>s. me_requirements env s tenant None None (min limit 250))) (\<lambda>requirements.
     bindI (load_preferences env tenant) (\<lambda>preferences.
     bindI (liftI (due_requirements (me_now env) preferences requirements)) (\<lambda>due.
     bindI (run_requirements env tenant due None None preferences) (\<lambda>counts.
     bindI (eachI (reschedule env tenant preferences counts) due) (\<lambda>_. retI counts)))))"

section \<open>The worker's cycle\<close>

definition tenant_ids :: "string option \<Rightarrow> pydict list \<Rightarrow> string list" where
  "tenant_ids tenant organizations =
     (case tenant of
        Some (c # t) \<Rightarrow> [c # t]
      | _ \<Rightarrow> map (\<lambda>row. py_str (dget row ''id''))
              (filter (\<lambda>row. truthy (dget row ''id'') \<and> dget_or row ''is_active'' (VBool True) \<noteq> VBool False)
                organizations))"

definition add_counts :: "run_counts \<Rightarrow> run_counts \<Rightarrow> run_counts" where
  "add_counts a b =
     \<lparr>rc_scanned = rc_scanned a + rc_scanned b, rc_written = rc_written a + rc_written b,
      rc_groups = rc_groups a + rc_groups b\<rparr>"

definition run_once ::
    "'s match_env \<Rightarrow> int \<Rightarrow> ('s, pydict list) io \<Rightarrow> string option \<Rightarrow> ('s, nat \<times> run_counts) io" where
  "run_once env batch list_organizations tenant =
     bindI (if Option.bind tenant nonempty \<noteq> None then retI [] else list_organizations) (\<lambda>organizations.
       foldI (\<lambda>(n, counts) t. bindI (run_due env t batch) (\<lambda>r. retI (n + 1, add_counts counts r)))
         (0, \<lparr>rc_scanned = 0, rc_written = 0, rc_groups = 0\<rparr>) (tenant_ids tenant organizations))"

section \<open>Writes stay with the tenant\<close>

text \<open>A view of another tenant: the rows of a table that a filter on another tenant selects.\<close>

definition foreign :: "'s rest \<Rightarrow> string \<Rightarrow> pyval \<Rightarrow> filters \<Rightarrow> pydict list option \<Rightarrow> 's \<Rightarrow> bool" where
  "foreign ops t v fs X s = (rest_select ops s t ((''tenant_id'', v) # fs) = X)"

lemma row_keys:
  "distinct (map fst (match_row now tenant requirement m))"
  "set match_keys \<subseteq> fst ` set (match_row now tenant requirement m)"
  "dget (match_row now tenant requirement m) ''tenant_id'' = VStr tenant"
  "distinct (map fst (bucket_item tenant b m))" "''tenant_id'' \<in> fst ` set (bucket_item tenant b m)"
  "dget (bucket_item tenant b m) ''tenant_id'' = VStr tenant"
  "distinct (map fst (bucket_row tenant requirement approval rtype i))"
  "''tenant_id'' \<in> fst ` set (bucket_row tenant requirement approval rtype i)"
  "''generated_from_requirement_type'' \<in> fst ` set (bucket_row tenant requirement approval rtype i)"
  "''generated_from_requirement_id'' \<in> fst ` set (bucket_row tenant requirement approval rtype i)"
  "dget (bucket_row tenant requirement approval rtype i) ''tenant_id'' = VStr tenant"
  by (simp_all add: match_row_def match_keys_def bucket_item_def bucket_row_def dget_def)


context batch_store
begin

lemma keeps_delete:
  assumes "v \<noteq> v'" and "me_ops env = ops"
  shows "keeps (foreign ops t v fs X) (delete_rows env t' ((''tenant_id'', v') # gs))"
  unfolding delete_rows_def foreign_def assms(2)
proof (rule keeps_write)
  fix s s'
  assume X: "rest_select ops s t ((''tenant_id'', v) # fs) = X"
    and d: "rest_delete ops s t' ((''tenant_id'', v') # gs) = Some s'"
  have "rest_select ops s' t ((''tenant_id'', v) # fs) = rest_select ops s t ((''tenant_id'', v) # fs)"
  proof (cases "t' = t")
    case True
    with d show ?thesis using delete_other_row [of s t _ s' "''tenant_id''" v' v] assms(1) by auto
  next
    case False
    then show ?thesis using delete_other_table [OF d, of t] by simp
  qed
  with X show "rest_select ops s' t ((''tenant_id'', v) # fs) = X" by simp
qed

lemma keeps_upserts:
  assumes "v \<noteq> v'" and "me_ops env = ops" and "''tenant_id'' \<in> set ks"
    and "\<And>row. row \<in> set rows \<Longrightarrow> distinct (map fst row) \<and> set ks \<subseteq> fst ` set row \<and> dget row ''tenant_id'' = v'"
  shows "keeps (foreign ops t v fs X) (upsert_rows env t' ks rows)"
  unfolding upsert_rows_def foreign_def assms(2)
proof (rule keeps_update)
  fix s s' out
  assume X: "rest_select ops s t ((''tenant_id'', v) # fs) = X"
    and d: "rest_upserts ops s t' ks rows = Some (s', out)"
  have "rest_select ops s' t ((''tenant_id'', v) # fs) = rest_select ops s t ((''tenant_id'', v) # fs)"
  proof (cases "t' = t")
    case True
    show ?thesis using d unfolding True
      by (rule upserts_other_row [OF _ assms(3), where v = v])
        (use assms(4) not_sym [OF assms(1)] in simp_all)
  next
    case False
    then show ?thesis using upserts_other_table [OF d, of t] by simp
  qed
  with X show "rest_select ops s' t ((''tenant_id'', v) # fs) = X" by simp
qed

lemma keeps_insert:
  assumes "v \<noteq> v'" and "me_ops env = ops"
    and "\<And>row. row \<in> set rows \<Longrightarrow> distinct (map fst row) \<and> ''tenant_id'' \<in> fst ` set row \<and> dget row ''tenant_id'' = v'"
  shows "keeps (foreign ops t v fs X) (insert_rows env t' rows)"
  unfolding insert_rows_def foreign_def assms(2)
proof (rule keeps_write)
  fix s s'
  assume X: "rest_select ops s t ((''tenant_id'', v) # fs) = X" and d: "rest_insert ops s t' rows = Some s'"
  have "rest_select ops s' t ((''tenant_id'', v) # fs) = rest_select ops s t ((''tenant_id'', v) # fs)"
  proof (cases "t' = t")
    case True
    show ?thesis using d unfolding True
      by (rule insert_other_row [where k = "''tenant_id''" and v = v])
        (use assms(3) not_sym [OF assms(1)] in simp_all)
  next
    case False
    then show ?thesis using insert_other_table [OF d, of t] by simp
  qed
  with X show "rest_select ops s' t ((''tenant_id'', v) # fs) = X" by simp
qed

lemma keeps_select: "keeps P (select_rows env t fs)"
  unfolding select_rows_def by (rule keeps_query)

lemma keeps_bucket:
  assumes "v \<noteq> VStr tenant" and "me_ops env = ops"
  shows "keeps (foreign ops t v fs X) (sync_bucket env tenant requirement approval selected)"
proof -
  have ins: "keeps (foreign ops t v fs X) (insert_rows env ''match_bucket_items'' (map (bucket_item tenant b) ms'))" for b ms'
  proof (rule keeps_insert [OF assms])
    fix row
    assume "row \<in> set (map (bucket_item tenant b) ms')"
    then obtain m where "row = bucket_item tenant b m" by auto
    then show "distinct (map fst row) \<and> ''tenant_id'' \<in> fst ` set row \<and> dget row ''tenant_id'' = VStr tenant"
      by (simp only: row_keys simp_thms)
  qed
  have fill: "keeps (foreign ops t v fs X) (fill_bucket env tenant selected rows)" for rows
    unfolding fill_bucket_def Let_def
    by (cases rows; simp only: list.case) (intro keeps_intros keeps_delete ins assms)+
  have up: "keeps (foreign ops t v fs X)
      (upsert_rows env ''match_buckets''
        [''tenant_id'', ''generated_from_requirement_type'', ''generated_from_requirement_id'']
        [bucket_row tenant requirement approval rtype i])" for rtype i
    by (rule keeps_upserts [OF assms]) (simp_all add: row_keys)
  show ?thesis
    unfolding sync_bucket_def Let_def
    by (intro keeps_intros keeps_select up fill)
qed

lemma keeps_replace:
  assumes "v \<noteq> VStr tenant" and "me_ops env = ops"
  shows "keeps (foreign ops t v fs X) (replace_matches env tenant requirement selected)"
proof -
  have up: "keeps (foreign ops t v fs X)
      (upsert_rows env ''requirement_matches'' match_keys
        (map (match_row now tenant requirement) (filter listed selected)))" for now
  proof (rule keeps_upserts [OF assms])
    show "''tenant_id'' \<in> set match_keys" by (simp add: match_keys_def)
    fix row
    assume "row \<in> set (map (match_row now tenant requirement) (filter listed selected))"
    then obtain m where "row = match_row now tenant requirement m" by auto
    then show "distinct (map fst row) \<and> set match_keys \<subseteq> fst ` set row \<and> dget row ''tenant_id'' = VStr tenant"
      by (simp only: row_keys simp_thms)
  qed
  show ?thesis
    unfolding replace_matches_def Let_def
    by (intro keeps_intros keeps_delete assms up)
qed

lemma keeps_option: "keeps P m \<Longrightarrow> (\<And>x. keeps P (f x)) \<Longrightarrow> keeps P (case x of None \<Rightarrow> m | Some y \<Rightarrow> f y)"
  by (cases x) simp_all

lemma keeps_match:
  assumes "v \<noteq> VStr tenant" and "me_ops env = ops"
  shows "keeps (foreign ops t v fs X)
    (match_requirement env tenant minimum cap preferences listings ar al counts requirement)"
  unfolding match_requirement_def Let_def
  by (intro keeps_intros keeps_option keeps_bucket keeps_replace assms)

lemma keeps_run:
  assumes "v \<noteq> VStr tenant" and "me_ops env = ops"
  shows "keeps (foreign ops t v fs X) (run_requirements env tenant requirements minimum cap preferences)"
proof -
  have "keeps (foreign ops t v fs X) (load_listings env tenant requirements)"
    unfolding load_listings_def by (intro keeps_intros) (auto split: prod.split intro!: keeps_intros keeps_select)
  then show ?thesis
    unfolding run_requirements_def load_approvals_def
    by (intro keeps_intros keeps_select keeps_match assms)
qed

lemma keeps_run_due:
  assumes "v \<noteq> VStr tenant" and "me_ops env = ops"
  shows "keeps (foreign ops t v fs X) (run_due env tenant limit)"
proof -
  have up: "keeps (foreign ops t v fs X)
      (upsert_rows env ''requirement_match_preferences'' [''tenant_id'', ''requirement_type'', ''requirement_typed_id'']
        [schedule_row now tenant requirement cadence counts])" for now requirement cadence counts
    by (rule keeps_upserts [OF assms]) (simp_all add: schedule_row_def dget_def)
  show ?thesis
    unfolding run_due_def load_preferences_def reschedule_def
    by (intro keeps_intros keeps_select keeps_run up assms)
qed

text \<open>What is left of a requirement after its matches have been replaced.\<close>

lemma replace_matches_rows:
  assumes "me_ops env = ops" and "replace_matches env tenant requirement selected s = (Inr n, s')"
    and "truthy (dget requirement ''req_type'')" "\<not> is_none (dget requirement ''id'')"
    and "rest_select ops s' ''requirement_matches''
      [(''tenant_id'', VStr tenant), (''requirement_type'', dget requirement ''req_type''),
       (''requirement_typed_id'', dget requirement ''id'')] = Some rows" and "r \<in> set rows"
  shows "written_from (map (match_row (isoformat (me_now env)) tenant requirement) (filter listed selected)) r"
proof -
  let ?fs = "[(''tenant_id'', VStr tenant), (''requirement_type'', dget requirement ''req_type''),
    (''requirement_typed_id'', dget requirement ''id'')]"
  let ?payload = "map (match_row (isoformat (me_now env)) tenant requirement) (filter listed selected)"
  from assms(1-4) obtain s1 where d: "rest_delete ops s ''requirement_matches'' ?fs = Some s1"
    and u: "selected = [] \<and> s' = s1 \<or>
      (\<exists>out. rest_upserts ops s1 ''requirement_matches'' match_keys ?payload = Some (s', out))"
    by (auto simp: replace_matches_def Let_def bindI_Inr delete_rows_def writeI_Inr upsert_rows_def updateI_Inr
        split: if_splits)
  from delete_gone [OF d] have gone: "rest_select ops s1 ''requirement_matches'' ?fs = Some []" .
  from u show ?thesis
  proof
    assume "selected = [] \<and> s' = s1"
    with gone assms(5,6) show ?thesis by simp
  next
    assume "\<exists>out. rest_upserts ops s1 ''requirement_matches'' match_keys ?payload = Some (s', out)"
    then obtain out where "rest_upserts ops s1 ''requirement_matches'' match_keys ?payload = Some (s', out)" ..
    then have "r \<in> set [] \<or> written_from ?payload r"
      by (rule upserts_rows [OF _ gone assms(5,6)]) (auto simp: row_keys)
    then show ?thesis by simp
  qed
qed

end

section \<open>Approvals\<close>

lemma score_listing: "score_candidate now requirement listing policy0 = Inr (Some m) \<Longrightarrow> mt_listing m = listing"
  by (erule score_candidate_parts) (simp add: make_match_def Let_def)

lemma unique_pairs_sub: "unique_pairs xs = Inr ys \<Longrightarrow> set ys \<subseteq> set xs"
proof -
  have "set (foldl (\<lambda>acc m. if list_ex (pair_eq m) acc then acc else acc @ [m]) acc xs) \<subseteq> set acc \<union> set xs" for acc
  proof (induction xs arbitrary: acc)
    case (Cons x xs)
    from Cons [of acc] Cons [of "acc @ [x]"] show ?case by auto
  qed simp
  from this [of "[]"] show "unique_pairs xs = Inr ys \<Longrightarrow> set ys \<subseteq> set xs"
    by (auto simp: unique_pairs_def split: if_splits)
qed

lemma cap_matches_sub: "cap_matches xs cap minimum = Inr ys \<Longrightarrow> set ys \<subseteq> set xs"
  unfolding cap_matches_def
  by (drule cap_loop_ok) (simp_all add: kept_ok_def sorted_desc_order)

text \<open>A selected match is an approved listing that the requirement's owner may see, scored as eligible.\<close>

lemma selected_facts:
  assumes "selected_of now policy approved approval requirement listings = Inr selected" and "m \<in> set selected"
  obtains k a where "mt_listing m \<in> set listings"
    "typed_key (dget (mt_listing m) ''card_type'') (dget (mt_listing m) ''id'') = Inr k"
    "keyed_get approved k = Some a" "visible_to approval a"
    "score_candidate now requirement (mt_listing m) (Some policy) = Inr (Some m)"
proof -
  from assms(1) obtain candidates cap minimum capped where
    c: "candidates_of now policy approved approval requirement listings = Inr candidates"
    and u: "cap_matches candidates cap minimum = Inr capped" "unique_pairs capped = Inr selected"
    by (auto simp: selected_of_def bindE_Inr_iff)
  have "m \<in> set candidates" using assms(2) unique_pairs_sub [OF u(2)] cap_matches_sub [OF u(1)] by auto
  from c obtain xss where
    ok: "list_all2 (\<lambda>x y. candidate_of now policy approved approval requirement x = Inr y) listings xss"
    and "candidates = concat xss"
    by (auto simp: candidates_of_def bindE_Inr_iff mapE_Inr)
  with \<open>m \<in> set candidates\<close> obtain ms' where ms': "ms' \<in> set xss" "m \<in> set ms'" by auto
  from ms'(1) obtain i where i: "i < length xss" "xss ! i = ms'" by (auto simp: in_set_conv_nth)
  have l: "listings ! i \<in> set listings" "m \<in> set ms'"
    "candidate_of now policy approved approval requirement (listings ! i) = Inr ms'"
    using ok i ms'(2) by (auto simp: list_all2_conv_all_nth)
  define listing where "listing = listings ! i"
  note l = l [folded listing_def]
  from l(3) obtain k where k: "typed_key (dget listing ''card_type'') (dget listing ''id'') = Inr k"
    and rest: "(case keyed_get approved k of
         None \<Rightarrow> Inr []
       | Some a \<Rightarrow>
           if \<not> visible_to approval a \<or> other_market requirement listing then Inr []
           else bindE (outside_area policy requirement listing) (\<lambda>out.
             if out then Inr []
             else bindE (score_candidate now requirement listing (Some policy)) (\<lambda>m.
               Inr (case m of Some x \<Rightarrow> [x] | None \<Rightarrow> [])))) = Inr ms'"
    unfolding candidate_of_def bindE_Inr_iff by blast
  from rest l(2) obtain a where "keyed_get approved k = Some a" "visible_to approval a"
    "score_candidate now requirement listing (Some policy) = Inr (Some m)"
    by (auto simp: bindE_Inr_iff split: option.splits if_splits)
  with score_listing [OF this(3)] k l(1) that show thesis by simp
qed

section \<open>Properties\<close>

text \<open>
  C3: A matching run writes nothing outside its tenant.  Over any table service with the documented
  behaviour of upserts, inserts and deletes, a run of the due requirements of a tenant - whether
  it returns or raises half-way - leaves every table as it was for every other tenant.
\<close>

theorem tenant_isolation:
  assumes "batch_store (me_ops env)" and "v \<noteq> VStr tenant"
  shows "rest_select (me_ops env) (snd (run_due env tenant limit s)) t ((''tenant_id'', v) # fs) =
    rest_select (me_ops env) s t ((''tenant_id'', v) # fs)"
  using batch_store.keeps_run_due [OF assms(1,2) refl, of t fs "rest_select (me_ops env) s t ((''tenant_id'', v) # fs)" limit]
  by (simp add: keeps_def foreign_def)

text \<open>
  C5: Only approved listings are matched.  Every match selected for a requirement is an eligible listing
  whose approval row exists for its type and identifier and either shares it with the market or
  has the same owner as the requirement's approval.
\<close>

theorem approved_only:
  assumes "selected_of now policy approved approval requirement listings = Inr selected" and "m \<in> set selected"
  shows "mt_listing m \<in> set listings \<and> eligible now (policy_of (Some policy)) requirement (mt_listing m) \<and>
    (\<exists>k a. typed_key (dget (mt_listing m) ''card_type'') (dget (mt_listing m) ''id'') = Inr k \<and>
       keyed_get approved k = Some a \<and>
       (py_eq (dget a ''visibility'') (VStr ''shared_market'') \<or>
        py_eq (dget a ''owner_user_id'') (dget approval ''owner_user_id'')))"
  by (rule selected_facts [OF assms]) (auto simp: visible_to_def score_candidate_Some)

text \<open>
  C8: A rerun is authoritative.  After the matches of a requirement have been replaced, every row of
  \<open>requirement_matches\<close> for the requirement holds the columns of one of the matches now selected:
  no stale row is left.
\<close>

theorem rerun_authoritative:
  assumes "batch_store (me_ops env)"
    and "replace_matches env tenant requirement selected s = (Inr n, s')"
    and "truthy (dget requirement ''req_type'')" and "\<not> is_none (dget requirement ''id'')"
    and "rest_select (me_ops env) s' ''requirement_matches''
      [(''tenant_id'', VStr tenant), (''requirement_type'', dget requirement ''req_type''),
       (''requirement_typed_id'', dget requirement ''id'')] = Some rows"
  shows "\<forall>r \<in> set rows. \<exists>m \<in> set selected. listed m \<and>
    dget r ''listing_type'' = dget (mt_listing m) ''card_type'' \<and>
    dget r ''listing_typed_id'' = dget (mt_listing m) ''id'' \<and> dget r ''match_score'' = VFloat (mt_score m)"
proof
  fix r
  assume "r \<in> set rows"
  from batch_store.replace_matches_rows [OF assms(1) refl assms(2-5) this]
  obtain m where m: "m \<in> set selected" "listed m"
    and r: "\<And>k. k \<in> fst ` set (match_row (isoformat (me_now env)) tenant requirement m) \<Longrightarrow>
      dget r k = dget (match_row (isoformat (me_now env)) tenant requirement m) k"
    by (auto simp: written_from_def)
  show "\<exists>m \<in> set selected. listed m \<and>
    dget r ''listing_type'' = dget (mt_listing m) ''card_type'' \<and>
    dget r ''listing_typed_id'' = dget (mt_listing m) ''id'' \<and> dget r ''match_score'' = VFloat (mt_score m)"
    using r [of "''listing_type''"] r [of "''listing_typed_id''"] r [of "''match_score''"]
    by (intro bexI [OF _ m(1)]) (simp add: m(2) match_row_def dget_def)
qed

section \<open>Examples\<close>

definition sample_env :: "tables match_env" where
  "sample_env =
     \<lparr>me_ops = table_ops, me_now = sample_now, me_order = id,
      me_requirements = (\<lambda>s tenant rtype rid limit. Some [])\<rparr>"

definition old_match :: pydict where
  "old_match =
     [(''tenant_id'', VStr ''t1''), (''requirement_type'', VStr ''residential_rent''), (''requirement_typed_id'', VInt 1),
      (''listing_type'', VStr ''residential_rent''), (''listing_typed_id'', VInt 99)]"

definition old_tables :: tables where
  "old_tables = \<lparr>tb_rows = [(''requirement_matches'', old_match)], tb_next = 1\<rparr>"

definition card_listing :: pydict where
  "card_listing = dput sample_listing ''card_type'' (VStr ''residential_rent'')"

definition card_match :: matched where
  "card_match = sample_match\<lparr>mt_listing := card_listing\<rparr>"

theorem tenant_isolation_witness:
  "tb_select (snd (run_due sample_env ''t2'' 50 old_tables)) ''requirement_matches'' [(''tenant_id'', VStr ''t1'')] =
   tb_select old_tables ''requirement_matches'' [(''tenant_id'', VStr ''t1'')]"
  using tenant_isolation [of sample_env "VStr ''t1''" "''t2''" 50 old_tables "''requirement_matches''" "[]"]
    batch_tables.batch_store_axioms
  by (simp add: sample_env_def)

definition replaced_tables :: tables where
  "replaced_tables = snd (replace_matches sample_env ''t1'' sample_requirement [card_match] old_tables)"

lemma replaced_ok:
  "fst (replace_matches sample_env ''t1'' sample_requirement [card_match] old_tables) = Inr 1"
  "truthy (dget sample_requirement ''req_type'')" "\<not> is_none (dget sample_requirement ''id'')"
  by code_simp+

theorem rerun_authoritative_witness:
  "\<exists>rows. tb_select replaced_tables ''requirement_matches''
      [(''tenant_id'', VStr ''t1''), (''requirement_type'', dget sample_requirement ''req_type''),
       (''requirement_typed_id'', dget sample_requirement ''id'')] = Some rows \<and>
     list_all (\<lambda>r. dget r ''listing_typed_id'' = VInt 7) rows"
proof -
  let ?fs = "[(''tenant_id'', VStr ''t1''), (''requirement_type'', dget sample_requirement ''req_type''),
    (''requirement_typed_id'', dget sample_requirement ''id'')]"
  obtain rows where rows: "tb_select replaced_tables ''requirement_matches'' ?fs = Some rows"
    by (simp add: tb_select_def)
  have "replace_matches sample_env ''t1'' sample_requirement [card_match] old_tables = (Inr 1, replaced_tables)"
    using replaced_ok(1) by (simp add: replaced_tables_def prod_eq_iff)
  moreover have "batch_store (me_ops sample_env)"
    using batch_tables.batch_store_axioms by (simp add: sample_env_def)
  ultimately have "\<forall>r \<in> set rows. \<exists>m \<in> set [card_match]. listed m \<and>
    dget r ''listing_type'' = dget (mt_listing m) ''card_type'' \<and>
    dget r ''listing_typed_id'' = dget (mt_listing m) ''id'' \<and> dget r ''match_score'' = VFloat (mt_score m)"
    using rerun_authoritative [of sample_env "''t1''" sample_requirement "[card_match]" old_tables 1 replaced_tables rows]
      replaced_ok(2,3) rows by (simp add: sample_env_def)
  moreover have "dget (mt_listing card_match) ''id'' = VInt 7" by code_simp
  ultimately show ?thesis using rows by (auto simp: list_all_iff)
qed

definition sample_approved :: keyed where
  "sample_approved = [((VStr ''residential_rent'', 7), [(''visibility'', VStr ''shared_market'')])]"

definition run_sample_policy :: pydict where
  "run_sample_policy = dupdate default_policy [(''area_tolerance_percent'', VInt 0)]"

lemma sample_selected:
  "selected_of sample_now run_sample_policy sample_approved [] sample_requirement [card_listing] = Inr [card_match]"
  by code_simp

theorem approved_only_witness:
  "eligible sample_now (policy_of (Some run_sample_policy)) sample_requirement card_listing"
proof -
  have "mt_listing card_match = card_listing" by (simp add: card_match_def)
  with approved_only [OF sample_selected, of card_match] show ?thesis by simp
qed

end
