(* ===== verification/BuildingTables.thy ===== *)
theory BuildingTables
  imports PyVal PyIO
begin

text \<open>
  The registry files of \<open>evidence/resolver.py\<close> and their loaders.  A file is the list of its rows as
  \<open>csv.DictReader\<close> yields them (a column that a short row lacks is \<open>VNone\<close>); a file that does not
  exist is the empty list.  A loader that raises leaves nothing in the cache.
\<close>

section \<open>Rows\<close>

text \<open>\<open>row[k]\<close>, \<open>int(row[k])\<close>, a string method on \<open>row[k]\<close> and on \<open>row.get(k, "")\<close>.\<close>

definition column :: "pydict \<Rightarrow> string \<Rightarrow> pyval result" where
  "column row k = (if dhas row k then Inr (dget row k) else Inl KeyError)"

definition int_column :: "pydict \<Rightarrow> string \<Rightarrow> int result" where
  "int_column row k = bindE (column row k) int_of"

definition text_of :: "pyval \<Rightarrow> string result" where
  "text_of v = (case v of VStr s \<Rightarrow> Inr s | _ \<Rightarrow> Inl AttributeError)"

definition text_column :: "pydict \<Rightarrow> string \<Rightarrow> string result" where
  "text_column row k = bindE (column row k) text_of"

definition text_get :: "pydict \<Rightarrow> string \<Rightarrow> string result" where
  "text_get row k = text_of (dget_or row k (VStr []))"

text \<open>A list of identifiers separated by semicolons.\<close>

definition id_list :: "string \<Rightarrow> int list result" where
  "id_list s = mapE (\<lambda>b. int_of (VStr b)) (filter (\<lambda>b. strip b \<noteq> []) (split_on (CHR '';'') s))"

text \<open>A dictionary as the list of its items: a new value for a known key keeps the key's place.\<close>

fun item_put :: "('k \<times> 'v) list \<Rightarrow> 'k \<Rightarrow> 'v \<Rightarrow> ('k \<times> 'v) list" where
  "item_put [] k v = [(k, v)]"
| "item_put ((k', v') # d) k v = (if k' = k then (k, v) # d else (k', v') # item_put d k v)"

lemma map_of_item_put [simp]: "map_of (item_put d k v) = (map_of d)(k \<mapsto> v)"
  by (induction d) auto

section \<open>Buildings and their aliases\<close>

record building_info =
  bi_id :: int
  bi_name :: string
  bi_area :: string
  bi_developer :: string
  bi_fingerprint :: pyval

record building_registry =
  br_buildings :: "(string \<times> building_info) list"
  br_aliases :: "(string \<times> int) list"

definition add_building :: "(string \<times> building_info) list \<Rightarrow> pydict \<Rightarrow> (string \<times> building_info) list result" where
  "add_building buildings row =
     bindE (int_column row ''building_id'') (\<lambda>bid.
     bindE (text_column row ''canonical_name'') (\<lambda>name.
     bindE (text_get row ''area'') (\<lambda>area.
     bindE (text_get row ''developer'') (\<lambda>developer.
       Inr (item_put buildings (lower (strip name))
         \<lparr>bi_id = bid, bi_name = strip name, bi_area = lower (strip area), bi_developer = lower (strip developer),
          bi_fingerprint = dget_or row ''fingerprint'' (VStr [])\<rparr>)))))"

definition alias_row :: "pydict \<Rightarrow> (string \<times> int) result" where
  "alias_row row =
     bindE (text_column row ''alias'') (\<lambda>a. bindE (int_column row ''building_id'') (\<lambda>bid. Inr (lower (strip a), bid)))"

definition load_registry :: "pydict list \<Rightarrow> pydict list \<Rightarrow> building_registry result" where
  "load_registry building_rows alias_rows =
     bindE (foldE add_building [] building_rows) (\<lambda>buildings.
     bindE (mapE alias_row alias_rows) (\<lambda>aliases.
       Inr \<lparr>br_buildings = buildings, br_aliases = aliases\<rparr>))"

section \<open>Streets\<close>

record street =
  st_id :: pyval
  st_name :: string
  st_buildings :: "int list"

definition add_street :: "(string \<times> street) list \<Rightarrow> pydict \<Rightarrow> (string \<times> street) list result" where
  "add_street streets row =
     bindE (column row ''street_id'') (\<lambda>sid.
     bindE (column row ''name'') (\<lambda>name.
     bindE (text_get row ''building_ids'') (\<lambda>ids.
     bindE (id_list ids) (\<lambda>bids.
     bindE (text_of name) (\<lambda>n.
       Inr (item_put streets (lower n) \<lparr>st_id = sid, st_name = n, st_buildings = bids\<rparr>))))))"

definition load_streets :: "pydict list \<Rightarrow> (string \<times> street) list result" where
  "load_streets rows = foldE add_street [] rows"

section \<open>Projects\<close>

record project =
  pj_id :: int
  pj_name :: string
  pj_developer :: pyval
  pj_buildings :: "int list"
  pj_district :: pyval
  pj_area :: pyval

record project_registry =
  pr_by_name :: "(string \<times> project) list"
  pr_by_rera :: "(string \<times> project) list"

definition add_project :: "project_registry \<Rightarrow> pydict \<Rightarrow> project_registry result" where
  "add_project projects row =
     bindE (text_column row ''project_name'') (\<lambda>name.
     bindE (text_column row ''rera_no'') (\<lambda>rera.
     bindE (text_get row ''building_ids'') (\<lambda>ids.
     bindE (id_list ids) (\<lambda>bids.
     bindE (int_column row ''project_id'') (\<lambda>pid.
       let project = \<lparr>pj_id = pid, pj_name = name, pj_developer = dget_or row ''developer_name'' (VStr []),
             pj_buildings = bids, pj_district = dget_or row ''district'' (VStr []), pj_area = dget_or row ''area'' (VStr [])\<rparr>
       in Inr \<lparr>pr_by_name = item_put (pr_by_name projects) (lower (strip name)) project,
               pr_by_rera = (if strip rera = [] then pr_by_rera projects
                             else item_put (pr_by_rera projects) (strip rera) project)\<rparr>)))))"

definition load_projects :: "pydict list \<Rightarrow> project_registry result" where
  "load_projects rows = foldE add_project \<lparr>pr_by_name = [], pr_by_rera = []\<rparr> rows"

section \<open>Developers\<close>

text \<open>The pairs of a developer and a building; a developer's set is what it is paired with.\<close>

definition developer_row :: "pydict \<Rightarrow> (string \<times> int) list result" where
  "developer_row row =
     bindE (text_column row ''developer_name'') (\<lambda>name.
     bindE (text_get row ''building_ids'') (\<lambda>ids.
     bindE (id_list (strip ids)) (\<lambda>bids. Inr (map (Pair (lower (strip name))) bids))))"

definition load_developers :: "pydict list \<Rightarrow> (string \<times> int) list result" where
  "load_developers rows = bindE (mapE developer_row rows) (\<lambda>xss. Inr (concat xss))"

definition known_buildings :: "(string \<times> int) list \<Rightarrow> string \<Rightarrow> int list" where
  "known_buildings pairs developer = dedup (map snd (filter (\<lambda>(d, _). d = developer) pairs))"

section \<open>Landmarks\<close>

record landmark =
  lm_id :: pyval
  lm_name :: string
  lm_kind :: pyval
  lm_market :: pyval
  lm_latitude :: pyfloat
  lm_longitude :: pyfloat
  lm_importance :: int

record near_link =
  nl_building :: int
  nl_distance :: int
  nl_minutes :: int

record landmark_registry =
  lr_by_name :: "(string \<times> landmark) list"
  lr_by_alias :: "(string \<times> landmark) list"
  lr_all :: "landmark list"
  lr_links :: "(pyval \<times> near_link) list"

definition float_get :: "pydict \<Rightarrow> string \<Rightarrow> pyfloat result" where
  "float_get row k = float_of (or_val (dget_or row k (VInt 0)) (VInt 0))"

definition landmark_of :: "pydict \<Rightarrow> landmark result" where
  "landmark_of row =
     bindE (column row ''landmark_id'') (\<lambda>lid.
     bindE (column row ''name'') (\<lambda>name.
     bindE (float_get row ''latitude'') (\<lambda>lat.
     bindE (float_get row ''longitude'') (\<lambda>lon.
     bindE (int_of (or_val (dget_or row ''importance'' (VInt 0)) (VInt 0))) (\<lambda>importance.
     bindE (text_of name) (\<lambda>n.
       Inr \<lparr>lm_id = lid, lm_name = n, lm_kind = dget_or row ''type'' (VStr []),
            lm_market = dget_or row ''micro_market'' (VStr []), lm_latitude = lat, lm_longitude = lon,
            lm_importance = importance\<rparr>))))))"

definition add_landmark :: "landmark_registry \<Rightarrow> pydict \<Rightarrow> landmark_registry result" where
  "add_landmark registry row =
     bindE (landmark_of row) (\<lambda>lm.
     bindE (text_get row ''aliases'') (\<lambda>aliases.
       Inr (registry
         \<lparr>lr_by_name := item_put (lr_by_name registry) (lower (strip (lm_name lm))) lm,
          lr_all := lr_all registry @ [lm],
          lr_by_alias := foldl (\<lambda>d a. item_put d a lm) (lr_by_alias registry)
            (filter (\<lambda>a. a \<noteq> []) (map (\<lambda>a. lower (strip a)) (split_on (CHR '';'') (strip aliases))))\<rparr>)))"

definition link_row :: "pydict \<Rightarrow> (pyval \<times> near_link) result" where
  "link_row row =
     bindE (int_column row ''building_id'') (\<lambda>bid.
     bindE (column row ''landmark_id'') (\<lambda>lid.
     bindE (int_of (dget_or row ''distance_m'' (VInt 0))) (\<lambda>dist.
     bindE (int_of (dget_or row ''walking_min'' (VInt 0))) (\<lambda>minutes.
       Inr (lid, \<lparr>nl_building = bid, nl_distance = dist, nl_minutes = minutes\<rparr>)))))"

definition load_landmarks :: "pydict list \<Rightarrow> pydict list \<Rightarrow> landmark_registry result" where
  "load_landmarks landmark_rows link_rows =
     bindE (foldE add_landmark \<lparr>lr_by_name = [], lr_by_alias = [], lr_all = [], lr_links = []\<rparr> landmark_rows) (\<lambda>registry.
     bindE (mapE link_row link_rows) (\<lambda>links. Inr (registry\<lparr>lr_links := links\<rparr>)))"

definition neighbours :: "landmark_registry \<Rightarrow> pyval \<Rightarrow> near_link list" where
  "neighbours registry lid = map snd (filter (\<lambda>(l, _). l = lid) (lr_links registry))"

end
