(* ===== verification/LocationQuery.thy ===== *)
theory LocationQuery
  imports PyRegex PyFloat
begin

text \<open>
  \<open>evidence/parsers.py\<close>: the grammar of broker locations ("opposite Lilavati Hospital", "Bandra
  station"), read into a relation, the entity and a hint of what the entity is.
\<close>

section \<open>The tables\<close>

text \<open>A confidence is given in hundredths.\<close>

definition conf :: "int \<Rightarrow> pyfloat" where
  "conf n = flit (of_int n / 100)"

definition prefix_patterns :: "(string \<times> string \<times> int) list" where
  "prefix_patterns =
    [(''^(?:opposite|opp%.?|opp|across%s+from)%s+(.+)$'', ''opposite'', 95),
     (''^(?:behind|backside%s+of|back%s+side%s+of)%s+(.+)$'', ''behind'', 90),
     (''^(?:near|next%s+to|adjacent%s+to|close%s+to|by%s+the%s+side%s+of)%s+(.+)$'', ''near'', 85),
     (''^just%s+(?:off|near|opposite)%s+(.+)$'', ''near'', 80),
     (''^(?:walkable%s+to|walking%s+distance%s+(?:from|to)|walking%s+from|5%s*min%s+(?:walk%s+)?from)%s+(.+)$'',
      ''walkable'', 80),
     (''^off%s+(.+)$'', ''off'', 85),
     (''^on%s+(.+)$'', ''on'', 70),
     (''^at%s+(.+)$'', ''at'', 60)]"

definition suffix_patterns :: "(string \<times> string \<times> int \<times> string) list" where
  "suffix_patterns =
    [(''^(.+?)%s+(?:lane|lane|galli|gully)$'', ''lane'', 85, ''street''),
     (''^(.+?)%s+(?:naka)$'', ''junction'', 90, ''area''),
     (''^(.+?)%s+(?:circle|chowk|square)$'', ''circle'', 85, ''area''),
     (''^(.+?)%s+(?:signal)$'', ''signal'', 80, ''area''),
     (''^(.+?)%s+(?:cross|crossing)$'', ''crossing'', 80, ''area''),
     (''^(.+?)%s+(?:station|stn)$'', ''station'', 90, ''station''),
     (''^(.+?)%s+(?:road|rd)$'', ''road'', 75, ''street'')]"

text \<open>The weights of the keywords are read nowhere.\<close>

definition keyword_hints :: "(string \<times> string) list" where
  "keyword_hints =
    [(''hospital'', ''landmark''), (''mall'', ''landmark''), (''temple'', ''landmark''), (''mandir'', ''landmark''),
     (''church'', ''landmark''), (''mosque'', ''landmark''), (''masjid'', ''landmark''), (''dargah'', ''landmark''),
     (''beach'', ''landmark''), (''lake'', ''landmark''), (''garden'', ''landmark''), (''park'', ''landmark''),
     (''stadium'', ''landmark''), (''station'', ''landmark''), (''airport'', ''landmark''), (''hotel'', ''landmark''),
     (''college'', ''landmark''), (''school'', ''landmark''), (''university'', ''landmark''), (''theatre'', ''landmark''),
     (''cinema'', ''landmark''), (''museum'', ''landmark''), (''club'', ''landmark'')]"

definition infer_type :: "string \<Rightarrow> string option" where
  "infer_type query = map_option snd (List.find (\<lambda>(k, _). contains query k) keyword_hints)"

section \<open>Parsing\<close>

record location_query =
  lq_relation :: "string option"
  lq_main :: string
  lq_hint :: "string option"
  lq_confidence :: pyfloat
  lq_raw :: string

text \<open>The first pattern of a table that matches, with the text of its group.\<close>

fun first_pattern :: "(string \<times> 'a) list \<Rightarrow> string \<Rightarrow> (string \<times> 'a) option" where
  "first_pattern [] s = None"
| "first_pattern ((p, x) # ps) s =
     (case re_match (rx_plain p) s of
        Some m \<Rightarrow> Some (strip (group_or [] 1 m), x)
      | None \<Rightarrow> first_pattern ps s)"

definition parse_location :: "string \<Rightarrow> location_query" where
  "parse_location text =
     (let raw = strip text; low = strip (lower raw)
      in case first_pattern prefix_patterns low of
           Some (main, relation, c) \<Rightarrow>
             \<lparr>lq_relation = Some relation, lq_main = main, lq_hint = infer_type main, lq_confidence = conf c, lq_raw = raw\<rparr>
         | None \<Rightarrow>
             (case first_pattern suffix_patterns low of
                Some (main, relation, c, hint) \<Rightarrow>
                  \<lparr>lq_relation = Some relation, lq_main = main, lq_hint = Some hint, lq_confidence = conf c, lq_raw = raw\<rparr>
              | None \<Rightarrow>
                  if infer_type low = Some ''landmark''
                  then \<lparr>lq_relation = None, lq_main = low, lq_hint = Some ''landmark'', lq_confidence = conf 50, lq_raw = raw\<rparr>
                  else \<lparr>lq_relation = None, lq_main = low, lq_hint = None, lq_confidence = Fin 0, lq_raw = raw\<rparr>))"

definition strip_relation :: "string \<Rightarrow> string" where
  "strip_relation text = lq_main (parse_location text)"

definition relation_weights :: "(string \<times> int) list" where
  "relation_weights =
    [(''opposite'', 95), (''behind'', 90), (''near'', 85), (''off'', 85), (''walkable'', 80), (''on'', 70), (''at'', 60),
     (''lane'', 85), (''junction'', 90), (''circle'', 80), (''signal'', 70), (''crossing'', 75)]"

definition relation_confidence :: "string \<Rightarrow> pyfloat" where
  "relation_confidence relation = conf (case map_of relation_weights relation of Some c \<Rightarrow> c | None \<Rightarrow> 50)"

end
