(* ===== verification/Difflib.thy ===== *)
theory Difflib
  imports FloatOrder PyStr
begin

text \<open>
  \<open>difflib.SequenceMatcher(None, a, b).ratio()\<close> of the standard library: the share of characters in the
  matching blocks.  The longest common run is taken out first - the leftmost in \<open>a\<close>, then in \<open>b\<close> - and
  the two sides are matched by themselves.  From 200 characters on, the characters that make up more
  than a hundredth of \<open>b\<close> start no run and only extend one.
\<close>

section \<open>Blocks\<close>

definition popular :: "string \<Rightarrow> char \<Rightarrow> bool" where
  "popular b c = (200 \<le> length b \<and> length b div 100 + 1 < length (filter (\<lambda>d. d = c) b))"

fun common_run :: "(char \<Rightarrow> bool) \<Rightarrow> string \<Rightarrow> string \<Rightarrow> nat" where
  "common_run p (x # xs) (y # ys) = (if x = y \<and> \<not> p x then Suc (common_run p xs ys) else 0)"
| "common_run p xs ys = 0"

lemma common_run_le: "common_run p xs ys \<le> length xs" "common_run p xs ys \<le> length ys"
  by (induction p xs ys rule: common_run.induct) auto

lemma common_run_self: "common_run (\<lambda>_. False) xs xs = length xs"
  by (induction xs) auto

text \<open>The longest run without popular characters: its starts and its length.\<close>

definition longer :: "(char \<Rightarrow> bool) \<Rightarrow> string \<Rightarrow> string \<Rightarrow> nat \<times> nat \<times> nat \<Rightarrow> nat \<times> nat \<Rightarrow> nat \<times> nat \<times> nat" where
  "longer p a b best ij =
     (let k = common_run p (drop (fst ij) a) (drop (snd ij) b)
      in if snd (snd best) < k then (fst ij, snd ij, k) else best)"

definition core_run :: "(char \<Rightarrow> bool) \<Rightarrow> string \<Rightarrow> string \<Rightarrow> nat \<times> nat \<times> nat" where
  "core_run p a b = foldl (longer p a b) (0, 0, 0) (List.product [0..<length a] [0..<length b])"

text \<open>The run is then extended to both sides by whatever characters agree.\<close>

definition longest_run :: "(char \<Rightarrow> bool) \<Rightarrow> string \<Rightarrow> string \<Rightarrow> nat \<times> nat \<times> nat" where
  "longest_run p a b =
     (case core_run p a b of (i, j, k) \<Rightarrow>
        let l = common_run (\<lambda>_. False) (rev (take i a)) (rev (take j b));
            r = common_run (\<lambda>_. False) (drop (i + k) a) (drop (j + k) b)
        in (i - l, j - l, l + k + r))"

lemma foldl_inv: "P s \<Longrightarrow> (\<And>s x. P s \<Longrightarrow> P (f s x)) \<Longrightarrow> P (foldl f s xs)"
  by (induction xs arbitrary: s) auto

lemma core_run_fits: "core_run p a b = (i, j, k) \<Longrightarrow> i + k \<le> length a \<and> j + k \<le> length b"
proof -
  have fits: "fst best + snd (snd best) \<le> length a \<and> fst (snd best) + snd (snd best) \<le> length b \<Longrightarrow>
      fst (longer p a b best ij) + snd (snd (longer p a b best ij)) \<le> length a \<and>
      fst (snd (longer p a b best ij)) + snd (snd (longer p a b best ij)) \<le> length b" for best ij
    using common_run_le [of p "drop (fst ij) a" "drop (snd ij) b"] by (auto simp: longer_def Let_def)
  have "fst (core_run p a b) + snd (snd (core_run p a b)) \<le> length a \<and>
      fst (snd (core_run p a b)) + snd (snd (core_run p a b)) \<le> length b"
    unfolding core_run_def by (rule foldl_inv) (simp, rule fits)
  then show "core_run p a b = (i, j, k) \<Longrightarrow> i + k \<le> length a \<and> j + k \<le> length b" by simp
qed

lemma longest_run_fits: "longest_run p a b = (i, j, k) \<Longrightarrow> i + k \<le> length a \<and> j + k \<le> length b"
proof -
  assume l: "longest_run p a b = (i, j, k)"
  obtain i0 j0 k0 where c: "core_run p a b = (i0, j0, k0)" by (cases "core_run p a b") auto
  have "common_run (\<lambda>_. False) (rev (take i0 a)) (rev (take j0 b)) \<le> i0"
    "common_run (\<lambda>_. False) (rev (take i0 a)) (rev (take j0 b)) \<le> j0"
    "common_run (\<lambda>_. False) (drop (i0 + k0) a) (drop (j0 + k0) b) \<le> length a - (i0 + k0)"
    "common_run (\<lambda>_. False) (drop (i0 + k0) a) (drop (j0 + k0) b) \<le> length b - (j0 + k0)"
    using common_run_le [of "\<lambda>_. False" "rev (take i0 a)" "rev (take j0 b)"]
      common_run_le [of "\<lambda>_. False" "drop (i0 + k0) a" "drop (j0 + k0) b"] by auto
  with core_run_fits [OF c] l c show ?thesis by (auto simp: longest_run_def Let_def)
qed

function matching_size :: "(char \<Rightarrow> bool) \<Rightarrow> string \<Rightarrow> string \<Rightarrow> nat" where
  "matching_size p a b =
     (case longest_run p a b of (i, j, k) \<Rightarrow>
        if k = 0 then 0
        else matching_size p (take i a) (take j b) + k + matching_size p (drop (i + k) a) (drop (j + k) b))"
  by pat_completeness auto
termination
  by (relation "measure (\<lambda>(p, a, b). length a)") (auto dest!: longest_run_fits [OF sym])

declare matching_size.simps [simp del]

lemma matching_size_le: "matching_size p a b \<le> length a \<and> matching_size p a b \<le> length b"
proof (induction p a b rule: matching_size.induct)
  case (1 p a b)
  obtain i j k where l: "longest_run p a b = (i, j, k)" by (cases "longest_run p a b") auto
  show ?case
  proof (cases "k = 0")
    case False
    have "matching_size p (take i a) (take j b) \<le> i \<and> matching_size p (take i a) (take j b) \<le> j"
      using 1(1) [OF l [symmetric] refl False] longest_run_fits [OF l] by auto
    moreover have "matching_size p (drop (i + k) a) (drop (j + k) b) \<le> length a - (i + k) \<and>
        matching_size p (drop (i + k) a) (drop (j + k) b) \<le> length b - (j + k)"
      using 1(2) [OF l [symmetric] refl False] by auto
    ultimately show ?thesis
      using longest_run_fits [OF l] False by (auto simp: matching_size.simps [of p a b] l)
  qed (simp add: matching_size.simps [of p a b] l)
qed

section \<open>The ratio\<close>

definition ratio :: "string \<Rightarrow> string \<Rightarrow> pyfloat" where
  "ratio a b =
     (let n = length a + length b
      in if n = 0 then Fin 1
         else fdiv (fint (2 * int (matching_size (popular b) a b))) (fint (int n)))"

text \<open>A ratio lies between 0 and 1; only lengths beyond the doubles give none.\<close>

lemma ratio_bounds: "ratio a b = NaN \<or> in_bounds (ratio a b) 1"
proof (cases "length a + length b = 0")
  case False
  let ?m = "2 * int (matching_size (popular b) a b)" and ?n = "int (length a + length b)"
  have le: "?m \<le> ?n" using matching_size_le [of "popular b" a b] by simp
  have r: "ratio a b = fdiv (fint ?m) (fint ?n)" unfolding ratio_def Let_def using False by (simp only: if_False)
  have "fle (fint ?m) (fint ?n)" unfolding fint_def by (rule rnd_mono) (use le in simp_all)
  moreover have "fle (rnd 0) (fint ?m)" unfolding fint_def by (rule rnd_mono) simp_all
  moreover have "1 \<le> ?n" using False by linarith
  then have "(of_int 1 :: rat) \<le> of_int ?n" by (simp only: of_int_le_iff)
  then have "fle (rnd (of_int 1)) (fint ?n)" unfolding fint_def by (rule rnd_mono)
  moreover note rnd_1 rnd_0
  moreover have "in_bounds (rnd (x / y)) 1" if "0 \<le> x" "x \<le> y" "1 \<le> y" for x y :: rat
    by (rule rnd_in_bounds) (use that in simp_all)
  moreover have "in_bounds (rnd x) 1" if "0 \<le> x" "x \<le> 1" for x
    by (rule rnd_in_bounds) (use that in simp_all)
  ultimately show ?thesis unfolding r
    by (cases "fint ?m"; cases "fint ?n") (auto simp: fle_def fdiv_def in_bounds_def)
qed (simp add: ratio_def in_bounds_def)

lemma ratio_above: "flt x (ratio a b) \<Longrightarrow> in_bounds (ratio a b) 1"
  using ratio_bounds [of a b] by (cases x) auto

end
