(* ===== verification/Memo.thy ===== *)
theory Memo
  imports PyIO
begin

text \<open>
  Values computed once and kept: a loader that first looks into a cache.  The locale \<open>memo_slot\<close> is the
  contract of one slot of a cache; \<open>agrees\<close> relates a computation that uses caches to the pure value
  it stands for, with one rule per operation.
\<close>

definition memoI :: "('c \<Rightarrow> 'v option) \<Rightarrow> ('v \<Rightarrow> 'c \<Rightarrow> 'c) \<Rightarrow> 'v result \<Rightarrow> ('c, 'v) io" where
  "memoI get put r c =
     (case get c of
        Some v \<Rightarrow> (Inr v, c)
      | None \<Rightarrow> (case r of Inl e \<Rightarrow> (Inl e, c) | Inr v \<Rightarrow> (Inr v, put v c)))"

definition agrees :: "('c \<Rightarrow> bool) \<Rightarrow> ('c, 'a) io \<Rightarrow> 'a result \<Rightarrow> bool" where
  "agrees P m r = (\<forall>c. P c \<longrightarrow> fst (m c) = r \<and> P (snd (m c)))"

named_theorems agrees_intros

lemma agreesD: "agrees P m r \<Longrightarrow> P c \<Longrightarrow> fst (m c) = r \<and> P (snd (m c))"
  by (simp add: agrees_def)

lemma agrees_lift [agrees_intros]: "agrees P (liftI r) r"
  by (simp add: agrees_def liftI_def)

lemma agrees_ret [agrees_intros]: "agrees P (retI x) (Inr x)"
  by (simp add: agrees_def retI_def)

lemma agrees_bind [agrees_intros]:
  assumes "agrees P m r" and "\<And>x. agrees P (f x) (g x)"
  shows "agrees P (bindI m f) (bindE r g)"
  unfolding agrees_def
proof (intro allI impI)
  fix c
  assume "P c"
  from agreesD [OF assms(1) this] have m: "fst (m c) = r" "P (snd (m c))" by simp_all
  show "fst (bindI m f c) = bindE r g \<and> P (snd (bindI m f c))"
  proof (cases r)
    case (Inl e)
    with m show ?thesis by (cases "m c") (simp add: bindI_def)
  next
    case (Inr x)
    with m agreesD [OF assms(2) m(2), of x] show ?thesis by (cases "m c") (simp add: bindI_def)
  qed
qed

lemma agrees_option [agrees_intros]:
  "agrees P m r \<Longrightarrow> (\<And>y. agrees P (f y) (g y)) \<Longrightarrow>
   agrees P (case x of None \<Rightarrow> m | Some y \<Rightarrow> f y) (case x of None \<Rightarrow> r | Some y \<Rightarrow> g y)"
  by (cases x) simp_all

lemma agrees_if [agrees_intros]:
  "agrees P m r \<Longrightarrow> agrees P n q \<Longrightarrow> agrees P (if b then m else n) (if b then r else q)"
  by simp

lemma agrees_fold [agrees_intros]:
  "(\<And>b x. agrees P (f b x) (g b x)) \<Longrightarrow> agrees P (foldI f b xs) (foldE g b xs)"
  by (induction xs arbitrary: b) (simp_all add: agrees_ret agrees_bind)

locale memo_slot =
  fixes get :: "'c \<Rightarrow> 'v option" and put :: "'v \<Rightarrow> 'c \<Rightarrow> 'c" and source :: "'v result" and ok :: "'c \<Rightarrow> bool"
  assumes get_ok: "ok c \<Longrightarrow> get c = Some v \<Longrightarrow> source = Inr v"
    and put_ok: "ok c \<Longrightarrow> source = Inr v \<Longrightarrow> ok (put v c)"
    and get_put: "get (put v c) = Some v"
begin

lemma memo_agrees: "agrees ok (memoI get put source) source"
  using get_ok put_ok by (auto simp: agrees_def memoI_def split: option.splits sum.splits)

text \<open>A second look finds what the first one left, and changes nothing.\<close>

lemma memo_twice: "memoI get put source c = (Inr v, c') \<Longrightarrow> memoI get put source c' = (Inr v, c')"
  by (auto simp: memoI_def get_put split: option.splits sum.splits)

end

end
