(* ===== verification/BuildingResolver.thy ===== *)
theory BuildingResolver
  imports BuildingTables LocationQuery Difflib Memo
begin

text \<open>
  \<open>evidence/resolver.py\<close>: a building name is resolved to an identifier, a confidence and the method that
  found it, by a chain of lookups in the registry files and at the end by string similarity.

  The files are \<open>registry_files\<close>; the module's dictionary \<open>CACHE\<close> is the record \<open>resolver_cache\<close>, filled by
  the loaders on their first call.  \<open>knowledge.normalization\<close> is not in the repository: its \<open>canonicalize\<close>
  is the parameter \<open>canon\<close>, and \<open>None\<close> an exception, the import error included.
\<close>

section \<open>The cache\<close>

record registry_files =
  rf_buildings :: "pydict list"
  rf_aliases :: "pydict list"
  rf_streets :: "pydict list"
  rf_projects :: "pydict list"
  rf_developers :: "pydict list"
  rf_landmarks :: "pydict list"
  rf_links :: "pydict list"

record resolver_cache =
  rc_registry :: "building_registry option"
  rc_streets :: "(string \<times> street) list option"
  rc_projects :: "project_registry option"
  rc_developers :: "(string \<times> int) list option"
  rc_landmarks :: "landmark_registry option"

definition clear_cache :: resolver_cache where
  "clear_cache = \<lparr>rc_registry = None, rc_streets = None, rc_projects = None, rc_developers = None, rc_landmarks = None\<rparr>"

definition registry_of :: "registry_files \<Rightarrow> building_registry result" where
  "registry_of files = load_registry (rf_buildings files) (rf_aliases files)"

definition streets_of :: "registry_files \<Rightarrow> (string \<times> street) list result" where
  "streets_of files = load_streets (rf_streets files)"

definition projects_of :: "registry_files \<Rightarrow> project_registry result" where
  "projects_of files = load_projects (rf_projects files)"

definition developers_of :: "registry_files \<Rightarrow> (string \<times> int) list result" where
  "developers_of files = load_developers (rf_developers files)"

definition landmarks_of :: "registry_files \<Rightarrow> landmark_registry result" where
  "landmarks_of files = load_landmarks (rf_landmarks files) (rf_links files)"

definition cached_registry :: "registry_files \<Rightarrow> (resolver_cache, building_registry) io" where
  "cached_registry files = memoI rc_registry (\<lambda>v. rc_registry_update (\<lambda>_. Some v)) (registry_of files)"

definition cached_streets :: "registry_files \<Rightarrow> (resolver_cache, (string \<times> street) list) io" where
  "cached_streets files = memoI rc_streets (\<lambda>v. rc_streets_update (\<lambda>_. Some v)) (streets_of files)"

definition cached_projects :: "registry_files \<Rightarrow> (resolver_cache, project_registry) io" where
  "cached_projects files = memoI rc_projects (\<lambda>v. rc_projects_update (\<lambda>_. Some v)) (projects_of files)"

definition cached_developers :: "registry_files \<Rightarrow> (resolver_cache, (string \<times> int) list) io" where
  "cached_developers files = memoI rc_developers (\<lambda>v. rc_developers_update (\<lambda>_. Some v)) (developers_of files)"

definition cached_landmarks :: "registry_files \<Rightarrow> (resolver_cache, landmark_registry) io" where
  "cached_landmarks files = memoI rc_landmarks (\<lambda>v. rc_landmarks_update (\<lambda>_. Some v)) (landmarks_of files)"

section \<open>The lookups\<close>

type_synonym answer = "int \<times> pyfloat \<times> string"

definition plain_name :: "string \<Rightarrow> string" where
  "plain_name s = strip (re_sub (rx_plain ''%s+'') '' '' (re_sub (rx_plain ''[^a-z0-9%s]'') [] (strip (lower s))))"

definition has_item :: "(string \<times> 'v) list \<Rightarrow> string \<Rightarrow> bool" where
  "has_item d k = (map_of d k \<noteq> None)"

text \<open>Exact name, alias, and the same for the canonical form of the name.\<close>

definition name_answer :: "building_registry \<Rightarrow> string \<Rightarrow> pyfloat \<Rightarrow> string \<Rightarrow> pyfloat \<Rightarrow> string \<Rightarrow> answer option" where
  "name_answer reg name c method alias_c alias_method =
     (case map_of (br_buildings reg) name of
        Some info \<Rightarrow> Some (bi_id info, c, method)
      | None \<Rightarrow> map_option (\<lambda>bid. (bid, alias_c, alias_method)) (map_of (br_aliases reg) name))"

definition registry_answer ::
    "building_registry \<Rightarrow> (string \<Rightarrow> string \<Rightarrow> string \<Rightarrow> string option) \<Rightarrow> string \<Rightarrow> string \<Rightarrow> string \<Rightarrow> answer option" where
  "registry_answer reg canon name area developer =
     (case name_answer reg (lower (strip name)) (Fin 1) ''exact'' (conf 98) ''alias'' of
        Some a \<Rightarrow> Some a
      | None \<Rightarrow>
          (case canon name area developer of
             Some normed \<Rightarrow> name_answer reg (lower (strip normed)) (conf 95) ''normalized'' (conf 93) ''normalized_alias''
           | None \<Rightarrow> None))"

text \<open>The first of the nearest links.\<close>

definition nearest :: "near_link list \<Rightarrow> near_link option" where
  "nearest links =
     (case links of [] \<Rightarrow> None
      | l # ls \<Rightarrow> Some (foldl (\<lambda>best x. if nl_distance x < nl_distance best then x else best) l ls))"

definition landmark_step :: "string \<Rightarrow> landmark option \<times> pyfloat \<Rightarrow> landmark \<Rightarrow> landmark option \<times> pyfloat" where
  "landmark_step query best lm =
     (let r = ratio query (plain_name (lm_name lm))
      in if flt (snd best) r \<and> fle (conf 70) r then (Some lm, r) else best)"

definition similar_landmark :: "landmark list \<Rightarrow> string \<Rightarrow> landmark option \<times> pyfloat" where
  "similar_landmark lms query = foldl (landmark_step query) (None, Fin 0) lms"

definition linked :: "landmark_registry \<Rightarrow> landmark \<Rightarrow> pyfloat \<Rightarrow> string \<Rightarrow> answer option" where
  "linked registry lm c method =
     map_option (\<lambda>l. (nl_building l, c, method @ py_str (lm_id lm))) (nearest (neighbours registry (lm_id lm)))"

definition lookup_landmark :: "landmark_registry \<Rightarrow> string \<Rightarrow> answer option" where
  "lookup_landmark registry landmark_query =
     (let query = lower (strip landmark_query) in
      case map_of (lr_by_name registry) query of
        Some lm \<Rightarrow> linked registry lm (conf 88) ''lm:''
      | None \<Rightarrow>
          (case map_of (lr_by_alias registry) query of
             Some lm \<Rightarrow> linked registry lm (conf 85) ''lm_alias:''
           | None \<Rightarrow>
               (case similar_landmark (lr_all registry) (plain_name query) of
                  (Some lm, r) \<Rightarrow> linked registry lm (fround 2 (fmul r (conf 90))) ''lm_fuzzy:''
                | (None, _) \<Rightarrow> None)))"

definition resolve_by_landmark :: "landmark_registry \<Rightarrow> string \<Rightarrow> int option \<times> pyfloat \<times> string" where
  "resolve_by_landmark registry landmark_query =
     (case lookup_landmark registry landmark_query of
        Some (bid, c, method) \<Rightarrow> (Some bid, c, method)
      | None \<Rightarrow>
          (None, Fin 0,
           if has_item (lr_by_name registry) (lower (strip landmark_query)) \<or>
              has_item (lr_by_alias registry) (lower (strip landmark_query))
           then ''lm_no_buildings'' else ''lm_not_found''))"

definition query_text :: "location_query \<Rightarrow> string \<Rightarrow> string" where
  "query_text parsed name_lower = (if fle (conf 60) (lq_confidence parsed) then lq_main parsed else name_lower)"

definition landmark_answer :: "landmark_registry \<Rightarrow> string \<Rightarrow> answer option" where
  "landmark_answer registry name_lower =
     (let parsed = parse_location name_lower;
          named = (if has_item (lr_by_name registry) name_lower \<or> has_item (lr_by_alias registry) name_lower
                   then lookup_landmark registry name_lower else None)
      in case named of
           Some a \<Rightarrow> Some a
         | None \<Rightarrow>
             map_option
               (\<lambda>(bid, c, method).
                  if lq_relation parsed \<noteq> None
                  then (bid, fmin (fadd c (conf 5)) (conf 95), ''lm_broker:'' @ method)
                  else (bid, fmin (fadd c (Fin 0)) (conf 95), method))
               (lookup_landmark registry (query_text parsed name_lower)))"

definition first_building :: "string \<Rightarrow> pyfloat \<Rightarrow> string \<Rightarrow> int list \<Rightarrow> answer option" where
  "first_building method c ident bids = (case bids of [] \<Rightarrow> None | b # _ \<Rightarrow> Some (b, c, method @ ident))"

definition overlap :: "string \<Rightarrow> string \<Rightarrow> bool" where
  "overlap query name = (contains name query \<or> contains query name)"

definition street_answer :: "(string \<times> street) list \<Rightarrow> string \<Rightarrow> answer option" where
  "street_answer streets query =
     (case Option.bind (map_of streets query) (\<lambda>s. first_building ''street:'' (conf 85) (py_str (st_id s)) (st_buildings s)) of
        Some a \<Rightarrow> Some a
      | None \<Rightarrow>
          Option.bind (List.find (\<lambda>(name, s). overlap query name \<and> st_buildings s \<noteq> []) streets)
            (\<lambda>(_, s). first_building ''street_partial:'' (conf 75) (py_str (st_id s)) (st_buildings s)))"

definition project_answer :: "project_registry \<Rightarrow> string \<Rightarrow> answer option" where
  "project_answer projects name =
     (case Option.bind (map_of (pr_by_name projects) (lower (strip name)))
             (\<lambda>p. first_building ''project:'' (conf 90) (show_int (pj_id p)) (pj_buildings p)) of
        Some a \<Rightarrow> Some a
      | None \<Rightarrow>
          Option.bind (List.find (\<lambda>(pname, p). plain_name pname = plain_name name \<and> pj_buildings p \<noteq> []) (pr_by_name projects))
            (\<lambda>(_, p). first_building ''project_norm:'' (conf 85) (show_int (pj_id p)) (pj_buildings p)))"

text \<open>Similarity: the candidates with a score of 0.8 or more, and the greatest pair of score and identifier.\<close>

definition same_text :: "string \<Rightarrow> string \<Rightarrow> bool" where
  "same_text a b = (a \<noteq> [] \<and> b \<noteq> [] \<and> a = b)"

definition name_score :: "string \<Rightarrow> string \<Rightarrow> string \<Rightarrow> building_info \<Rightarrow> pyfloat" where
  "name_score name area canon_name info =
     fadd (ratio (plain_name name) (plain_name canon_name)) (if same_text area (bi_area info) then flit (3 / 10) else Fin 0)"

definition full_score :: "string \<Rightarrow> string \<Rightarrow> string \<Rightarrow> string \<Rightarrow> building_info \<Rightarrow> pyfloat" where
  "full_score name area developer canon_name info =
     fadd (name_score name area canon_name info)
       (if same_text developer (bi_developer info) then flit (2 / 10) else Fin 0)"

definition better :: "pyfloat \<times> int \<Rightarrow> pyfloat \<times> int \<Rightarrow> pyfloat \<times> int" where
  "better a b = (if flt (fst a) (fst b) \<or> (feq (fst a) (fst b) \<and> snd a < snd b) then b else a)"

definition best_scored :: "string \<Rightarrow> (pyfloat \<times> int) list \<Rightarrow> answer option" where
  "best_scored method candidates =
     (case filter (\<lambda>(s, _). fle (conf 80) s) candidates of
        [] \<Rightarrow> None
      | x # xs \<Rightarrow> (case foldl better x xs of (s, bid) \<Rightarrow> Some (bid, fmin (fround 2 s) (Fin 1), method)))"

definition developer_answer :: "building_registry \<Rightarrow> (string \<times> int) list \<Rightarrow> string \<Rightarrow> string \<Rightarrow> string \<Rightarrow> answer option" where
  "developer_answer reg pairs name area developer =
     (let known = known_buildings pairs developer
      in best_scored ''dev_fuzzy''
           (map (\<lambda>(cname, info). (name_score name area cname info, bi_id info))
             (filter (\<lambda>(_, info). bi_id info \<in> set known) (br_buildings reg))))"

definition fuzzy_answer :: "building_registry \<Rightarrow> string \<Rightarrow> string \<Rightarrow> string \<Rightarrow> answer option" where
  "fuzzy_answer reg name area developer =
     best_scored ''fuzzy''
       (map (\<lambda>(cname, info). (full_score name area developer cname info, bi_id info)) (br_buildings reg))"

definition unresolved :: answer where
  "unresolved = (0, Fin 0, ''unresolved'')"

section \<open>The chain\<close>

definition resolve ::
    "registry_files \<Rightarrow> (string \<Rightarrow> string \<Rightarrow> string \<Rightarrow> string option) \<Rightarrow> pyval \<Rightarrow> pyval \<Rightarrow> pyval \<Rightarrow> (resolver_cache, answer) io" where
  "resolve files canon name0 area0 developer0 =
     bindI (cached_registry files) (\<lambda>reg.
     bindI (liftI (text_of name0)) (\<lambda>name.
     bindI (liftI (text_of area0)) (\<lambda>area.
     bindI (liftI (text_of developer0)) (\<lambda>developer.
       let name_lower = lower (strip name); area_lower = lower (strip area); dev_lower = lower (strip developer);
           query = query_text (parse_location name_lower) name_lower
       in case registry_answer reg canon name area developer of Some a \<Rightarrow> retI a | None \<Rightarrow>
       bindI (cached_landmarks files) (\<lambda>landmarks.
       case landmark_answer landmarks name_lower of Some a \<Rightarrow> retI a | None \<Rightarrow>
       bindI (cached_streets files) (\<lambda>streets.
       case street_answer streets query of Some a \<Rightarrow> retI a | None \<Rightarrow>
       bindI (cached_projects files) (\<lambda>projects.
       case project_answer projects name of Some a \<Rightarrow> retI a | None \<Rightarrow>
       bindI (if dev_lower = [] then retI None
              else bindI (cached_developers files)
                     (\<lambda>pairs. retI (developer_answer reg pairs name area_lower dev_lower))) (\<lambda>narrowed.
       case narrowed of Some a \<Rightarrow> retI a | None \<Rightarrow>
       retI (case fuzzy_answer reg name area_lower dev_lower of Some a \<Rightarrow> a | None \<Rightarrow> unresolved)))))))))"

text \<open>The entry points for one kind of identifier.\<close>

definition street_prefixes :: "string list" where
  "street_prefixes = [''near '', ''opposite '', ''behind '', ''on '', ''at '']"

definition resolve_by_street :: "(string \<times> street) list \<Rightarrow> string \<Rightarrow> int list" where
  "resolve_by_street streets street_query =
     (let q0 = strip (lower street_query);
          q = (case List.find (\<lambda>p. startswith q0 p) street_prefixes of
                 Some p \<Rightarrow> strip (drop (length p) q0) | None \<Rightarrow> q0);
          matched = (case map_of streets q of Some s \<Rightarrow> [s]
                     | None \<Rightarrow> map snd (filter (\<lambda>(name, _). overlap q name) streets))
      in dedup (concat (map st_buildings matched)))"

definition resolve_by_rera :: "project_registry \<Rightarrow> string \<Rightarrow> answer" where
  "resolve_by_rera projects rera_no =
     (case map_of (pr_by_rera projects) (strip rera_no) of
        Some p \<Rightarrow>
          (case pj_buildings p of
             b # _ \<Rightarrow> (b, conf 95, ''rera:'' @ show_int (pj_id p))
           | [] \<Rightarrow> (0, conf 80, ''rera_no_buildings:'' @ show_int (pj_id p)))
      | None \<Rightarrow> (0, Fin 0, ''rera_not_found''))"

definition resolve_by_project_name :: "project_registry \<Rightarrow> string \<Rightarrow> project option" where
  "resolve_by_project_name projects name =
     (case map_of (pr_by_name projects) (lower (strip name)) of
        Some p \<Rightarrow> Some p
      | None \<Rightarrow> map_option snd (List.find (\<lambda>(pname, _). plain_name pname = plain_name name) (pr_by_name projects)))"

text \<open>A batch: every observation gets three fields; the first exception ends the batch.\<close>

definition resolved :: "pydict \<Rightarrow> answer \<Rightarrow> pydict" where
  "resolved obs a =
     (case a of (bid, c, method) \<Rightarrow>
        dput (dput (dput obs ''building_id'' (VInt bid)) ''resolution_confidence'' (VFloat c))
          ''resolution_method'' (VStr method))"

definition resolve_batch ::
    "registry_files \<Rightarrow> (string \<Rightarrow> string \<Rightarrow> string \<Rightarrow> string option) \<Rightarrow> pydict list \<Rightarrow> (resolver_cache, pydict list) io" where
  "resolve_batch files canon observations =
     foldI
       (\<lambda>done obs.
          bindI (resolve files canon (dget_or obs ''building_name'' (VStr [])) (dget_or obs ''area'' (VStr []))
                   (dget_or obs ''developer'' (VStr [])))
            (\<lambda>a. retI (done @ [resolved obs a])))
       [] observations"

section \<open>The specification\<close>

text \<open>
  The strategies that \<open>resolve\<close> tries, in its order, each computed from the files without a cache; the first answer
  counts.  The module's documentation names more: the match of a RERA number, which is a function of its own, and
  a look at the negative knowledge before a fuzzy match, which no strategy takes.
\<close>

fun first_answer :: "answer option result list \<Rightarrow> answer result" where
  "first_answer [] = Inr unresolved"
| "first_answer (r # rs) = bindE r (\<lambda>a. case a of Some x \<Rightarrow> Inr x | None \<Rightarrow> first_answer rs)"

definition strategies ::
    "registry_files \<Rightarrow> (string \<Rightarrow> string \<Rightarrow> string \<Rightarrow> string option) \<Rightarrow> string \<Rightarrow> string \<Rightarrow> string \<Rightarrow> answer option result list" where
  "strategies files canon name area developer =
     (let name_lower = lower (strip name); area_lower = lower (strip area); dev_lower = lower (strip developer) in
     [bindE (registry_of files) (\<lambda>reg. Inr (registry_answer reg canon name area developer)),
      bindE (landmarks_of files) (\<lambda>lms. Inr (landmark_answer lms name_lower)),
      bindE (streets_of files) (\<lambda>sts. Inr (street_answer sts (query_text (parse_location name_lower) name_lower))),
      bindE (projects_of files) (\<lambda>prs. Inr (project_answer prs name)),
      bindE (registry_of files) (\<lambda>reg.
        if dev_lower = [] then Inr None
        else bindE (developers_of files) (\<lambda>pairs. Inr (developer_answer reg pairs name area_lower dev_lower))),
      bindE (registry_of files) (\<lambda>reg. Inr (fuzzy_answer reg name area_lower dev_lower))])"

definition resolve_spec ::
    "registry_files \<Rightarrow> (string \<Rightarrow> string \<Rightarrow> string \<Rightarrow> string option) \<Rightarrow> pyval \<Rightarrow> pyval \<Rightarrow> pyval \<Rightarrow> answer result" where
  "resolve_spec files canon name area developer =
     bindE (registry_of files) (\<lambda>_.
     bindE (text_of name) (\<lambda>n. bindE (text_of area) (\<lambda>a. bindE (text_of developer) (\<lambda>d.
       first_answer (strategies files canon n a d)))))"

section \<open>Refinement\<close>

text \<open>A cache is consistent with the files when each of its slots holds what the loader yields.\<close>

definition cache_ok :: "registry_files \<Rightarrow> resolver_cache \<Rightarrow> bool" where
  "cache_ok files c \<longleftrightarrow>
     (\<forall>v. rc_registry c = Some v \<longrightarrow> registry_of files = Inr v) \<and>
     (\<forall>v. rc_streets c = Some v \<longrightarrow> streets_of files = Inr v) \<and>
     (\<forall>v. rc_projects c = Some v \<longrightarrow> projects_of files = Inr v) \<and>
     (\<forall>v. rc_developers c = Some v \<longrightarrow> developers_of files = Inr v) \<and>
     (\<forall>v. rc_landmarks c = Some v \<longrightarrow> landmarks_of files = Inr v)"

lemma clear_cache_ok: "cache_ok files clear_cache"
  by (simp add: cache_ok_def clear_cache_def)

interpretation registry_slot: memo_slot rc_registry "\<lambda>v. rc_registry_update (\<lambda>_. Some v)" "registry_of files" "cache_ok files" for files
  by unfold_locales (auto simp: cache_ok_def)

interpretation street_slot: memo_slot rc_streets "\<lambda>v. rc_streets_update (\<lambda>_. Some v)" "streets_of files" "cache_ok files" for files
  by unfold_locales (auto simp: cache_ok_def)

interpretation project_slot: memo_slot rc_projects "\<lambda>v. rc_projects_update (\<lambda>_. Some v)" "projects_of files" "cache_ok files" for files
  by unfold_locales (auto simp: cache_ok_def)

interpretation developer_slot: memo_slot rc_developers "\<lambda>v. rc_developers_update (\<lambda>_. Some v)" "developers_of files" "cache_ok files" for files
  by unfold_locales (auto simp: cache_ok_def)

interpretation landmark_slot: memo_slot rc_landmarks "\<lambda>v. rc_landmarks_update (\<lambda>_. Some v)" "landmarks_of files" "cache_ok files" for files
  by unfold_locales (auto simp: cache_ok_def)

lemmas cached_agrees =
  registry_slot.memo_agrees [folded cached_registry_def] street_slot.memo_agrees [folded cached_streets_def]
  project_slot.memo_agrees [folded cached_projects_def] developer_slot.memo_agrees [folded cached_developers_def]
  landmark_slot.memo_agrees [folded cached_landmarks_def]

definition resolve_pure ::
    "registry_files \<Rightarrow> (string \<Rightarrow> string \<Rightarrow> string \<Rightarrow> string option) \<Rightarrow> pyval \<Rightarrow> pyval \<Rightarrow> pyval \<Rightarrow> answer result" where
  "resolve_pure files canon name0 area0 developer0 =
     bindE (registry_of files) (\<lambda>reg.
     bindE (text_of name0) (\<lambda>name. bindE (text_of area0) (\<lambda>area. bindE (text_of developer0) (\<lambda>developer.
       let name_lower = lower (strip name); area_lower = lower (strip area); dev_lower = lower (strip developer);
           query = query_text (parse_location name_lower) name_lower
       in case registry_answer reg canon name area developer of Some a \<Rightarrow> Inr a | None \<Rightarrow>
       bindE (landmarks_of files) (\<lambda>landmarks.
       case landmark_answer landmarks name_lower of Some a \<Rightarrow> Inr a | None \<Rightarrow>
       bindE (streets_of files) (\<lambda>streets.
       case street_answer streets query of Some a \<Rightarrow> Inr a | None \<Rightarrow>
       bindE (projects_of files) (\<lambda>projects.
       case project_answer projects name of Some a \<Rightarrow> Inr a | None \<Rightarrow>
       bindE (if dev_lower = [] then Inr None
              else bindE (developers_of files)
                     (\<lambda>pairs. Inr (developer_answer reg pairs name area_lower dev_lower))) (\<lambda>narrowed.
       case narrowed of Some a \<Rightarrow> Inr a | None \<Rightarrow>
       Inr (case fuzzy_answer reg name area_lower dev_lower of Some a \<Rightarrow> a | None \<Rightarrow> unresolved)))))))))"

lemma resolve_agrees: "agrees (cache_ok files) (resolve files canon name area developer) (resolve_pure files canon name area developer)"
  unfolding resolve_def resolve_pure_def Let_def
  by (intro agrees_intros cached_agrees)

lemma resolve_pure_spec: "resolve_pure files canon name area developer = resolve_spec files canon name area developer"
  unfolding resolve_pure_def resolve_spec_def strategies_def Let_def first_answer.simps
  by (cases "registry_of files") (auto simp: bindE_def split: sum.splits option.splits)

section \<open>Confidences\<close>

lemma conf_bounds: "0 \<le> n \<Longrightarrow> n \<le> 100 \<Longrightarrow> in_bounds (conf n) 1"
  unfolding conf_def flit_def by (rule rnd_in_bounds) simp_all

text \<open>The answers of a lookup: a confidence between 0 and 1, and a method that begins with the tag of a strategy.\<close>

definition method_tags :: "string list" where
  "method_tags =
    [''exact'', ''alias'', ''normalized'', ''normalized_alias'', ''lm:'', ''lm_alias:'', ''lm_fuzzy:'', ''lm_broker:'',
     ''street:'', ''street_partial:'', ''project:'', ''project_norm:'', ''dev_fuzzy'', ''fuzzy'', ''unresolved'']"

definition sound_answer :: "answer \<Rightarrow> bool" where
  "sound_answer a = (in_bounds (fst (snd a)) 1 \<and> list_ex (startswith (snd (snd a))) method_tags)"

definition sound_option :: "answer option \<Rightarrow> bool" where
  "sound_option a = (case a of Some x \<Rightarrow> sound_answer x | None \<Rightarrow> True)"

lemma sound_None: "sound_option None"
  by (simp add: sound_option_def)

lemma sound_else: "sound_option a \<Longrightarrow> sound_option b \<Longrightarrow> sound_option (case a of Some x \<Rightarrow> Some x | None \<Rightarrow> b)"
  by (cases a) simp_all

lemma sound_case: "(\<And>y. sound_option (f y)) \<Longrightarrow> sound_option b \<Longrightarrow> sound_option (case x of Some y \<Rightarrow> f y | None \<Rightarrow> b)"
  by (cases x) simp_all

lemma startswith_append: "startswith (p @ s) p"
  by (simp add: startswith_def)

lemma sound_tagged: "tag \<in> set method_tags \<Longrightarrow> in_bounds c 1 \<Longrightarrow> sound_answer (bid, c, tag @ rest)"
  by (auto simp: sound_answer_def list_ex_iff intro: startswith_append)

lemma sound_exact: "tag \<in> set method_tags \<Longrightarrow> in_bounds c 1 \<Longrightarrow> sound_answer (bid, c, tag)"
  using sound_tagged [of tag c bid "[]"] by simp

lemma sound_name_answer:
  assumes "tag \<in> set method_tags" "tag' \<in> set method_tags" "in_bounds c 1" "in_bounds c' 1"
  shows "sound_option (name_answer reg name c tag c' tag')"
  using assms by (auto simp: name_answer_def sound_option_def sound_exact split: option.split)

lemma sound_registry: "sound_option (registry_answer reg canon name area developer)"
proof -
  have "sound_option (name_answer reg n (Fin 1) ''exact'' (conf 98) ''alias'')" for n
    by (rule sound_name_answer) (simp_all add: method_tags_def conf_bounds in_bounds_def [of "Fin 1"])
  moreover have "sound_option (name_answer reg n (conf 95) ''normalized'' (conf 93) ''normalized_alias'')" for n
    by (rule sound_name_answer) (simp_all add: method_tags_def conf_bounds)
  ultimately show ?thesis
    unfolding registry_answer_def by (intro sound_else sound_case sound_None)
qed

lemma sound_linked: "tag \<in> set method_tags \<Longrightarrow> in_bounds c 1 \<Longrightarrow> sound_option (linked registry lm c tag)"
  by (auto simp: linked_def sound_option_def sound_tagged split: option.split)

lemma similar_bounds: "in_bounds (snd (similar_landmark lms query)) 1"
  unfolding similar_landmark_def
  by (rule foldl_inv [where P = "\<lambda>best. in_bounds (snd best) 1"])
    (auto simp: landmark_step_def Let_def in_bounds_def dest!: ratio_above [unfolded in_bounds_def])

lemma sound_lookup: "sound_option (lookup_landmark registry query)"
proof -
  obtain best r where b: "similar_landmark (lr_all registry) (plain_name (lower (strip query))) = (best, r)"
    by fastforce
  have "in_bounds r 1" using similar_bounds [of "lr_all registry" "plain_name (lower (strip query))"] b by simp
  then have "in_bounds (fround 2 (fmul r (conf 90))) 1"
    using fround_in_bounds [OF fmul_in_bounds [of r 1 "conf 90" 1], of 2] conf_bounds [of 90] by simp
  then have "sound_option (linked registry lm (fround 2 (fmul r (conf 90))) ''lm_fuzzy:'')" for lm
    by (intro sound_linked) (simp add: method_tags_def)
  moreover have "sound_option (linked registry lm (conf 88) ''lm:'')" "sound_option (linked registry lm (conf 85) ''lm_alias:'')" for lm
    by (rule sound_linked; simp add: method_tags_def conf_bounds)+
  ultimately show ?thesis
    unfolding lookup_landmark_def Let_def b prod.case by (intro sound_case sound_None)
qed

lemma fmin_bounds: "in_bounds x n \<Longrightarrow> in_bounds y k \<Longrightarrow> k \<le> n \<Longrightarrow> in_bounds (fmin x y) k"
  by (auto simp: in_bounds_def fmin_def)

lemma bonus_bounds: "in_bounds c 1 \<Longrightarrow> in_bounds x 1 \<Longrightarrow> in_bounds (fmin (fadd c x) (conf 95)) 1"
proof -
  assume "in_bounds c 1" "in_bounds x 1"
  then obtain a b where "c = Fin a" "x = Fin b" "0 \<le> a" "0 \<le> b" "a \<le> 1" "b \<le> 1" by (auto simp: in_bounds_def)
  then have "in_bounds (fadd c x) 2" using rnd_in_bounds [of "a + b" 2] by simp
  then show ?thesis by (rule fmin_bounds) (simp_all add: conf_bounds)
qed

lemma sound_landmark: "sound_option (landmark_answer registry name_lower)"
proof -
  have bonus: "sound_option (map_option
      (\<lambda>(bid, c, method).
         if broker then (bid, fmin (fadd c (conf 5)) (conf 95), ''lm_broker:'' @ method)
         else (bid, fmin (fadd c (Fin 0)) (conf 95), method)) a)" if "sound_option a" for broker a
  proof (cases a)
    case (Some x)
    obtain bid c how where x: "x = (bid, c, how)" by (cases x)
    with Some that have "in_bounds c 1" "list_ex (startswith how) method_tags"
      by (simp_all add: sound_option_def sound_answer_def)
    have "''lm_broker:'' \<in> set method_tags" by (simp add: method_tags_def)
    then have "sound_answer (bid, fmin (fadd c (conf 5)) (conf 95), ''lm_broker:'' @ how)"
      by (rule sound_tagged) (simp add: bonus_bounds \<open>in_bounds c 1\<close> conf_bounds)
    moreover have "in_bounds (fmin (fadd c (Fin 0)) (conf 95)) 1"
      by (rule bonus_bounds) (simp_all add: \<open>in_bounds c 1\<close> in_bounds_def [of "Fin 0"])
    then have "sound_answer (bid, fmin (fadd c (Fin 0)) (conf 95), how)"
      using \<open>list_ex (startswith how) method_tags\<close> by (simp add: sound_answer_def)
    ultimately show ?thesis by (simp add: Some x sound_option_def)
  qed (simp add: sound_None)
  show ?thesis
    unfolding landmark_answer_def Let_def
    by (intro sound_else bonus sound_lookup) (simp add: sound_lookup sound_None)
qed

lemma sound_first: "tag \<in> set method_tags \<Longrightarrow> in_bounds c 1 \<Longrightarrow> sound_option (first_building tag c ident bids)"
  by (cases bids) (simp_all add: first_building_def sound_None sound_option_def sound_tagged)

lemma sound_bind: "(\<And>x. sound_option (f x)) \<Longrightarrow> sound_option (Option.bind a f)"
  by (cases a) (simp_all add: sound_None)

lemma sound_street: "sound_option (street_answer streets query)"
  unfolding street_answer_def
  by (intro sound_else sound_bind)
    (auto intro!: sound_first simp: method_tags_def conf_bounds split: prod.split)

lemma sound_project: "sound_option (project_answer projects name)"
  unfolding project_answer_def
  by (intro sound_else sound_bind)
    (auto intro!: sound_first simp: method_tags_def conf_bounds split: prod.split)

lemma fround_nonneg: "fle (Fin 0) s \<Longrightarrow> fle (Fin 0) (fround d s)"
proof (cases s)
  case (Fin x)
  assume "fle (Fin 0) s"
  with Fin have "0 \<le> x" by (auto simp: fle_def)
  then have "0 \<le> round_even (x * 10 ^ d)" by (simp add: round_even_nonneg)
  then show ?thesis unfolding Fin fround.simps by (intro rnd_nonneg) simp
qed (simp_all add: fle_def)

lemma sound_scored: "tag \<in> set method_tags \<Longrightarrow> sound_option (best_scored tag candidates)"
proof (cases "filter (\<lambda>(s, _). fle (conf 80) s) candidates")
  case (Cons x xs)
  assume tag: "tag \<in> set method_tags"
  have high: "fle (conf 80) (fst y)" if "y \<in> set (x # xs)" for y
    using that unfolding Cons [symmetric] by auto
  obtain s bid where b: "foldl better x xs = (s, bid)" by (cases "foldl better x xs")
  have "\<forall>y \<in> set xs. fle (conf 80) (fst y) \<Longrightarrow> fle (conf 80) (fst x) \<Longrightarrow> fle (conf 80) (fst (foldl better x xs))"
    by (induction xs arbitrary: x) (auto simp: better_def)
  then have "fle (conf 80) s" using high b by simp
  moreover have "fle (Fin 0) (conf 80)" using conf_bounds [of 80] by (auto simp: in_bounds_def fle_def)
  ultimately have "fle (Fin 0) (fround 2 s)" by (blast intro: fround_nonneg fle_trans)
  then have "in_bounds (fmin (fround 2 s) (Fin 1)) 1"
    by (cases "fround 2 s") (auto simp: in_bounds_def fmin_def fle_def)
  with tag show ?thesis by (simp add: best_scored_def Cons b sound_option_def sound_exact)
qed (simp add: best_scored_def sound_None)

lemma sound_unresolved: "sound_answer unresolved"
  by (simp add: unresolved_def sound_answer_def in_bounds_def method_tags_def startswith_def)

text \<open>An answer of the chain is one of its strategies' answers.\<close>

definition sound_result :: "answer option result \<Rightarrow> bool" where
  "sound_result r = (\<forall>x. r = Inr x \<longrightarrow> sound_option x)"

lemma sound_result_bind: "(\<And>x. sound_result (f x)) \<Longrightarrow> sound_result (bindE r f)"
  by (cases r) (simp_all add: sound_result_def)

lemma sound_result_Inr [simp]: "sound_result (Inr x) = sound_option x"
  by (simp add: sound_result_def)

lemma sound_result_if: "sound_result r \<Longrightarrow> sound_result q \<Longrightarrow> sound_result (if b then r else q)"
  by simp

lemma first_answer_sound: "first_answer rs = Inr a \<Longrightarrow> list_all sound_result rs \<Longrightarrow> sound_answer a"
proof (induction rs)
  case (Cons r rs)
  then show ?case by (cases r) (auto simp: sound_option_def split: option.splits)
qed (simp add: sound_unresolved)

lemma strategies_sound: "list_all sound_result (strategies files canon name area developer)"
proof -
  have "''dev_fuzzy'' \<in> set method_tags" "''fuzzy'' \<in> set method_tags" by (simp_all add: method_tags_def)
  then show ?thesis
    unfolding strategies_def Let_def developer_answer_def fuzzy_answer_def list.pred_inject
    by (intro conjI sound_result_bind sound_result_if)
      (simp_all add: sound_registry sound_landmark sound_street sound_project sound_None sound_scored)
qed

lemma resolve_spec_sound: "resolve_spec files canon name area developer = Inr a \<Longrightarrow> sound_answer a"
  by (auto simp: resolve_spec_def bindE_Inr_iff intro!: first_answer_sound strategies_sound)

lemma resolve_cached:
  "cache_ok files c \<Longrightarrow> fst (resolve files canon name area developer c) = resolve_spec files canon name area developer \<and>
   cache_ok files (snd (resolve files canon name area developer c))"
  using agreesD [OF resolve_agrees] by (simp add: resolve_pure_spec)

section \<open>Properties\<close>

lemma foldE_collect:
  "foldE (\<lambda>done x. bindE (f x) (\<lambda>a. Inr (done @ [g x a]))) acc xs =
   bindE (mapE (\<lambda>x. bindE (f x) (\<lambda>a. Inr (g x a))) xs) (\<lambda>ys. Inr (acc @ ys))"
proof (induction xs arbitrary: acc)
  case (Cons x xs)
  show ?case
    by (cases "f x"; cases "mapE (\<lambda>x. bindE (f x) (\<lambda>a. Inr (g x a))) xs") (simp_all add: Cons.IH)
qed simp

lemma mapE_Inr_all:
  "mapE f xs = Inr ys \<Longrightarrow> (\<And>x y. f x = Inr y \<Longrightarrow> P y) \<Longrightarrow> list_all P ys"
  by (induction xs arbitrary: ys) (auto simp: bindE_Inr_iff)

text \<open>
  C16: The cache and the early returns of the resolver do not show.  Resolving a batch from an empty cache - with
  the tables loaded on demand and kept, and the chain of lookups that returns early - gives, for
  every observation, the first answer of the strategies of \<open>resolve\<close> in their order, each computed
  from the registry files alone; the first exception ends the batch.  What a single strategy answers is
  shared by both sides.  When the batch returns, every confidence it writes lies between 0 and 1.
\<close>

theorem resolve_batch_refines:
  "fst (resolve_batch files canon observations clear_cache) =
   mapE (\<lambda>obs. bindE (resolve_spec files canon (dget_or obs ''building_name'' (VStr [])) (dget_or obs ''area'' (VStr []))
                        (dget_or obs ''developer'' (VStr [])))
                  (\<lambda>a. Inr (resolved obs a))) observations \<and>
   (case fst (resolve_batch files canon observations clear_cache) of
      Inr rs \<Rightarrow> list_all (\<lambda>r. \<exists>c. dget r ''resolution_confidence'' = VFloat c \<and> in_bounds c 1) rs
    | Inl _ \<Rightarrow> True)"
proof -
  have r: "agrees (cache_ok files) (resolve files canon n a d) (resolve_spec files canon n a d)" for n a d
    using resolve_agrees by (simp add: resolve_pure_spec)
  have "agrees (cache_ok files) (resolve_batch files canon observations)
      (foldE (\<lambda>done obs. bindE (resolve_spec files canon (dget_or obs ''building_name'' (VStr []))
          (dget_or obs ''area'' (VStr [])) (dget_or obs ''developer'' (VStr [])))
        (\<lambda>a. Inr (done @ [resolved obs a]))) [] observations)"
    unfolding resolve_batch_def by (intro agrees_intros r)
  from agreesD [OF this clear_cache_ok] have e: "fst (resolve_batch files canon observations clear_cache) =
      mapE (\<lambda>obs. bindE (resolve_spec files canon (dget_or obs ''building_name'' (VStr []))
          (dget_or obs ''area'' (VStr [])) (dget_or obs ''developer'' (VStr [])))
        (\<lambda>a. Inr (resolved obs a))) observations" (is "_ = ?pure")
    by (cases ?pure) (simp_all add: foldE_collect)
  have "list_all (\<lambda>r. \<exists>c. dget r ''resolution_confidence'' = VFloat c \<and> in_bounds c 1) rs" if "?pure = Inr rs" for rs
    by (rule mapE_Inr_all [OF that])
      (auto simp: bindE_Inr_iff resolved_def sound_answer_def dest!: resolve_spec_sound)
  with e show ?thesis by (auto split: sum.split)
qed

text \<open>
  What an answer of the resolver looks like.  With a cache that is consistent with the files, the
  confidence of every answer lies between 0 and 1 - the bonus for a broker relation and the
  similarity scores above 1 included - and its method begins with one of the tags of the strategies.
\<close>

theorem resolve_answer_type:
  assumes "cache_ok files c" and "fst (resolve files canon name area developer c) = Inr (bid, confidence, method)"
  shows "in_bounds confidence 1 \<and> list_ex (startswith method) method_tags"
proof -
  have "resolve_spec files canon name area developer = Inr (bid, confidence, method)"
    using resolve_cached [OF assms(1), of canon name area developer] assms(2) by simp
  from resolve_spec_sound [OF this] show ?thesis by (simp add: sound_answer_def)
qed

lemma exact_lookup:
  "cache_ok files c \<Longrightarrow> registry_of files = Inr reg \<Longrightarrow> map_of (br_buildings reg) (lower (strip name)) = Some info \<Longrightarrow>
   fst (resolve files canon (VStr name) (VStr area) (VStr developer) c) = Inr (bi_id info, Fin 1, ''exact'')"
  using resolve_cached [of files c canon "VStr name" "VStr area" "VStr developer"]
  by (simp add: resolve_spec_def text_of_def strategies_def Let_def registry_answer_def name_answer_def)

text \<open>
  A canonical name wins.  A name that is, up to case and outer blanks, the canonical name of a
  building is resolved to that building with confidence 1, whatever its area and developer, and whatever
  the other files hold - they may even be malformed, they are not read.
\<close>

theorem exact_name_wins:
  assumes "cache_ok files c" and "registry_of files = Inr reg"
    and "map_of (br_buildings reg) (lower (strip name)) = Some info"
  shows "fst (resolve files canon (VStr name) (VStr area) (VStr developer) c) = Inr (bi_id info, Fin 1, ''exact'')"
  using assms by (rule exact_lookup)

lemma blank_query: "query_text (parse_location []) [] = []"
  by code_simp

text \<open>
  A blank name is not unresolved.  When no building, alias or landmark is blank, an observation
  without a building name is resolved to the first building of the first street that has one,
  with confidence 0.75: the blank query is contained in every street name.
\<close>

theorem blank_name_resolves:
  assumes "cache_ok files c" and "registry_of files = Inr reg" and "landmarks_of files = Inr landmarks"
    and "streets_of files = Inr streets"
    and "\<not> has_item (br_buildings reg) []" and "\<not> has_item (br_aliases reg) []" and "canon [] [] [] = None"
    and "landmark_answer landmarks [] = None" and "\<not> has_item streets []"
    and "List.find (\<lambda>(_, s). st_buildings s \<noteq> []) streets = Some (street_name, street)"
  shows "fst (resolve files canon (VStr []) (VStr []) (VStr []) c) =
    Inr (hd (st_buildings street), conf 75, ''street_partial:'' @ py_str (st_id street))"
proof -
  have l: "lower [] = []" by simp
  have all: "(\<lambda>(name, s). overlap [] name \<and> st_buildings s \<noteq> []) = (\<lambda>(_, s). st_buildings s \<noteq> [])"
    by (auto simp: overlap_def contains_iff fun_eq_iff)
  have "st_buildings street \<noteq> []" using assms(10) by (auto simp: find_Some_iff)
  then obtain b bs where b: "st_buildings street = b # bs" by (cases "st_buildings street") auto
  have "street_answer streets [] = Some (b, conf 75, ''street_partial:'' @ py_str (st_id street))"
    using assms(9,10) by (simp add: street_answer_def all first_building_def b has_item_def)
  moreover have "registry_answer reg canon [] [] [] = None"
    using assms(5-7) by (simp add: registry_answer_def name_answer_def has_item_def l)
  ultimately show ?thesis
    using resolve_cached [OF assms(1), of canon "VStr []" "VStr []" "VStr []"] assms(2-4,8)
    by (simp add: resolve_spec_def text_of_def strategies_def Let_def b blank_query l)
qed

section \<open>Examples\<close>

definition sample_files :: registry_files where
  "sample_files =
     \<lparr>rf_buildings =
        [[(''building_id'', VStr ''12''), (''canonical_name'', VStr ''Lodha Park''), (''area'', VStr ''Worli''),
          (''developer'', VStr ''Lodha''), (''fingerprint'', VStr [])]],
      rf_aliases = [[(''alias'', VStr ''The Park''), (''building_id'', VStr ''12'')]],
      rf_streets = [[(''street_id'', VStr ''S1''), (''name'', VStr ''Linking Road''), (''building_ids'', VStr ''7;12'')]],
      rf_projects = [], rf_developers = [], rf_landmarks = [], rf_links = []\<rparr>"

definition sample_info :: building_info where
  "sample_info = \<lparr>bi_id = 12, bi_name = ''Lodha Park'', bi_area = ''worli'', bi_developer = ''lodha'', bi_fingerprint = VStr []\<rparr>"

definition sample_registry :: building_registry where
  "sample_registry = \<lparr>br_buildings = [(''lodha park'', sample_info)], br_aliases = [(''the park'', 12)]\<rparr>"

definition sample_street :: street where
  "sample_street = \<lparr>st_id = VStr ''S1'', st_name = ''Linking Road'', st_buildings = [7, 12]\<rparr>"

definition no_canon :: "string \<Rightarrow> string \<Rightarrow> string \<Rightarrow> string option" where
  "no_canon name area developer = None"

lemma sample_loaded:
  "registry_of sample_files = Inr sample_registry"
  "streets_of sample_files = Inr [(''linking road'', sample_street)]"
  "landmarks_of sample_files = Inr \<lparr>lr_by_name = [], lr_by_alias = [], lr_all = [], lr_links = []\<rparr>"
  by code_simp+

theorem exact_name_wins_witness:
  "fst (resolve sample_files no_canon (VStr '' LODHA Park'') (VStr ''Worli'') (VStr []) clear_cache) = Inr (12, Fin 1, ''exact'')"
proof -
  have "map_of (br_buildings sample_registry) (lower (strip '' LODHA Park'')) = Some sample_info" by code_simp
  from exact_name_wins [OF clear_cache_ok sample_loaded(1) this] show ?thesis by (simp add: sample_info_def)
qed

theorem resolve_answer_type_witness:
  "in_bounds (Fin 1) 1 \<and> list_ex (startswith ''exact'') method_tags"
proof -
  have "map_of (br_buildings sample_registry) (lower (strip ''lodha park'')) = Some sample_info" by code_simp
  from exact_lookup [OF clear_cache_ok sample_loaded(1) this]
  have "fst (resolve sample_files no_canon (VStr ''lodha park'') (VStr []) (VStr []) clear_cache) = Inr (12, Fin 1, ''exact'')"
    by (simp add: sample_info_def)
  from resolve_answer_type [OF clear_cache_ok this] show ?thesis .
qed

theorem blank_name_resolves_witness:
  "fst (resolve sample_files no_canon (VStr []) (VStr []) (VStr []) clear_cache) = Inr (7, conf 75, ''street_partial:S1'')"
proof -
  have "landmark_answer \<lparr>lr_by_name = [], lr_by_alias = [], lr_all = [], lr_links = []\<rparr> [] = None"
    by (simp add: landmark_answer_def Let_def has_item_def lookup_landmark_def similar_landmark_def)
  moreover have "\<not> has_item (br_buildings sample_registry) []" "\<not> has_item (br_aliases sample_registry) []"
    "\<not> has_item [(''linking road'', sample_street)] []" "no_canon [] [] [] = None"
    "List.find (\<lambda>(_, s). st_buildings s \<noteq> []) [(''linking road'', sample_street)] = Some (''linking road'', sample_street)"
    by (simp_all add: has_item_def sample_registry_def no_canon_def sample_street_def)
  ultimately show ?thesis
    using blank_name_resolves [OF clear_cache_ok sample_loaded(1,3,2), of no_canon]
    by (simp add: sample_street_def py_str_def)
qed

end
