(* ===== verification/EvidencePipeline.thy ===== *)
theory EvidencePipeline
  imports BuildingResolver
begin

text \<open>
  \<open>evidence/pipeline.py\<close> and the observation of \<open>evidence/models.py\<close>: records of a source are normalised,
  validated, resolved to a building and appended to one of two files.

  A normaliser changes the record in place, so its outcome is an exception and the record as it
  is then; \<open>failed\<close> refers to the record and shows it as it is in the end.  The identifiers, the time
  and \<open>json.dumps\<close> are parameters.  A file is the list of the rows appended to it.
\<close>

section \<open>Observations\<close>

record observation =
  ob_id :: string
  ob_building :: int
  ob_type :: pyval
  ob_source :: string
  ob_observed_at :: pyval
  ob_payload :: pyval
  ob_confidence :: pyfloat
  ob_reference :: pyval
  ob_created_at :: string

definition to_csv_row :: "(pyval \<Rightarrow> string) \<Rightarrow> observation \<Rightarrow> pydict" where
  "to_csv_row dumps o' =
     [(''observation_id'', VStr (ob_id o')), (''building_id'', VInt (ob_building o')), (''observation_type'', ob_type o'),
      (''source'', VStr (ob_source o')), (''observed_at'', ob_observed_at o'), (''payload_json'', VStr (dumps (ob_payload o'))),
      (''confidence'', VFloat (ob_confidence o')), (''source_reference'', ob_reference o'),
      (''created_at'', VStr (ob_created_at o'))]"

section \<open>Normalisers and validators\<close>

type_synonym normaliser = "pydict \<Rightarrow> pyexc option \<times> pydict"

definition trim_field :: "pydict \<Rightarrow> string \<Rightarrow> pydict" where
  "trim_field rec k = (case dget rec k of VStr s \<Rightarrow> if dhas rec k then dput rec k (VStr (strip s)) else rec | _ \<Rightarrow> rec)"

definition trim_fields :: normaliser where
  "trim_fields rec = (None, foldl trim_field rec [''building_name'', ''area'', ''developer''])"

definition with_payload :: "pydict \<Rightarrow> pydict" where
  "with_payload rec = (if dhas rec ''payload'' then rec else dput rec ''payload'' (VDict []))"

definition ensure_payload :: normaliser where
  "ensure_payload rec = (None, with_payload rec)"

text \<open>\<open>rec["payload"][k] = rec.pop(k)\<close>: the value is popped before the assignment can fail.\<close>

definition move_field :: "pydict \<Rightarrow> string \<Rightarrow> pyexc option \<times> pydict" where
  "move_field rec0 k =
     (if \<not> dhas rec0 k then (None, rec0)
      else
        let rec = with_payload rec0; v = dget rec k; rest = ddel rec k
        in case dget rest ''payload'' of
             VDict p \<Rightarrow> (None, dput rest ''payload'' (VDict (dput p k v)))
           | _ \<Rightarrow> (Some TypeError, rest))"

definition coerce_types :: normaliser where
  "coerce_types rec =
     (case move_field rec ''price'' of
        (Some e, rec1) \<Rightarrow> (Some e, rec1)
      | (None, rec1) \<Rightarrow> move_field rec1 ''bedrooms'')"

definition default_normalizers :: "normaliser list" where
  "default_normalizers = [trim_fields, ensure_payload, coerce_types]"

type_synonym validator = "pydict \<Rightarrow> string option result"

definition required :: "string \<Rightarrow> string \<Rightarrow> validator" where
  "required k message rec = Inr (if truthy (dget rec k) then None else Some message)"

definition default_validators :: "validator list" where
  "default_validators =
     [required ''observation_type'' ''missing observation_type'', required ''observed_at'' ''missing observed_at'',
      required ''building_name'' ''missing building_name (required for resolution)'']"

section \<open>A run\<close>

datatype failure =
    NormalizerError pyexc
  | ValidatorError pyexc
  | Invalid string

record pipeline =
  pl_source :: string
  pl_normalizers :: "normaliser list"
  pl_validators :: "validator list"

definition create_pipeline :: "string \<Rightarrow> pipeline" where
  "create_pipeline source =
     \<lparr>pl_source = source, pl_normalizers = default_normalizers, pl_validators = default_validators\<rparr>"

text \<open>A normaliser that raises is recorded, and the next one goes on with the record.\<close>

fun normalise :: "normaliser list \<Rightarrow> pydict \<Rightarrow> failure list \<times> pydict" where
  "normalise [] rec = ([], rec)"
| "normalise (f # fs) rec =
     (case f rec of (e, rec1) \<Rightarrow>
        case normalise fs rec1 of (errors, rec2) \<Rightarrow>
          ((case e of Some x \<Rightarrow> [NormalizerError x] | None \<Rightarrow> []) @ errors, rec2))"

fun validate :: "validator list \<Rightarrow> pydict \<Rightarrow> failure option" where
  "validate [] rec = None"
| "validate (f # fs) rec =
     (case f rec of
        Inl e \<Rightarrow> Some (ValidatorError e)
      | Inr (Some (c # err)) \<Rightarrow> Some (Invalid (c # err))
      | Inr _ \<Rightarrow> validate fs rec)"

record pipeline_env =
  pe_files :: registry_files
  pe_canon :: "string \<Rightarrow> string \<Rightarrow> string \<Rightarrow> string option"
  pe_uuid :: "nat \<Rightarrow> string"
  pe_now :: "nat \<Rightarrow> string"
  pe_dumps :: "pyval \<Rightarrow> string"

record batch =
  ba_ingested :: "observation list"
  ba_unresolved :: "observation list"
  ba_failed :: "(pydict \<times> failure) list"

definition observed :: "pipeline_env \<Rightarrow> string \<Rightarrow> nat \<Rightarrow> pydict \<Rightarrow> int \<Rightarrow> pyfloat \<Rightarrow> observation" where
  "observed env source n rec bid confidence =
     \<lparr>ob_id = pe_uuid env n, ob_building = bid,
      ob_type = dget_or rec ''observation_type'' (VStr ''SALE_LISTING''), ob_source = source,
      ob_observed_at = dget_or rec ''observed_at'' (VStr (take 10 (pe_now env n))),
      ob_payload = dget_or rec ''payload'' (VDict []), ob_confidence = confidence,
      ob_reference = dget_or rec ''source_reference'' (VStr []), ob_created_at = pe_now env n\<rparr>"

definition resolve_record :: "pipeline_env \<Rightarrow> pydict \<Rightarrow> (resolver_cache, answer) io" where
  "resolve_record env rec =
     resolve (pe_files env) (pe_canon env) (dget_or rec ''building_name'' (VStr [])) (dget_or rec ''area'' (VStr []))
       (dget_or rec ''developer'' (VStr []))"

definition pipeline_step :: "pipeline_env \<Rightarrow> pipeline \<Rightarrow> batch \<Rightarrow> nat \<times> pydict \<Rightarrow> (resolver_cache, batch) io" where
  "pipeline_step env p b nraw =
     (case normalise (pl_normalizers p) (snd nraw) of (errors, rec) \<Rightarrow>
        let b1 = b\<lparr>ba_failed := ba_failed b @ map (Pair rec) errors\<rparr>
        in case validate (pl_validators p) rec of
             Some err \<Rightarrow> retI (b1\<lparr>ba_failed := ba_failed b1 @ [(rec, err)]\<rparr>)
           | None \<Rightarrow>
               bindI (resolve_record env rec) (\<lambda>(bid, confidence, how).
                 retI (if 0 < bid
                   then b1\<lparr>ba_ingested := ba_ingested b1 @ [observed env (pl_source p) (fst nraw) rec bid confidence]\<rparr>
                   else b1\<lparr>ba_unresolved := ba_unresolved b1 @ [observed env (pl_source p) (fst nraw) rec 0 (Fin 0)]\<rparr>)))"

definition collect :: "pipeline_env \<Rightarrow> pipeline \<Rightarrow> pydict list \<Rightarrow> (resolver_cache, batch) io" where
  "collect env p observations =
     foldI (pipeline_step env p) \<lparr>ba_ingested = [], ba_unresolved = [], ba_failed = []\<rparr> (enumerate 0 observations)"

text \<open>The two files; an unresolved row carries two columns more, read from the payload.\<close>

record evidence_files =
  ef_cache :: resolver_cache
  ef_observations :: "pydict list"
  ef_unresolved :: "pydict list"

definition unresolved_row :: "(pyval \<Rightarrow> string) \<Rightarrow> observation \<Rightarrow> pydict result" where
  "unresolved_row dumps o' =
     (case ob_payload o' of
        VDict p \<Rightarrow>
          Inr (to_csv_row dumps o' @
            [(''raw_building_name'', dget_or p ''building_name'' (VStr [])), (''raw_area'', dget_or p ''area'' (VStr []))])
      | _ \<Rightarrow> Inl AttributeError)"

definition write_observations :: "(pyval \<Rightarrow> string) \<Rightarrow> observation list \<Rightarrow> (evidence_files, unit) io" where
  "write_observations dumps os s =
     (Inr (), s\<lparr>ef_observations := ef_observations s @ map (to_csv_row dumps) os\<rparr>)"

text \<open>The rows before the one that raises are written.\<close>

definition write_unresolved :: "(pyval \<Rightarrow> string) \<Rightarrow> observation list \<Rightarrow> (evidence_files, unit) io" where
  "write_unresolved dumps =
     eachI (\<lambda>o' s. case unresolved_row dumps o' of
        Inl e \<Rightarrow> (Inl e, s) | Inr row \<Rightarrow> (Inr (), s\<lparr>ef_unresolved := ef_unresolved s @ [row]\<rparr>))"

definition run_pipeline :: "pipeline_env \<Rightarrow> pipeline \<Rightarrow> pydict list \<Rightarrow> (evidence_files, batch) io" where
  "run_pipeline env p observations =
     bindI (\<lambda>s. case collect env p observations (ef_cache s) of (r, c) \<Rightarrow> (r, s\<lparr>ef_cache := c\<rparr>)) (\<lambda>b.
     bindI (write_observations (pe_dumps env) (ba_ingested b)) (\<lambda>_.
     bindI (write_unresolved (pe_dumps env) (ba_unresolved b)) (\<lambda>_. retI b)))"

section \<open>Nothing is overwritten\<close>

definition grown :: "evidence_files \<Rightarrow> evidence_files \<Rightarrow> bool" where
  "grown s s' = (prefix (ef_observations s) (ef_observations s') \<and> prefix (ef_unresolved s) (ef_unresolved s'))"

lemma keeps_write_unresolved: "keeps (grown s) (write_unresolved dumps os)"
  unfolding write_unresolved_def
  by (rule keeps_each) (auto simp: keeps_def grown_def split: sum.split)

lemma keeps_write_observations: "keeps (grown s) (write_observations dumps os)"
  by (auto simp: keeps_def grown_def write_observations_def)

lemma keeps_collect:
  "keeps (grown s) (\<lambda>s. case collect env p observations (ef_cache s) of (r, c) \<Rightarrow> (r, s\<lparr>ef_cache := c\<rparr>))"
  by (auto simp: keeps_def grown_def split: prod.split)

section \<open>Every record ends in one place\<close>

text \<open>A record whose payload, when there is one, is a dictionary.\<close>

definition payload_ok :: "pydict \<Rightarrow> bool" where
  "payload_ok rec = (\<not> dhas rec ''payload'' \<or> is_dict (dget rec ''payload''))"

lemma dget_with_payload: "k \<noteq> ''payload'' \<Longrightarrow> dget (with_payload d) k = dget d k"
  by (simp add: with_payload_def)

lemma is_dictE: "is_dict v \<Longrightarrow> (\<And>p. v = VDict p \<Longrightarrow> thesis) \<Longrightarrow> thesis"
  by (cases v) (auto simp: is_dict_def)

text \<open>A required field that is a building name, and a payload that is a dictionary, move without an error.\<close>

lemma with_payload_dict: "payload_ok rec \<Longrightarrow> is_dict (dget (with_payload rec) ''payload'')"
  by (auto simp: payload_ok_def with_payload_def is_dict_def)

lemma move_field_ok:
  assumes "payload_ok rec" and "k \<noteq> ''payload''"
  shows "fst (move_field rec k) = None \<and> payload_ok (snd (move_field rec k))"
proof (cases "dhas rec k")
  case True
  obtain p where "dget (with_payload rec) ''payload'' = VDict p"
    using with_payload_dict [OF assms(1)] by (rule is_dictE)
  with True assms(2) show ?thesis
    by (simp add: move_field_def Let_def payload_ok_def is_dict_def)
qed (simp add: move_field_def assms(1))

lemma trim_field_ok: "payload_ok rec \<Longrightarrow> k \<noteq> ''payload'' \<Longrightarrow> payload_ok (trim_field rec k)"
  by (auto simp: trim_field_def payload_ok_def split: pyval.split)

lemma normalise_ok:
  assumes "payload_ok rec"
  shows "fst (normalise default_normalizers rec) = []"
proof -
  let ?r1 = "foldl trim_field rec [''building_name'', ''area'', ''developer'']"
  have "payload_ok ?r1" using assms by (simp add: trim_field_ok)
  then have r2: "payload_ok (with_payload ?r1)"
    by (auto simp: payload_ok_def with_payload_def is_dict_def)
  obtain r3 where r3: "move_field (with_payload ?r1) ''price'' = (None, r3)" "payload_ok r3"
    using move_field_ok [OF r2, of "''price''"] by (cases "move_field (with_payload ?r1) ''price''") auto
  obtain r4 where "move_field r3 ''bedrooms'' = (None, r4)"
    using move_field_ok [OF r3(2), of "''bedrooms''"] by (cases "move_field r3 ''bedrooms''") auto
  with r3(1) show ?thesis
    by (simp add: default_normalizers_def trim_fields_def ensure_payload_def coerce_types_def)
qed

text \<open>A fold one of whose elements always raises, raises.\<close>

lemma foldI_raises:
  "x \<in> set xs \<Longrightarrow> (\<And>b s. P s \<Longrightarrow> \<exists>e. fst (f b x s) = Inl e) \<Longrightarrow> (\<And>b y s. P s \<Longrightarrow> P (snd (f b y s))) \<Longrightarrow> P s \<Longrightarrow>
   \<exists>e. fst (foldI f b xs s) = Inl e"
proof (induction xs arbitrary: b s)
  case (Cons y xs)
  obtain r s1 where r: "f b y s = (r, s1)" by (cases "f b y s")
  show ?case
  proof (cases r)
    case (Inl e)
    with r show ?thesis by (simp add: bindI_def)
  next
    case (Inr b1)
    have "x \<noteq> y" using Cons.prems(2) [OF Cons.prems(4), of b] r Inr by auto
    moreover have "P s1" using Cons.prems(3) [OF Cons.prems(4), of b y] r by simp
    ultimately have "\<exists>e. fst (foldI f b1 xs s1) = Inl e" using Cons by simp
    with r Inr show ?thesis by (simp add: bindI_def)
  qed
qed simp

lemma keeps_resolve_record: "keeps (cache_ok (pe_files env)) (resolve_record env rec)"
  using resolve_cached by (simp add: keeps_def resolve_record_def)

lemma keeps_step: "keeps (cache_ok (pe_files env)) (pipeline_step env p b x)"
proof -
  obtain errors rec where rec: "normalise (pl_normalizers p) (snd x) = (errors, rec)"
    by (cases "normalise (pl_normalizers p) (snd x)")
  show ?thesis
    unfolding pipeline_step_def rec prod.case Let_def
    by (cases "validate (pl_validators p) rec")
      (auto intro!: keeps_intros keeps_resolve_record split: prod.split)
qed

lemma step_cache_ok:
  "cache_ok (pe_files env) c \<Longrightarrow> cache_ok (pe_files env) (snd (pipeline_step env p b x c))"
  using keeps_step by (simp add: keeps_def)

lemma step_raises:
  assumes "normalise (pl_normalizers p) raw = (errors, rec)" and "validate (pl_validators p) rec = None"
    and "fst (resolve_record env rec c) = Inl e"
  shows "fst (pipeline_step env p b (i, raw) c) = Inl e"
  using assms by (cases "resolve_record env rec c") (simp add: pipeline_step_def Let_def bindI_def)

section \<open>The fate of a record\<close>

text \<open>What becomes of one record, from the record and the registry files alone.\<close>

datatype outcome = Ingested observation | Unresolved observation | Rejected "pydict \<times> failure"

definition outcome_of :: "pipeline_env \<Rightarrow> string \<Rightarrow> nat \<times> pydict \<Rightarrow> outcome result" where
  "outcome_of env source nraw =
     (let rec = snd (normalise default_normalizers (snd nraw)) in
      case validate default_validators rec of
        Some err \<Rightarrow> Inr (Rejected (rec, err))
      | None \<Rightarrow>
          bindE (resolve_spec (pe_files env) (pe_canon env) (dget_or rec ''building_name'' (VStr []))
                   (dget_or rec ''area'' (VStr [])) (dget_or rec ''developer'' (VStr []))) (\<lambda>a.
            Inr (if 0 < fst a then Ingested (observed env source (fst nraw) rec (fst a) (fst (snd a)))
                 else Unresolved (observed env source (fst nraw) rec 0 (Fin 0)))))"

definition outcomes_batch :: "outcome list \<Rightarrow> batch" where
  "outcomes_batch outs =
     \<lparr>ba_ingested = List.map_filter (\<lambda>x. case x of Ingested y \<Rightarrow> Some y | _ \<Rightarrow> None) outs,
      ba_unresolved = List.map_filter (\<lambda>x. case x of Unresolved y \<Rightarrow> Some y | _ \<Rightarrow> None) outs,
      ba_failed = List.map_filter (\<lambda>x. case x of Rejected y \<Rightarrow> Some y | _ \<Rightarrow> None) outs\<rparr>"

fun put_outcome :: "batch \<Rightarrow> outcome \<Rightarrow> batch" where
  "put_outcome b (Ingested y) = b\<lparr>ba_ingested := ba_ingested b @ [y]\<rparr>"
| "put_outcome b (Unresolved y) = b\<lparr>ba_unresolved := ba_unresolved b @ [y]\<rparr>"
| "put_outcome b (Rejected y) = b\<lparr>ba_failed := ba_failed b @ [y]\<rparr>"

lemma foldl_put_outcome:
  "foldl put_outcome b outs =
     \<lparr>ba_ingested = ba_ingested b @ ba_ingested (outcomes_batch outs),
      ba_unresolved = ba_unresolved b @ ba_unresolved (outcomes_batch outs),
      ba_failed = ba_failed b @ ba_failed (outcomes_batch outs)\<rparr>"
proof (induction outs arbitrary: b)
  case (Cons x outs)
  then show ?case by (cases x) (simp_all add: outcomes_batch_def List.map_filter_simps)
qed (simp add: outcomes_batch_def List.map_filter_simps)

lemma outcomes_batch_length:
  "length (ba_ingested (outcomes_batch outs)) + length (ba_unresolved (outcomes_batch outs)) + length (ba_failed (outcomes_batch outs)) =
   length outs"
proof (induction outs)
  case (Cons x outs)
  then show ?case by (cases x) (simp_all add: outcomes_batch_def List.map_filter_simps)
qed (simp add: outcomes_batch_def List.map_filter_simps)

lemma step_outcome:
  assumes "cache_ok (pe_files env) c" and "payload_ok raw"
    and "pipeline_step env (create_pipeline source) b (i, raw) c = (Inr b', c')"
  shows "\<exists>out. outcome_of env source (i, raw) = Inr out \<and> b' = put_outcome b out"
proof -
  obtain rec where rec: "normalise default_normalizers raw = ([], rec)"
    using normalise_ok [OF assms(2)] by (cases "normalise default_normalizers raw") auto
  show ?thesis
  proof (cases "validate default_validators rec")
    case None
    with assms(3) rec obtain bid confidence how where r: "resolve_record env rec c = (Inr (bid, confidence, how), c')"
      and b': "b' = (if 0 < bid
        then b\<lparr>ba_ingested := ba_ingested b @ [observed env source i rec bid confidence]\<rparr>
        else b\<lparr>ba_unresolved := ba_unresolved b @ [observed env source i rec 0 (Fin 0)]\<rparr>)"
      by (auto simp: pipeline_step_def bindI_Inr create_pipeline_def)
    have "resolve_spec (pe_files env) (pe_canon env) (dget_or rec ''building_name'' (VStr []))
        (dget_or rec ''area'' (VStr [])) (dget_or rec ''developer'' (VStr [])) = Inr (bid, confidence, how)"
      using resolve_cached [OF assms(1)] r by (metis fst_conv resolve_record_def)
    then show ?thesis using None rec b' by (cases "0 < bid") (simp_all add: outcome_of_def)
  next
    case (Some err)
    with assms(3) rec show ?thesis by (simp add: pipeline_step_def create_pipeline_def outcome_of_def)
  qed
qed

lemma write_unresolved_frame: "write_unresolved dumps os s = (r, s') \<Longrightarrow> ef_observations s' = ef_observations s"
proof -
  have "keeps (\<lambda>t. ef_observations t = ef_observations s) (write_unresolved dumps os)"
    unfolding write_unresolved_def by (rule keeps_each) (auto simp: keeps_def split: sum.split)
  then show "write_unresolved dumps os s = (r, s') \<Longrightarrow> ef_observations s' = ef_observations s"
    unfolding keeps_def by (metis snd_conv)
qed

lemma fold_outcomes:
  "cache_ok (pe_files env) c \<Longrightarrow> list_all (payload_ok \<circ> snd) xs \<Longrightarrow>
   foldI (pipeline_step env (create_pipeline source)) b xs c = (Inr b', c') \<Longrightarrow>
   \<exists>outs. mapE (outcome_of env source) xs = Inr outs \<and> b' = foldl put_outcome b outs"
proof (induction xs arbitrary: b c)
  case (Cons x xs)
  obtain i raw where x: "x = (i, raw)" by (cases x)
  from Cons.prems(3) obtain b1 c1 where s: "pipeline_step env (create_pipeline source) b (i, raw) c = (Inr b1, c1)"
    and r: "foldI (pipeline_step env (create_pipeline source)) b1 xs c1 = (Inr b', c')"
    by (auto simp: bindI_Inr x)
  obtain out where o1: "outcome_of env source (i, raw) = Inr out" "b1 = put_outcome b out"
    using step_outcome [OF Cons.prems(1) _ s] Cons.prems(2) x by auto
  have "cache_ok (pe_files env) c1"
    using step_cache_ok [OF Cons.prems(1), of "create_pipeline source" b "(i, raw)"] s by simp
  from Cons.IH [OF this _ r] Cons.prems(2) obtain outs where
    "mapE (outcome_of env source) xs = Inr outs" "b' = foldl put_outcome b1 outs" by auto
  with o1 show ?case by (simp add: x)
qed simp

section \<open>Properties\<close>

text \<open>
  C21: The evidence files are append-only.  Whatever the records, the normalisers and the validators are,
  and whether a run returns or raises, the rows of both files that were there before are still
  there, in front and unchanged.
\<close>

theorem append_only:
  "prefix (ef_observations s) (ef_observations (snd (run_pipeline env p observations s))) \<and>
   prefix (ef_unresolved s) (ef_unresolved (snd (run_pipeline env p observations s)))"
proof -
  have "keeps (grown s) (run_pipeline env p observations)"
    unfolding run_pipeline_def by (intro keeps_intros keeps_write_observations keeps_write_unresolved keeps_collect)
  then show ?thesis by (simp add: keeps_def grown_def)
qed

text \<open>
  C25: Every record has one outcome.  When the payloads of the records that have one are dictionaries, a run of
  the default pipeline that returns has treated every record by itself: what becomes of it - ingested, unresolved
  or rejected - is computed from the record and the registry files alone, the three results list these
  outcomes in the order of the records, so that they are as many as the records, and the file of
  observations has gained one row for each ingested observation.  (A record whose payload is not a
  dictionary can be both rejected and ingested, see \<open>failed_and_ingested\<close>.)
\<close>

theorem records_accounted:
  assumes "cache_ok (pe_files env) (ef_cache s)" and "list_all payload_ok observations"
    and "run_pipeline env (create_pipeline source) observations s = (Inr b, s')"
  shows "\<exists>outs. mapE (outcome_of env source) (enumerate 0 observations) = Inr outs \<and> b = outcomes_batch outs \<and>
    length (ba_ingested b) + length (ba_unresolved b) + length (ba_failed b) = length observations \<and>
    ef_observations s' = ef_observations s @ map (to_csv_row (pe_dumps env)) (ba_ingested b)"
proof -
  from assms(3) obtain c where c: "collect env (create_pipeline source) observations (ef_cache s) = (Inr b, c)"
    and w: "write_unresolved (pe_dumps env) (ba_unresolved b)
      (s\<lparr>ef_cache := c, ef_observations := ef_observations s @ map (to_csv_row (pe_dumps env)) (ba_ingested b)\<rparr>) = (Inr (), s')"
    by (auto simp: run_pipeline_def bindI_Inr write_observations_def split: prod.splits)
  have ok: "list_all (payload_ok \<circ> snd) (enumerate 0 observations)"
    using assms(2) by (simp flip: list.pred_map)
  from fold_outcomes [OF assms(1) ok c [unfolded collect_def]] obtain outs where
    o1: "mapE (outcome_of env source) (enumerate 0 observations) = Inr outs" and o2: "b = outcomes_batch outs"
    by (auto simp: foldl_put_outcome)
  have "length outs = length observations" using o1 by (auto simp: mapE_Inr dest: list_all2_lengthD)
  moreover have "ef_observations s' = ef_observations s @ map (to_csv_row (pe_dumps env)) (ba_ingested b)"
    using write_unresolved_frame [OF w] by simp
  ultimately show ?thesis using o1 o2 outcomes_batch_length [of outs] by auto
qed

text \<open>
  C40: One bad record loses the batch.  When a record of a batch reaches the resolver with an area that is
  \<open>None\<close>, the run raises and writes nothing, however many good records the batch holds.
\<close>

theorem bad_record_loses_batch:
  assumes "cache_ok (pe_files env) (ef_cache s)" and "raw \<in> set observations"
    and "validate (pl_validators p) (snd (normalise (pl_normalizers p) raw)) = None"
    and "dget_or (snd (normalise (pl_normalizers p) raw)) ''area'' (VStr []) = VNone"
  shows "isl (fst (run_pipeline env p observations s)) \<and>
    ef_observations (snd (run_pipeline env p observations s)) = ef_observations s \<and>
    ef_unresolved (snd (run_pipeline env p observations s)) = ef_unresolved s"
proof -
  obtain errors rec where rec: "normalise (pl_normalizers p) raw = (errors, rec)"
    by (cases "normalise (pl_normalizers p) raw")
  have spec: "\<exists>e. resolve_spec files canon name VNone developer = Inl e" for files canon name developer
    by (cases "registry_of files"; cases name) (simp_all add: resolve_spec_def text_of_def)
  have raises: "\<exists>e. fst (pipeline_step env p b (i, raw) c) = Inl e" if "cache_ok (pe_files env) c" for b i c
  proof -
    have "\<exists>e. fst (resolve_record env rec c) = Inl e"
      using resolve_cached [OF that] spec assms(4) rec by (simp add: resolve_record_def)
    then show ?thesis using step_raises [OF rec] assms(3) rec by fastforce
  qed
  obtain i where "(i, raw) \<in> set (enumerate 0 observations)"
    using assms(2) by (auto simp: in_set_enumerate_eq in_set_conv_nth [of raw])
  then have "\<exists>e. fst (collect env p observations (ef_cache s)) = Inl e"
    unfolding collect_def
    by (rule foldI_raises [where P = "cache_ok (pe_files env)"]) (auto intro: raises step_cache_ok assms(1))
  then show ?thesis by (auto simp: run_pipeline_def bindI_def split: prod.split)
qed

text \<open>
  A record can be failed and ingested at once.  When a normaliser raises on a record that is otherwise
  valid and whose building is found, the record is reported among the failed ones and its observation
  is ingested all the same, with the record as the failing normaliser left it.
\<close>

theorem failed_and_ingested:
  assumes "normalise (pl_normalizers p) raw = (e # es, rec)" and "validate (pl_validators p) rec = None"
    and "fst (resolve_record env rec c) = Inr (bid, confidence, how)" and "0 < bid"
  shows "\<exists>b'. fst (pipeline_step env p b (i, raw) c) = Inr b' \<and> (rec, e) \<in> set (ba_failed b') \<and>
    observed env (pl_source p) i rec bid confidence \<in> set (ba_ingested b')"
  using assms by (cases "resolve_record env rec c") (simp add: pipeline_step_def Let_def bindI_def retI_def)

section \<open>Examples\<close>

definition sample_pipeline_env :: pipeline_env where
  "sample_pipeline_env =
     \<lparr>pe_files = sample_files, pe_canon = no_canon, pe_uuid = (\<lambda>n. ''id''), pe_now = (\<lambda>n. ''2026-06-15T00:00:00Z''),
      pe_dumps = py_repr\<rparr>"

definition empty_files :: evidence_files where
  "empty_files = \<lparr>ef_cache = clear_cache, ef_observations = [], ef_unresolved = []\<rparr>"

definition good_record :: pydict where
  "good_record =
     [(''building_name'', VStr ''Lodha Park''), (''area'', VStr ''Worli''), (''observation_type'', VStr ''SALE_LISTING''),
      (''observed_at'', VStr ''2026-06-15''), (''price'', VInt 85000000), (''payload'', VDict [])]"

definition bad_record :: pydict where
  "bad_record = dput good_record ''area'' VNone"

definition untitled_record :: pydict where
  "untitled_record = dput good_record ''observed_at'' (VStr [])"

text \<open>A payload that is a text: the record is reported as failed, and ingested without its price.\<close>

definition text_payload_record :: pydict where
  "text_payload_record = dput good_record ''payload'' (VStr ''3 BHK'')"

lemma sample_normalised:
  "normalise default_normalizers bad_record =
     ([], [(''building_name'', VStr ''Lodha Park''), (''area'', VNone), (''observation_type'', VStr ''SALE_LISTING''),
       (''observed_at'', VStr ''2026-06-15''), (''payload'', VDict [(''price'', VInt 85000000)])])"
  "normalise default_normalizers text_payload_record =
     ([NormalizerError TypeError],
      [(''building_name'', VStr ''Lodha Park''), (''area'', VStr ''Worli''), (''observation_type'', VStr ''SALE_LISTING''),
       (''observed_at'', VStr ''2026-06-15''), (''payload'', VStr ''3 BHK'')])"
  "normalise default_normalizers good_record =
     ([], [(''building_name'', VStr ''Lodha Park''), (''area'', VStr ''Worli''), (''observation_type'', VStr ''SALE_LISTING''),
       (''observed_at'', VStr ''2026-06-15''), (''payload'', VDict [(''price'', VInt 85000000)])])"
  by code_simp+

theorem bad_record_loses_batch_witness:
  "isl (fst (run_pipeline sample_pipeline_env (create_pipeline ''HOUSING'') [good_record, bad_record] empty_files)) \<and>
   ef_observations (snd (run_pipeline sample_pipeline_env (create_pipeline ''HOUSING'') [good_record, bad_record] empty_files)) = []"
proof -
  have "cache_ok (pe_files sample_pipeline_env) (ef_cache empty_files)" by (simp add: empty_files_def clear_cache_ok)
  moreover have "validate (pl_validators (create_pipeline ''HOUSING''))
      (snd (normalise (pl_normalizers (create_pipeline ''HOUSING'')) bad_record)) = None"
    by (simp add: create_pipeline_def sample_normalised default_validators_def required_def dget_def)
  moreover have "dget_or (snd (normalise (pl_normalizers (create_pipeline ''HOUSING'')) bad_record)) ''area'' (VStr []) = VNone"
    by (simp add: create_pipeline_def sample_normalised dget_or_def)
  ultimately show ?thesis
    using bad_record_loses_batch [of sample_pipeline_env empty_files bad_record "[good_record, bad_record]"]
    by (simp add: empty_files_def)
qed

theorem records_accounted_witness:
  "\<exists>b s'. run_pipeline sample_pipeline_env (create_pipeline ''HOUSING'') [untitled_record] empty_files = (Inr b, s') \<and>
     length (ba_failed b) = 1 \<and> length (ba_ingested b) + length (ba_unresolved b) = 0"
proof -
  have ok: "list_all payload_ok [untitled_record]" by code_simp
  have v: "validate default_validators (snd (normalise default_normalizers untitled_record)) = Some (Invalid ''missing observed_at'')"
    "fst (normalise default_normalizers untitled_record) = []"
    by code_simp+
  obtain rec where n: "normalise default_normalizers untitled_record = ([], rec)" using v(2)
    by (cases "normalise default_normalizers untitled_record") auto
  have "\<exists>b s'. run_pipeline sample_pipeline_env (create_pipeline ''HOUSING'') [untitled_record] empty_files = (Inr b, s') \<and>
      length (ba_failed b) = 1"
    using v(1) n
    by (simp add: run_pipeline_def collect_def create_pipeline_def pipeline_step_def bindI_def retI_def write_observations_def
        write_unresolved_def eachI_def)
  then obtain b s' where r: "run_pipeline sample_pipeline_env (create_pipeline ''HOUSING'') [untitled_record] empty_files = (Inr b, s')"
    and "length (ba_failed b) = 1" by blast
  have "cache_ok (pe_files sample_pipeline_env) (ef_cache empty_files)" by (simp add: empty_files_def clear_cache_ok)
  from records_accounted [OF this ok r] \<open>length (ba_failed b) = 1\<close> r show ?thesis by auto
qed

theorem failed_and_ingested_witness:
  "\<exists>b. fst (pipeline_step sample_pipeline_env (create_pipeline ''HOUSING'')
      \<lparr>ba_ingested = [], ba_unresolved = [], ba_failed = []\<rparr> (0, text_payload_record) clear_cache) = Inr b \<and>
    ba_failed b \<noteq> [] \<and> map ob_payload (ba_ingested b) = [VStr ''3 BHK'']"
proof -
  let ?p = "create_pipeline ''HOUSING''"
  let ?b = "\<lparr>ba_ingested = [], ba_unresolved = [], ba_failed = []\<rparr>"
  define rec where "rec = snd (normalise default_normalizers text_payload_record)"
  have n: "normalise (pl_normalizers ?p) text_payload_record = ([NormalizerError TypeError], rec)"
    by (simp add: create_pipeline_def rec_def sample_normalised)
  have v: "validate (pl_validators ?p) rec = None"
    by (simp add: create_pipeline_def rec_def sample_normalised default_validators_def required_def dget_def)
  have "map_of (br_buildings sample_registry) (lower (strip ''Lodha Park'')) = Some sample_info" by code_simp
  from exact_lookup [OF clear_cache_ok sample_loaded(1) this]
  have r: "fst (resolve_record sample_pipeline_env rec clear_cache) = Inr (12, Fin 1, ''exact'')"
    by (simp add: resolve_record_def sample_pipeline_env_def rec_def sample_normalised dget_or_def sample_info_def)
  from failed_and_ingested [OF n v r, of ?b 0] obtain b where b: "fst (pipeline_step sample_pipeline_env ?p ?b (0, text_payload_record) clear_cache) = Inr b"
    "(rec, NormalizerError TypeError) \<in> set (ba_failed b)" by auto
  have "map ob_payload (ba_ingested b) = [dget rec ''payload'']"
    using b(1) n v r
    by (cases "resolve_record sample_pipeline_env rec clear_cache")
      (auto simp: pipeline_step_def Let_def bindI_def retI_def observed_def rec_def sample_normalised dget_or_def dget_def)
  then show ?thesis using b by (auto simp: rec_def sample_normalised dget_def)
qed

end
