(* ===== verification/Duplicates.thy ===== *)
theory Duplicates
  imports Difflib PyVal "HOL-Library.Multiset"
begin

text \<open>
  \<open>registry/dedup.py\<close>: whether two entries of the building registry are the same building, and the clusters in
  which the doubtful pairs are reviewed.

  \<open>knowledge.normalization\<close> is not in the repository: \<open>is_negative_knowledge\<close> is the parameter
  \<open>negative\<close>.  The distance in kilometres, computed with C's \<open>pow\<close>, is the parameter \<open>km\<close> of the two
  coordinates.
\<close>

section \<open>Names\<close>

definition dedup_name :: "string \<Rightarrow> string" where
  "dedup_name s0 =
     (let s1 = re_sub (rx_plain ''%s+'') '' '' (re_sub (rx_plain ''[^a-z0-9%s]'') [] (strip (lower s0)))
      in strip (foldl (\<lambda>s suffix. replace suffix [] s) s1 ['' building'', '' tower'', '' apartment'', '' chs'', '' chsl'']))"

definition quick_filter :: "string \<Rightarrow> string \<Rightarrow> bool" where
  "quick_filter a b =
     (let na = dedup_name a; nb = dedup_name b;
          lo = min (length na) (length nb); hi = max (length na) (length nb)
      in if na = nb then True
         else if take 1 na \<noteq> take 1 nb then False
         else \<not> flt (fdiv (fint (int lo)) (fint (int hi))) (flit (4 / 10)))"

definition name_similarity :: "string \<Rightarrow> string \<Rightarrow> pyfloat" where
  "name_similarity a b =
     (let na = dedup_name a; nb = dedup_name b; r = fmul (ratio na nb) (Fin 100)
      in if na = nb then Fin 100
         else if contains nb na \<or> contains na nb then fmax (Fin 90) r
         else r)"

definition stopwords :: "string list" where
  "stopwords = [''the'', ''a'', ''an'', ''and'', ''of'', ''in'', ''at'', ''on'', ''by'', ''to'', ''for'']"

definition has_common_word :: "string \<Rightarrow> string \<Rightarrow> bool" where
  "has_common_word a b =
     list_ex (\<lambda>w. w \<in> set (split_ws (dedup_name b)) \<and> w \<notin> set stopwords) (split_ws (dedup_name a))"

definition extract_number :: "string \<Rightarrow> string option" where
  "extract_number name = map_option (group_or [] 0) (re_search (rx_plain ''%d+'') name)"

definition classify_pattern :: "string \<Rightarrow> string \<Rightarrow> string" where
  "classify_pattern name_a name_b =
     (let na = dedup_name name_a; nb = dedup_name name_b;
          ja = replace '' '' [] na; jb = replace '' '' [] nb; n = min (length na) (length nb)
      in if ja = jb then ''space_variation''
         else if \<bar>int (length na) - int (length nb)\<bar> \<le> 2 \<and> fle (flit (9 / 10)) (ratio na nb) then ''typo''
         else if fle (flit (85 / 100)) (ratio ja jb) then ''abbreviation''
         else if take n na = take n nb \<or> (n \<noteq> 0 \<and> drop (length na - n) na = drop (length nb - n) nb) then ''suffix_variation''
         else if contains nb na \<or> contains na nb then ''partial_overlap''
         else ''other'')"

section \<open>Evidence\<close>

text \<open>The symbol in front of a line of evidence is its mark: tick, cross, tilde, question mark, no entry.\<close>

datatype mark = Pro | Con | Partial | Doubtful | Stop

type_synonym evidence_line = "mark \<times> string"

text \<open>\<open>f"{x:.df}"\<close> of a finite value that is not negative.\<close>

definition show_fixed :: "nat \<Rightarrow> pyfloat \<Rightarrow> string" where
  "show_fixed d x =
     (case x of
        Fin q \<Rightarrow>
          (let n = round_even (q * 10 ^ d); i = n div 10 ^ d; f = n mod 10 ^ d; fs = show_int f
           in if d = 0 then show_int i
              else show_int i @ ''.'' @ replicate (d - length fs) (CHR ''0'') @ fs)
      | PInf \<Rightarrow> ''inf'' | NInf \<Rightarrow> ''-inf'' | NaN \<Rightarrow> ''nan'')"

record duplicate_verdict =
  dv_score :: int
  dv_action :: string
  dv_evidence :: "evidence_line list"
  dv_pattern :: string
  dv_rule :: string

record registry_entry =
  re_name :: string
  re_area :: string
  re_developer :: "string option"
  re_lat :: "pyfloat option"
  re_lon :: "pyfloat option"

definition coordinate :: "pyfloat option \<Rightarrow> bool" where
  "coordinate x = (case x of Some v \<Rightarrow> v \<noteq> Fin 0 | None \<Rightarrow> False)"

definition same_area :: "registry_entry \<Rightarrow> registry_entry \<Rightarrow> bool" where
  "same_area a b = (re_area a \<noteq> [] \<and> re_area b \<noteq> [] \<and> lower (re_area a) = lower (re_area b))"

definition has_developer :: "registry_entry \<Rightarrow> bool" where
  "has_developer a = (case re_developer a of Some (c # cs) \<Rightarrow> True | _ \<Rightarrow> False)"

definition same_developer :: "registry_entry \<Rightarrow> registry_entry \<Rightarrow> bool" where
  "same_developer a b = (has_developer a \<and> re_developer a = re_developer b)"

definition same_number :: "registry_entry \<Rightarrow> registry_entry \<Rightarrow> bool" where
  "same_number a b =
     (case (extract_number (re_name a), extract_number (re_name b)) of
        (Some m, Some n) \<Rightarrow> m \<noteq> [] \<and> m = n | _ \<Rightarrow> False)"

definition name_evidence :: "registry_entry \<Rightarrow> registry_entry \<Rightarrow> pyfloat \<Rightarrow> evidence_line \<times> int" where
  "name_evidence a b s =
     (let n = show_fixed 0 s @ ''%'' in
      if fle (Fin 98) s then ((Pro, ''Name similarity '' @ n), 45)
      else if fle (Fin 90) s then ((Pro, ''High name similarity '' @ n), 35)
      else if fle (Fin 80) s then ((Partial, ''Moderate name similarity '' @ n), 20)
      else if fle (Fin 50) s then
        (if has_common_word (re_name a) (re_name b)
         then ((Doubtful, ''Low name similarity '' @ n @ '' but shared keywords''), 8)
         else ((Con, ''Weak name similarity '' @ n), 2))
      else ((Con, ''Weak name similarity '' @ n), 0))"

definition area_evidence :: "registry_entry \<Rightarrow> registry_entry \<Rightarrow> evidence_line \<times> int" where
  "area_evidence a b =
     (if same_area a b then ((Pro, ''Same area: '' @ re_area a), 30)
      else ((Partial, ''Different areas: '' @ re_area a @ '' vs '' @ re_area b), 0))"

definition developer_evidence :: "registry_entry \<Rightarrow> registry_entry \<Rightarrow> evidence_line list \<times> int" where
  "developer_evidence a b =
     (if has_developer a \<and> has_developer b then
        (if re_developer a = re_developer b then ([(Pro, ''Same developer: '' @ the (re_developer a))], 18)
         else ([(Con, ''Different developers: '' @ the (re_developer a) @ '' vs '' @ the (re_developer b))], -10))
      else if has_developer a \<or> has_developer b then ([(Partial, ''Partial developer info'')], 3)
      else ([], 0))"

type_synonym distance = "pyfloat \<Rightarrow> pyfloat \<Rightarrow> pyfloat \<Rightarrow> pyfloat \<Rightarrow> pyfloat"

definition coordinate_evidence :: "distance \<Rightarrow> registry_entry \<Rightarrow> registry_entry \<Rightarrow> evidence_line list \<times> int" where
  "coordinate_evidence km a b =
     (case (re_lat a, re_lon a, re_lat b, re_lon b) of
        (Some la, Some oa, Some lb, Some ob) \<Rightarrow>
          if la = Fin 0 \<or> oa = Fin 0 \<or> lb = Fin 0 \<or> ob = Fin 0 then ([], 0)
          else
            let d = km la oa lb ob in
            if flt d (Fin (1 / 2)) then ([(Pro, ''Same coordinates ('' @ show_fixed 1 d @ ''km apart)'')], 20)
            else if flt d (Fin 2) then ([(Partial, ''Nearby ('' @ show_fixed 1 d @ ''km)'')], 5)
            else ([(Con, ''Far apart ('' @ show_fixed 1 d @ ''km)'')], -10)
      | _ \<Rightarrow> ([], 0))"

definition number_evidence :: "registry_entry \<Rightarrow> registry_entry \<Rightarrow> evidence_line list \<times> int" where
  "number_evidence a b =
     (if same_number a b \<and> same_area a b
      then ([(Pro, ''Same building number '' @ the (extract_number (re_name a)) @ '' in same area'')], 15) else ([], 0))"

definition raw_score :: "distance \<Rightarrow> registry_entry \<Rightarrow> registry_entry \<Rightarrow> int" where
  "raw_score km a b =
     snd (name_evidence a b (name_similarity (re_name a) (re_name b))) + snd (area_evidence a b) +
     snd (developer_evidence a b) + snd (coordinate_evidence km a b) + snd (number_evidence a b)"

section \<open>The decision\<close>

text \<open>The test of rule 3: it looks at the latitudes only before it computes with the longitudes.\<close>

definition same_coordinates :: "distance \<Rightarrow> registry_entry \<Rightarrow> registry_entry \<Rightarrow> bool result" where
  "same_coordinates km a b =
     (if coordinate (re_lat a) \<and> coordinate (re_lat b) then
        case (re_lat a, re_lon a, re_lat b, re_lon b) of
          (Some la, Some oa, Some lb, Some ob) \<Rightarrow> Inr (flt (km la oa lb ob) (Fin (1 / 2)))
        | _ \<Rightarrow> Inl TypeError
      else Inr False)"

definition fallback :: "bool \<Rightarrow> int \<Rightarrow> string \<times> string" where
  "fallback same score =
     (if 90 \<le> score then
        (if same then (''auto_merge'', ''Score '' @ show_int score @ '' / same area'')
         else (''ask'', ''Score '' @ show_int score @ '' / different areas''))
      else if 80 \<le> score then (''ask'', ''Score '' @ show_int score)
      else (''new_building'', ''Score '' @ show_int score))"

definition merge_action :: "distance \<Rightarrow> registry_entry \<Rightarrow> registry_entry \<Rightarrow> pyfloat \<Rightarrow> int \<Rightarrow> (string \<times> string) result" where
  "merge_action km a b name_score score =
     (let same = same_area a b;
          rule4 = (if classify_pattern (re_name a) (re_name b) = ''space_variation'' \<and> same \<and> same_developer a b
                   then (''auto_merge'', ''Rule 4: space variation / same dev / same area'') else fallback same score)
      in if fle (Fin 98) name_score \<and> same \<and> same_developer a b
         then Inr (''auto_merge'', ''Rule 1: name>=98% / same area / same developer'')
         else if fle (Fin 95) name_score \<and> same \<and> same_number a b
         then Inr (''auto_merge'', ''Rule 2: name>=95% / same area / same number'')
         else if fle (Fin 95) name_score \<and> same
         then bindE (same_coordinates km a b) (\<lambda>near.
                Inr (if near then (''auto_merge'', ''Rule 3: name>=95% / same area / same coords'') else rule4))
         else Inr rule4)"

definition evaluate_duplicate ::
    "distance \<Rightarrow> (string \<Rightarrow> string \<Rightarrow> string \<Rightarrow> bool) \<Rightarrow> registry_entry \<Rightarrow> registry_entry \<Rightarrow> duplicate_verdict result" where
  "evaluate_duplicate km negative a b =
     (let pattern = classify_pattern (re_name a) (re_name b) in
      if negative (re_name a) (re_name b) (if re_area a = [] then re_area b else re_area a) then
        Inr \<lparr>dv_score = 0, dv_action = ''negative_knowledge'',
             dv_evidence = [(Stop, ''Negative knowledge: these are known to be different buildings'')],
             dv_pattern = pattern, dv_rule = ''Negative knowledge '' @ [CHR 0x83] @ '' never suggest merge''\<rparr>
      else
        let s = name_similarity (re_name a) (re_name b);
            score = max 0 (min 100 (raw_score km a b))
        in bindE (merge_action km a b s score) (\<lambda>(action, rule).
             Inr \<lparr>dv_score = score, dv_action = action,
                  dv_evidence = fst (name_evidence a b s) # fst (area_evidence a b) # fst (developer_evidence a b)
                    @ fst (coordinate_evidence km a b) @ fst (number_evidence a b),
                  dv_pattern = pattern, dv_rule = rule\<rparr>))"

section \<open>Review clusters\<close>

text \<open>A pair to review; an absent key is \<open>None\<close>.\<close>

record review_item =
  ri_name_a :: "string option"
  ri_name_b :: "string option"
  ri_pattern :: "string option"
  ri_area_a :: "string option"
  ri_area_b :: "string option"
  ri_developer_a :: "string option"
  ri_developer_b :: "string option"
  ri_score :: "int option"
  ri_action :: "string option"

definition cluster_key :: "review_item \<Rightarrow> string" where
  "cluster_key item =
     (let pattern = (case ri_pattern item of Some p \<Rightarrow> p | None \<Rightarrow> ''other'');
          area_a = text_or (ri_area_a item); area_b = text_or (ri_area_b item);
          same_dev = (text_or (ri_developer_a item) \<noteq> [] \<and> ri_developer_a item = ri_developer_b item);
          same = (area_a \<noteq> [] \<and> area_b \<noteq> [] \<and> lower area_a = lower area_b)
      in if pattern = ''typo'' \<and> same then ''a_typo_same_area''
         else if pattern = ''space_variation'' then ''b_space_variation''
         else if pattern = ''abbreviation'' \<and> same then ''c_abbreviation_same_area''
         else if pattern = ''suffix_variation'' \<and> same_dev \<and> same then ''d_suffix_same_dev_same_area''
         else if pattern = ''suffix_variation'' \<and> same_dev then ''e_suffix_same_dev_diff_area''
         else if pattern = ''suffix_variation'' \<and> same then ''f_suffix_same_area''
         else if same_dev \<and> same then ''g_same_dev_same_area''
         else if same_dev then ''h_same_dev_diff_area''
         else if same then ''i_same_area_diff_name''
         else ''z_other'')"

definition cluster_labels :: "(string \<times> string) list" where
  "cluster_labels =
    [(''a_typo_same_area'', ''Typo variations (same area)''), (''b_space_variation'', ''Space/join variations''),
     (''c_abbreviation_same_area'', ''Abbreviation variations (same area)''),
     (''d_suffix_same_dev_same_area'', ''Suffix variations (same developer, same area)''),
     (''e_suffix_same_dev_diff_area'', ''Suffix variations (same developer, different area)''),
     (''f_suffix_same_area'', ''Suffix variations (same area, different developer)''),
     (''g_same_dev_same_area'', ''Same developer + same area + different name''),
     (''h_same_dev_diff_area'', ''Same developer + different area''),
     (''i_same_area_diff_name'', ''Same area + different name''), (''z_other'', ''Other patterns'')]"

definition cluster_order :: "string list" where
  "cluster_order =
    [''a_typo_same_area'', ''b_space_variation'', ''c_abbreviation_same_area'', ''d_suffix_same_dev_same_area'',
     ''e_suffix_same_dev_diff_area'', ''f_suffix_same_area'', ''g_same_dev_same_area'', ''h_same_dev_diff_area'',
     ''i_same_area_diff_name'', ''z_other'']"

record cluster =
  cl_count :: nat
  cl_buildings :: "string list"
  cl_examples :: "(string \<times> string) list"
  cl_scores :: "int list"
  cl_actions :: "string list"
  cl_items :: "review_item list"

definition empty_cluster :: cluster where
  "empty_cluster = \<lparr>cl_count = 0, cl_buildings = [], cl_examples = [], cl_scores = [], cl_actions = [], cl_items = []\<rparr>"

definition required_key :: "'a option \<Rightarrow> 'a result" where
  "required_key x = (case x of Some v \<Rightarrow> Inr v | None \<Rightarrow> Inl KeyError)"

text \<open>A set is the list of its elements without repetitions.\<close>

definition add_item :: "review_item \<Rightarrow> cluster \<Rightarrow> cluster result" where
  "add_item item c =
     bindE (required_key (ri_name_a item)) (\<lambda>a.
     bindE (required_key (ri_name_b item)) (\<lambda>b.
     bindE (required_key (ri_score item)) (\<lambda>s.
       Inr \<lparr>cl_count = cl_count c + 1, cl_buildings = List.insert b (List.insert a (cl_buildings c)),
            cl_examples = (if length (cl_examples c) < 3 then cl_examples c @ [(a, b)] else cl_examples c),
            cl_scores = cl_scores c @ [s],
            cl_actions = List.insert (case ri_action item of Some x \<Rightarrow> x | None \<Rightarrow> ''ask'') (cl_actions c),
            cl_items = cl_items c @ [item]\<rparr>)))"

type_synonym clusters = "string \<Rightarrow> cluster option"

definition cluster_step :: "clusters \<Rightarrow> review_item \<Rightarrow> clusters result" where
  "cluster_step cs item =
     bindE (add_item item (case cs (cluster_key item) of Some c \<Rightarrow> c | None \<Rightarrow> empty_cluster))
       (\<lambda>c. Inr (cs(cluster_key item \<mapsto> c)))"

record review_batch =
  rb_key :: string
  rb_pattern :: string
  rb_count :: nat
  rb_unique :: nat
  rb_examples :: "(string \<times> string) list"
  rb_average :: pyfloat
  rb_range :: string
  rb_actions :: "string list"
  rb_items :: "review_item list"

definition batch_of :: "string \<Rightarrow> cluster \<Rightarrow> review_batch" where
  "batch_of k c =
     \<lparr>rb_key = k, rb_pattern = (case map_of cluster_labels k of Some l \<Rightarrow> l | None \<Rightarrow> k), rb_count = cl_count c,
      rb_unique = length (cl_buildings c), rb_examples = cl_examples c,
      rb_average = (if cl_scores c = [] then Fin 0
                    else fround 1 (fdiv (fint (sum_list (cl_scores c))) (fint (int (length (cl_scores c)))))),
      rb_range = show_int (Min (set (cl_scores c))) @ [CHR 0x82] @ show_int (Max (set (cl_scores c))),
      rb_actions = cl_actions c, rb_items = cl_items c\<rparr>"

definition cluster_review_items :: "review_item list \<Rightarrow> review_batch list result" where
  "cluster_review_items items =
     bindE (foldE cluster_step (\<lambda>_. None) items) (\<lambda>cs.
       Inr (List.map_filter (\<lambda>k. map_option (batch_of k) (cs k)) cluster_order))"

section \<open>Facts\<close>

lemma merge_same_area:
  "merge_action km a b s score = Inr (action, rule) \<Longrightarrow> action = ''auto_merge'' \<Longrightarrow>
   same_area a b \<and> (fle (Fin 95) s \<or> 90 \<le> score \<or>
     (classify_pattern (re_name a) (re_name b) = ''space_variation'' \<and> same_developer a b))"
proof -
  have "fle (Fin 98) s \<Longrightarrow> fle (Fin 95) s" by (rule fle_trans) (simp_all add: fle_def)
  then show "merge_action km a b s score = Inr (action, rule) \<Longrightarrow> action = ''auto_merge'' \<Longrightarrow> ?thesis"
    unfolding merge_action_def fallback_def Let_def by (auto simp: bindE_Inr_iff split: if_splits)
qed

lemma cluster_key_listed: "cluster_key item \<in> set cluster_order"
  unfolding cluster_key_def cluster_order_def Let_def by simp

lemma cluster_order_distinct: "distinct cluster_order"
  by (simp add: cluster_order_def)

text \<open>What a cluster holds after a number of items have been sorted into the clusters.\<close>

definition cluster_ok :: "review_item list \<Rightarrow> string \<Rightarrow> cluster option \<Rightarrow> bool" where
  "cluster_ok done k c =
     (case c of
        None \<Rightarrow> filter (\<lambda>x. cluster_key x = k) done = []
      | Some c \<Rightarrow> cl_items c = filter (\<lambda>x. cluster_key x = k) done \<and> cl_count c = length (cl_items c) \<and>
          length (cl_scores c) = cl_count c \<and> 0 < cl_count c)"

lemma add_item_ok:
  "add_item item c = Inr c' \<Longrightarrow> cl_items c' = cl_items c @ [item] \<and> cl_count c' = cl_count c + 1 \<and>
   length (cl_scores c') = length (cl_scores c) + 1"
  by (auto simp: add_item_def bindE_Inr_iff)

lemma cluster_step_ok:
  assumes "cluster_step cs item = Inr cs'" and "\<forall>k. cluster_ok done k (cs k)"
  shows "\<forall>k. cluster_ok (done @ [item]) k (cs' k)"
proof -
  from assms(1) obtain c where c: "add_item item (case cs (cluster_key item) of Some c \<Rightarrow> c | None \<Rightarrow> empty_cluster) = Inr c"
    and cs': "cs' = cs(cluster_key item \<mapsto> c)"
    by (auto simp: cluster_step_def bindE_Inr_iff)
  show ?thesis
  proof
    fix k
    show "cluster_ok (done @ [item]) k (cs' k)"
      using add_item_ok [OF c] assms(2) [rule_format, of k]
      by (cases "cs k"; cases "k = cluster_key item") (auto simp: cs' cluster_ok_def empty_cluster_def)
  qed
qed

lemma cluster_fold_ok:
  "foldE cluster_step cs items = Inr cs' \<Longrightarrow> \<forall>k. cluster_ok done k (cs k) \<Longrightarrow> \<forall>k. cluster_ok (done @ items) k (cs' k)"
proof (induction items arbitrary: cs "done")
  case (Cons x xs)
  from Cons.prems(1) obtain cs1 where "cluster_step cs x = Inr cs1" and r: "foldE cluster_step cs1 xs = Inr cs'"
    by (auto simp: bindE_Inr_iff)
  from cluster_step_ok [OF this(1) Cons.prems(2)] show ?case using Cons.IH [OF r, of "done @ [x]"] by simp
qed simp

section \<open>Properties\<close>

text \<open>
  C17: Entries are merged automatically only within one area.  When the evaluation of two entries says
  \<open>auto_merge\<close>, the pair is not known to be different, both entries name the same area, and the names are
  at least 95 percent similar, or differ only in spaces and share the developer, or the score
  reaches 90.
\<close>

theorem auto_merge_same_area:
  assumes "evaluate_duplicate km negative a b = Inr v" and "dv_action v = ''auto_merge''"
  shows "same_area a b \<and> \<not> negative (re_name a) (re_name b) (re_area a) \<and>
    (fle (Fin 95) (name_similarity (re_name a) (re_name b)) \<or> 90 \<le> dv_score v \<or>
     (dv_pattern v = ''space_variation'' \<and> same_developer a b))"
proof -
  have n: "\<not> negative (re_name a) (re_name b) (if re_area a = [] then re_area b else re_area a)"
    using assms by (auto simp: evaluate_duplicate_def Let_def)
  with assms(1) obtain rule where m: "merge_action km a b (name_similarity (re_name a) (re_name b)) (dv_score v) = Inr (dv_action v, rule)"
    and p: "dv_pattern v = classify_pattern (re_name a) (re_name b)"
    by (auto simp: evaluate_duplicate_def Let_def bindE_Inr_iff)
  from merge_same_area [OF m assms(2)] n p show ?thesis by (auto simp: same_area_def)
qed

lemma mset_split: "mset (filter P xs) + mset (filter (\<lambda>x. \<not> P x) xs) = mset xs"
  by (induction xs) auto

lemma concat_filters:
  "distinct ks \<Longrightarrow> (\<And>x. x \<in> set xs \<Longrightarrow> f x \<in> set ks) \<Longrightarrow>
   mset (concat (map (\<lambda>k. filter (\<lambda>x. f x = k) xs) ks)) = mset xs"
proof (induction ks arbitrary: xs)
  case (Cons k ks)
  let ?ys = "filter (\<lambda>x. f x \<noteq> k) xs"
  have "filter (\<lambda>x. f x = k') xs = filter (\<lambda>x. f x = k') ?ys" if "k' \<in> set ks" for k'
    using that Cons.prems(1) by (auto intro: filter_cong)
  then have "concat (map (\<lambda>k. filter (\<lambda>x. f x = k) xs) ks) = concat (map (\<lambda>k. filter (\<lambda>x. f x = k) ?ys) ks)"
    by (metis (no_types, lifting) map_eq_conv)
  moreover have "mset (concat (map (\<lambda>k. filter (\<lambda>x. f x = k) ?ys) ks)) = mset ?ys"
    by (rule Cons.IH) (use Cons.prems in auto)
  ultimately show ?case
    using mset_split [of "\<lambda>x. f x = k" xs] by simp
next
  case Nil
  from Nil.prems(2) [of "hd xs"] show ?case by (cases xs) simp_all
qed

lemma rb_items_batch: "rb_items (batch_of k c) = cl_items c"
  by (simp add: batch_of_def)

lemma map_filter_items:
  "(\<And>k. k \<in> set ks \<Longrightarrow> cluster_ok items k (cs k)) \<Longrightarrow>
   concat (map rb_items (List.map_filter (\<lambda>k. map_option (batch_of k) (cs k)) ks)) =
   concat (map (\<lambda>k. filter (\<lambda>x. cluster_key x = k) items) ks)"
proof (induction ks)
  case (Cons a ks)
  have "cluster_ok items a (cs a)" and
    IH: "concat (map rb_items (List.map_filter (\<lambda>k. map_option (batch_of k) (cs k)) ks)) =
      concat (map (\<lambda>k. filter (\<lambda>x. cluster_key x = k) items) ks)"
    using Cons by simp_all
  then show ?case by (cases "cs a") (simp_all add: cluster_ok_def rb_items_batch map_filter_simps)
qed (simp add: map_filter_simps)

lemma map_filter_keys:
  "map rb_key (List.map_filter (\<lambda>k. map_option (batch_of k) (cs k)) ks) = filter (\<lambda>k. cs k \<noteq> None) ks"
  by (induction ks) (auto simp: List.map_filter_def batch_of_def split: option.splits)

text \<open>
  The review clusters partition the pairs.  The batches of a review hold every pair exactly once - as
  multisets, the items of all batches together are the items given -, their keys are distinct, none is
  empty, and each counts its items.
\<close>

theorem clusters_partition:
  assumes "cluster_review_items items = Inr batches"
  shows "mset (concat (map rb_items batches)) = mset items \<and> distinct (map rb_key batches) \<and>
    list_all (\<lambda>b. rb_count b = length (rb_items b) \<and> 0 < rb_count b) batches"
proof -
  from assms obtain cs where f: "foldE cluster_step (\<lambda>_. None) items = Inr cs"
    and b: "batches = List.map_filter (\<lambda>k. map_option (batch_of k) (cs k)) cluster_order"
    by (auto simp: cluster_review_items_def bindE_Inr_iff)
  have ok: "cluster_ok items k (cs k)" for k
    using cluster_fold_ok [OF f, of "[]"] by (simp add: cluster_ok_def)
  have "mset (concat (map rb_items batches)) = mset items"
    unfolding b map_filter_items [OF ok] by (rule concat_filters) (simp_all add: cluster_order_distinct cluster_key_listed)
  moreover have "distinct (map rb_key batches)"
    unfolding b map_filter_keys by (simp add: cluster_order_distinct)
  moreover have "rb_count x = length (rb_items x) \<and> 0 < rb_count x" if "x \<in> set batches" for x
  proof -
    from that obtain k c where "cs k = Some c" "x = batch_of k c"
      by (auto simp: b List.map_filter_def split: option.splits)
    with ok [of k] show ?thesis by (auto simp: cluster_ok_def batch_of_def)
  qed
  ultimately show ?thesis by (fastforce simp: list_all_iff)
qed

text \<open>
  A missing longitude raises.  Two entries of one area with similar names, both with a latitude but one
  without a longitude, are evaluated to a \<open>TypeError\<close>, unless rule 1 or 2 merges them before.
\<close>

theorem missing_longitude_raises:
  assumes "same_area a b" and "fle (Fin 95) (name_similarity (re_name a) (re_name b))"
    and "\<not> same_developer a b" and "\<not> same_number a b"
    and "coordinate (re_lat a)" and "coordinate (re_lat b)" and "re_lon a = None"
    and "\<not> negative (re_name a) (re_name b) (re_area a)"
  shows "evaluate_duplicate km negative a b = Inl TypeError"
proof -
  have "re_area a \<noteq> []" using assms(1) by (simp add: same_area_def)
  moreover have "same_coordinates km a b = Inl TypeError"
    using assms(5-7) by (auto simp: same_coordinates_def coordinate_def split: option.splits)
  ultimately show ?thesis
    using assms by (simp add: evaluate_duplicate_def Let_def merge_action_def)
qed

text \<open>The suffix of a housing society is cut off before its longer form is looked for.\<close>

lemma chsl_not_removed: "dedup_name ''Lodha CHSL'' = ''lodhal''"
  by code_simp

section \<open>Examples\<close>

definition entry_a :: registry_entry where
  "entry_a = \<lparr>re_name = ''Metro View'', re_area = ''Bandra West'', re_developer = Some ''Lodha'', re_lat = None, re_lon = None\<rparr>"

definition entry_b :: registry_entry where
  "entry_b = \<lparr>re_name = ''Metroview'', re_area = ''bandra west'', re_developer = Some ''Lodha'', re_lat = None, re_lon = None\<rparr>"

definition flat_km :: distance where
  "flat_km la oa lb ob = Fin 0"

definition nothing_known :: "string \<Rightarrow> string \<Rightarrow> string \<Rightarrow> bool" where
  "nothing_known a b area = False"

lemma entry_pattern: "classify_pattern ''Metro View'' ''Metroview'' = ''space_variation''"
  by code_simp

theorem auto_merge_same_area_witness:
  "same_area entry_a entry_b \<and> \<not> nothing_known ''Metro View'' ''Metroview'' ''Bandra West''"
proof -
  have same: "same_area entry_a entry_b" "same_developer entry_a entry_b" by code_simp+
  have "extract_number ''Metro View'' = None" by code_simp
  then have "\<not> same_number entry_a entry_b" by (simp add: same_number_def entry_a_def)
  moreover have "same_coordinates flat_km entry_a entry_b = Inr False"
    by (simp add: same_coordinates_def coordinate_def entry_a_def)
  moreover have "classify_pattern (re_name entry_a) (re_name entry_b) = ''space_variation''"
    by (simp add: entry_a_def entry_b_def entry_pattern)
  ultimately have
    "\<exists>rule. merge_action flat_km entry_a entry_b (name_similarity (re_name entry_a) (re_name entry_b))
       (max 0 (min 100 (raw_score flat_km entry_a entry_b))) = Inr (''auto_merge'', rule)"
    using same by (auto simp: merge_action_def Let_def)
  then obtain v where v: "evaluate_duplicate flat_km nothing_known entry_a entry_b = Inr v" "dv_action v = ''auto_merge''"
    by (auto simp: evaluate_duplicate_def Let_def nothing_known_def)
  from auto_merge_same_area [OF v] show ?thesis by (simp add: entry_a_def entry_b_def)
qed

definition review_a :: review_item where
  "review_a = \<lparr>ri_name_a = Some ''Metro View'', ri_name_b = Some ''Metroview'', ri_pattern = Some ''space_variation'',
     ri_area_a = Some ''Bandra West'', ri_area_b = Some ''Khar'', ri_developer_a = None, ri_developer_b = None,
     ri_score = Some 62, ri_action = None\<rparr>"

definition review_b :: review_item where
  "review_b = review_a\<lparr>ri_pattern := Some ''other'', ri_score := Some 40\<rparr>"

theorem clusters_partition_witness:
  "\<exists>batches. cluster_review_items [review_b, review_a] = Inr batches \<and>
     mset (concat (map rb_items batches)) = {#review_a, review_b#}"
proof -
  obtain batches where b: "cluster_review_items [review_b, review_a] = Inr batches"
    by (simp add: cluster_review_items_def cluster_step_def add_item_def required_key_def review_a_def review_b_def)
  from clusters_partition [OF this] b show ?thesis by simp
qed

end
