(* ===== verification/Leads.thy ===== *)
theory Leads
  imports Matching TableStore PyIO
begin

text \<open>
  \<open>services/lead_ingestion.py\<close> and \<open>services/lead_followup.py\<close>: an inbound lead of a portal is brought into
  one form, matched against the listings of its tenant, and answered by a draft.

  The services are parameters: the tables with an update (locale \<open>update_store\<close>), the clock, the hash
  of the idempotency key and \<open>json.dumps\<close>.
\<close>

section \<open>Fields\<close>

text \<open>\<open>str(value or "").strip()\<close>, and the test \<open>value in (None, "")\<close>.\<close>

definition text_val :: "pyval \<Rightarrow> string" where
  "text_val v = strip (str_or v)"

definition is_blank :: "pyval \<Rightarrow> bool" where
  "is_blank v = (v = VNone \<or> v = VStr [])"

definition first_text :: "pydict \<Rightarrow> string list \<Rightarrow> string" where
  "first_text payload keys =
     (case List.find (\<lambda>k. \<not> is_blank (dget payload k)) keys of Some k \<Rightarrow> text_val (dget payload k) | None \<Rightarrow> [])"

definition field_item :: "pydict \<Rightarrow> pyval \<Rightarrow> pydict" where
  "field_item result item =
     (case item of
        VDict d \<Rightarrow>
          (let name = lower (text_val (or_val (dget d ''name'') (dget d ''key'')));
               v = (case dget d ''values'' of VList (x # xs) \<Rightarrow> x | _ \<Rightarrow> dget d ''value'')
           in if name \<noteq> [] \<and> \<not> is_blank v then dput result name (VStr (text_val v)) else result)
      | _ \<Rightarrow> result)"

definition field_data :: "pydict \<Rightarrow> pydict" where
  "field_data payload =
     (case or_val (dget payload ''field_data'') (dget payload ''fields'') of
        VDict d \<Rightarrow> if d = [] then [] else foldl (\<lambda>r (k, v). dput r (lower k) (VStr (text_val v))) [] d
      | VList items \<Rightarrow> foldl field_item [] items
      | _ \<Rightarrow> [])"

definition number_in :: "string \<Rightarrow> pyfloat option result" where
  "number_in text =
     (case re_search (rx_plain ''%d+(?:%.%d+)?'') (replace '','' [] text) of
        Some m \<Rightarrow> bindE (float_of (VStr (group_or [] 0 m))) (\<lambda>x. Inr (Some x))
      | None \<Rightarrow> Inr None)"

definition money_in :: "string \<Rightarrow> pyfloat option result" where
  "money_in value =
     (let text = replace '','' [] (lower value) in
      bindE (number_in text) (\<lambda>n.
        Inr (map_option
          (\<lambda>x. if re_found (rx_plain ''%b(?:cr|crore|crores)%b'') text then fmul x (Fin 10000000)
               else if re_found (rx_plain ''%b(?:lakh|lac|lacs)%b'') text then fmul x (Fin 100000)
               else if re_found (rx_plain ''%b(?:k|thousand)%b'') text then fmul x (Fin 1000)
               else x) n)))"

definition transaction_of :: "string \<Rightarrow> string \<Rightarrow> string" where
  "transaction_of text value =
     (let candidate = lower value; lowered = lower text in
      if contains candidate ''rent'' \<or> contains candidate ''lease'' then ''rent''
      else if contains candidate ''sale'' \<or> contains candidate ''buy'' \<or> contains candidate ''purchase'' then ''sale''
      else if list_ex (contains lowered) [''rent'', ''lease'', ''rental''] then ''rent'' else ''sale'')"

definition asset_of :: "string \<Rightarrow> string" where
  "asset_of value =
     (if contains value ''commercial'' \<or> contains value ''office'' \<or> contains value ''shop'' then ''commercial''
      else ''residential'')"

definition budget_words :: pattern where
  "budget_words = rx_i ''(?:%u20B9|rs%.?|inr|cr(?:ore)?s?|lakh|lac|k%b)''"

section \<open>The envelope\<close>

text \<open>A field of the payload, or else of the provider's field data.\<close>

definition either_text :: "pydict \<Rightarrow> pydict \<Rightarrow> string list \<Rightarrow> string list \<Rightarrow> string" where
  "either_text payload extra ks fks =
     (let t = first_text payload ks in if t \<noteq> [] then t else first_text extra fks)"

definition or_none :: "string \<Rightarrow> pyval" where
  "or_none s = (if s = [] then VNone else VStr s)"

definition enquiry_text :: "pydict \<Rightarrow> pydict \<Rightarrow> string" where
  "enquiry_text payload extra =
     either_text payload extra [''enquiry_text'', ''message'', ''description'', ''notes'', ''query'']
       [''message'', ''query'', ''requirement'', ''details'', ''project_interest'']"

definition lead_budget :: "pydict \<Rightarrow> pydict \<Rightarrow> string \<Rightarrow> (pyfloat option \<times> pyfloat option) result" where
  "lead_budget payload extra text =
     bindE (money_in (either_text payload extra [''budget_min'', ''min_budget'', ''price_min''] [''budget_min'', ''min_budget'', ''price_min'']))
       (\<lambda>low.
     bindE (money_in (either_text payload extra [''budget_max'', ''budget'', ''max_budget'', ''price_max'']
                       [''budget_max'', ''budget'', ''max_budget'', ''price_max'']))
       (\<lambda>high.
     if high = None \<and> re_found budget_words text then bindE (money_in text) (\<lambda>h. Inr (low, h)) else Inr (low, high)))"

definition parsed_requirement :: "pydict \<Rightarrow> int \<Rightarrow> pydict result" where
  "parsed_requirement payload lead_id =
     (let extra = field_data payload;
          text = enquiry_text payload extra;
          location = either_text payload extra [''micro_market'', ''locality'', ''location'', ''area'']
                       [''locality'', ''location'', ''area'', ''preferred_location''];
          transaction = transaction_of text
            (either_text payload extra [''transaction_type'', ''intent'', ''purpose''] [''transaction_type'', ''intent'', ''purpose'']);
          asset0 = either_text payload extra [''asset_type'', ''property_type''] [''asset_type'', ''property_type''];
          asset = asset_of (lower (if asset0 = [] then ''residential'' else asset0));
          building = either_text payload extra [''building_name'', ''society'', ''project_name'']
                       [''building_name'', ''society'', ''project_name'']
      in bindE (number_in (either_text payload extra [''bhk'', ''configuration''] [''bhk'', ''configuration'', ''bedrooms''])) (\<lambda>bhk.
         bindE (lead_budget payload extra text) (\<lambda>(low, high).
         bindE (number_in (either_text payload extra [''area_min_sqft'', ''area''] [''area_min_sqft'', ''area''])) (\<lambda>area_min.
         bindE (number_in (either_text payload extra [''area_max_sqft'', ''area''] [''area_max_sqft'', ''area''])) (\<lambda>area_max.
           Inr [(''id'', VInt lead_id), (''tenant_id'', dget payload ''tenant_id''),
                (''req_type'', VStr (asset @ ''_'' @ transaction)), (''status'', VStr ''active''),
                (''asset_type'', VStr asset), (''transaction_type'', VStr transaction), (''micro_market'', or_none location),
                (''building_name'', or_none building),
                (''bhk_options'', VList (case bhk of Some x \<Rightarrow> [VFloat x] | None \<Rightarrow> [])),
                (''budget_min'', opt_val low), (''budget_max'', opt_val high),
                (''carpet_area_min_sqft'', opt_val area_min), (''carpet_area_max_sqft'', opt_val area_max)])))))"

definition normalize_lead :: "(pydict \<Rightarrow> string) \<Rightarrow> string \<Rightarrow> pydict \<Rightarrow> int \<Rightarrow> pydict result" where
  "normalize_lead digest provider payload lead_id =
     (let extra = field_data payload;
          external_id = first_text payload [''external_lead_id'', ''leadgen_id'', ''lead_id'', ''id'']
      in bindE (parsed_requirement payload lead_id) (\<lambda>parsed.
           Inr [(''provider'', VStr provider), (''external_lead_id'', or_none external_id),
                (''idempotency_key'', VStr (if external_id \<noteq> [] then external_id else digest payload)),
                (''contact_name'', or_none (either_text payload extra [''contact_name'', ''name'', ''full_name'', ''buyer_name'']
                                     [''full_name'', ''name'', ''buyer_name''])),
                (''contact_phone'', or_none (either_text payload extra [''contact_phone'', ''phone'', ''mobile'']
                                     [''phone_number'', ''phone'', ''mobile''])),
                (''contact_email'', or_none (either_text payload extra [''contact_email'', ''email''] [''email''])),
                (''enquiry_text'', or_none (enquiry_text payload extra)),
                (''property_reference'', or_none (either_text payload extra
                   [''property_reference'', ''property_id'', ''listing_id'', ''project_id''] [''property_id'', ''project''])),
                (''parsed_requirement'', VDict parsed)]))"

section \<open>Matching\<close>

record 's lead_env =
  le_ops :: "'s rest"
  le_update :: "'s \<Rightarrow> string \<Rightarrow> filters \<Rightarrow> pydict \<Rightarrow> 's option"
  le_now :: int

definition lead_match_row :: "pyval \<Rightarrow> string \<Rightarrow> matched \<Rightarrow> pydict" where
  "lead_match_row lead_id tenant m =
     [(''lead_id'', lead_id), (''listing_id'', mt_listing_id m), (''match_score'', VFloat (mt_score m)),
      (''bhk_match'', VBool (mt_bhk m)), (''market_match'', VBool (mt_market m)), (''price_match'', opt_val (mt_price m)),
      (''building_match'', (case mt_building m of Some b \<Rightarrow> VBool b | None \<Rightarrow> VNone)), (''intent_match'', VBool (mt_intent m)),
      (''tenant_id'', VStr tenant)]"

definition lead_requirement :: "string \<Rightarrow> pydict \<Rightarrow> pydict result" where
  "lead_requirement tenant lead =
     (case or_val (dget lead ''parsed_requirement'') (VDict []) of
        VDict d \<Rightarrow>
          Inr (dput (dput (dput d ''id'' (dget lead ''id'')) ''tenant_id'' (VStr tenant)) ''status'' (VStr ''active''))
      | _ \<Rightarrow> Inl TypeError)"

definition scored_listings :: "int \<Rightarrow> pydict \<Rightarrow> pydict list \<Rightarrow> matched list result" where
  "scored_listings now requirement listings =
     bindE (mapE (\<lambda>l. score_candidate now requirement l None) listings) (\<lambda>ms'. Inr (List.map_filter id ms'))"

definition match_inbound_lead :: "'s lead_env \<Rightarrow> string \<Rightarrow> pydict \<Rightarrow> pyfloat \<Rightarrow> int \<Rightarrow> ('s, nat) io" where
  "match_inbound_lead env tenant lead minimum cap =
     bindI (liftI (lead_requirement tenant lead)) (\<lambda>requirement.
     bindI (queryI (\<lambda>s. rest_select (le_ops env) s ''listings_unified''
              [(''tenant_id'', VStr tenant), (''asset_type'', dget requirement ''asset_type''),
               (''transaction_type'', dget requirement ''transaction_type'')])) (\<lambda>rows.
     bindI (liftI (scored_listings (le_now env) requirement (take 2000 rows))) (\<lambda>scored.
     bindI (liftI (cap_matches scored cap minimum)) (\<lambda>selected.
     if \<not> dhas lead ''id'' then liftI (Inl KeyError)
     else
       bindI (writeI (\<lambda>s. rest_delete (le_ops env) s ''inbound_lead_matches''
                [(''tenant_id'', VStr tenant), (''lead_id'', dget lead ''id'')])) (\<lambda>_.
       bindI (if selected = [] then retI ()
              else writeI (\<lambda>s. rest_insert (le_ops env) s ''inbound_lead_matches''
                     (map (lead_match_row (dget lead ''id'') tenant) selected))) (\<lambda>_.
       bindI (writeI (\<lambda>s. le_update env s ''inbound_leads'' [(''id'', dget lead ''id''), (''tenant_id'', VStr tenant)]
                [(''status'', VStr ''matched''), (''processed_at'', VStr (isoformat (le_now env)))])) (\<lambda>_.
         retI (length selected))))))))"

section \<open>Follow-up\<close>

definition priority_for_lead :: "pydict \<Rightarrow> pydict list \<Rightarrow> string result" where
  "priority_for_lead lead rows =
     (if lower (text_val (dget lead ''status'')) \<in> set [''contacted'', ''closed'', ''snoozed'', ''duplicate'', ''failed'']
      then Inr ''done''
      else
        bindE (mapE (\<lambda>r. float_of (or_val (dget r ''match_score'') (VInt 0))) rows) (\<lambda>scores.
          let best = (case scores of [] \<Rightarrow> Fin 0 | x # xs \<Rightarrow> foldl fmax x xs)
          in Inr (if fle (Fin 80) best then ''high'' else if fle (Fin 65) best then ''normal'' else ''review'')))"

definition middle_dot :: string where
  "middle_dot = '' '' @ [CHR 0x99] @ '' ''"

definition draft_title :: "pydict \<Rightarrow> pydict option \<Rightarrow> string" where
  "draft_title lead listing =
     (let row = (case listing of Some l \<Rightarrow> l | None \<Rightarrow> []);
          title = text_val (dget row ''title'');
          pieces = filter (\<lambda>p. p \<noteq> []) (map (\<lambda>k. text_val (dget row k)) [''bhk'', ''building_name'', ''micro_market'']);
          title1 = (if title = [] then join middle_dot pieces else title);
          reference = text_val (dget lead ''property_reference'')
      in if title1 \<noteq> [] then title1
         else if reference \<noteq> [] then reference else ''a property matching your enquiry'')"

definition draft_context :: "pydict \<Rightarrow> string" where
  "draft_context parsed =
     (let details =
        (if truthy (dget parsed ''transaction_type'') then [lower (text_val (dget parsed ''transaction_type''))] else []) @
        (if truthy (dget parsed ''micro_market'') then [text_val (dget parsed ''micro_market'')] else [])
      in if details = [] then [] else '' ('' @ join '', '' details @ '')'')"

definition build_followup_draft :: "pydict \<Rightarrow> pydict option \<Rightarrow> string" where
  "build_followup_draft lead listing =
     (let name = text_val (dget lead ''contact_name'');
          parsed = (case dget lead ''parsed_requirement'' of VDict d \<Rightarrow> d | _ \<Rightarrow> [])
      in ''Hi '' @ (if name = [] then ''there'' else name) @ '', thanks for your enquiry. I found a potential match: '' @
         draft_title lead listing @ draft_context parsed @
         ''. Would you like me to share the details and arrange a viewing?'')"

section \<open>Updates\<close>

locale update_store = batch_store ops for ops :: "'s rest" +
  fixes upd :: "'s \<Rightarrow> string \<Rightarrow> filters \<Rightarrow> pydict \<Rightarrow> 's option"
  assumes update_other_table: "upd s t fs vals = Some s' \<Longrightarrow> t' \<noteq> t \<Longrightarrow> rest_select ops s' t' gs = rest_select ops s t' gs"
    and update_other_row: "upd s t fs vals = Some s' \<Longrightarrow> (k, v) \<in> set fs \<Longrightarrow> (k, v') \<in> set gs \<Longrightarrow> v \<noteq> v' \<Longrightarrow>
      k \<notin> fst ` set vals \<Longrightarrow> rest_select ops s' t gs = rest_select ops s t gs"
begin

lemma update_kept:
  assumes "upd s t' fs vals = Some s'" and "(k, v') \<in> set fs" and "(k, v) \<in> set gs" and "v' \<noteq> v" and "k \<notin> fst ` set vals"
  shows "rest_select ops s' t gs = rest_select ops s t gs"
proof (cases "t' = t")
  case True
  with assms show ?thesis by (intro update_other_row) auto
next
  case False
  with assms(1) show ?thesis by (intro update_other_table) auto
qed

lemma delete_kept:
  assumes "rest_delete ops s t' fs = Some s'" and "(k, v') \<in> set fs" and "(k, v) \<in> set gs" and "v' \<noteq> v"
  shows "rest_select ops s' t gs = rest_select ops s t gs"
proof (cases "t' = t")
  case True
  with assms(1) have "rest_delete ops s t fs = Some s'" by simp
  then show ?thesis by (rule delete_other_row) (fact assms(2-4))+
next
  case False
  with assms(1) show ?thesis by (intro delete_other_table) auto
qed

lemma insert_kept:
  assumes "rest_insert ops s t' rows = Some s'" and "(k, v) \<in> set gs"
    and "\<And>row. row \<in> set rows \<Longrightarrow> distinct (map fst row) \<and> k \<in> fst ` set row \<and> dget row k \<noteq> v"
  shows "rest_select ops s' t gs = rest_select ops s t gs"
proof (cases "t' = t")
  case True
  with assms(1) have "rest_insert ops s t rows = Some s'" by simp
  then show ?thesis by (rule insert_other_row) (fact assms(2,3))+
next
  case False
  with assms(1) show ?thesis by (intro insert_other_table) auto
qed

end

definition tb_update :: "tables \<Rightarrow> string \<Rightarrow> filters \<Rightarrow> pydict \<Rightarrow> tables option" where
  "tb_update s t fs vals =
     Some (s\<lparr>tb_rows := map (\<lambda>(t', r). if t' = t \<and> row_matches fs r then (t', dupdate r vals) else (t', r)) (tb_rows s)\<rparr>)"

lemma filter_map_same:
  "(\<And>x. x \<in> set xs \<Longrightarrow> P (f x) = P x \<and> (P x \<longrightarrow> f x = x)) \<Longrightarrow> filter P (map f xs) = filter P xs"
  by (induction xs) auto

interpretation update_tables: update_store table_ops tb_update
proof
  fix s s' :: tables and t t' k :: string and fs gs :: filters and vals :: pydict and v v' :: pyval
  assume u: "tb_update s t fs vals = Some s'"
  then have rows: "tb_rows s' = map (\<lambda>(t', r). if t' = t \<and> row_matches fs r then (t', dupdate r vals) else (t', r)) (tb_rows s)"
    by (auto simp: tb_update_def)
  show "rest_select table_ops s' t' gs = rest_select table_ops s t' gs" if "t' \<noteq> t"
    unfolding table_ops_def rest.simps tb_select_def rows
    by (rule arg_cong [where f = Some], rule arg_cong [where f = "map snd"], rule filter_map_same) (use that in \<open>auto split: if_splits\<close>)
  show "rest_select table_ops s' t gs = rest_select table_ops s t gs"
    if "(k, v) \<in> set fs" "(k, v') \<in> set gs" "v \<noteq> v'" "k \<notin> fst ` set vals"
  proof -
    have "\<not> row_matches gs (dupdate r vals) \<and> \<not> row_matches gs r" if "row_matches fs r" for r
    proof -
      have "dget r k = v" using that \<open>(k, v) \<in> set fs\<close> by (auto simp: row_matches_def list_all_iff)
      then have "dget (dupdate r vals) k = v" "dget r k = v" using \<open>k \<notin> fst ` set vals\<close> by (simp_all add: dget_dupdate_notin)
      then show ?thesis
        using row_matches_not [OF \<open>(k, v') \<in> set gs\<close>, of r] row_matches_not [OF \<open>(k, v') \<in> set gs\<close>, of "dupdate r vals"]
          \<open>v \<noteq> v'\<close> by simp
    qed
    then show ?thesis
      unfolding table_ops_def rest.simps tb_select_def rows
      by (intro arg_cong [where f = Some] arg_cong [where f = "map snd"] filter_map_same) (auto split: if_splits)
  qed
qed

section \<open>Facts\<close>

lemma row_tenant:
  "distinct (map fst (lead_match_row i tenant m))" "''tenant_id'' \<in> fst ` set (lead_match_row i tenant m)"
  "dget (lead_match_row i tenant m) ''tenant_id'' = VStr tenant"
  by (simp_all add: lead_match_row_def dget_def)

context update_store
begin

lemma keeps_unchanged:
  "(\<And>s s'. w s = Some s' \<Longrightarrow> rest_select ops s' t gs = rest_select ops s t gs) \<Longrightarrow>
   keeps (\<lambda>s. rest_select ops s t gs = X) (writeI w)"
  by (rule keeps_write) simp

lemma keeps_lead:
  assumes v: "VStr tenant \<noteq> v" and "le_ops env = ops" and "le_update env = upd"
  shows "keeps (\<lambda>s. rest_select ops s t ((''tenant_id'', v) # gs) = X) (match_inbound_lead env tenant lead minimum cap)"
proof -
  let ?gs = "(''tenant_id'', v) # gs" and ?k = "''tenant_id''"
  have del: "keeps (\<lambda>s. rest_select ops s t ?gs = X)
      (writeI (\<lambda>s. rest_delete ops s ''inbound_lead_matches'' [(?k, VStr tenant), (''lead_id'', i)]))" for i
    by (rule keeps_unchanged, erule delete_kept [where k = ?k and v' = "VStr tenant" and v = v]) (use v in simp_all)
  have upd: "keeps (\<lambda>s. rest_select ops s t ?gs = X)
      (writeI (\<lambda>s. upd s ''inbound_leads'' [(''id'', i), (?k, VStr tenant)] [(''status'', st), (''processed_at'', p)]))" for i st p
    by (rule keeps_unchanged, erule update_kept [where k = ?k and v' = "VStr tenant" and v = v]) (use v in simp_all)
  have ins: "keeps (\<lambda>s. rest_select ops s t ?gs = X)
      (writeI (\<lambda>s. rest_insert ops s ''inbound_lead_matches'' (map (lead_match_row i tenant) selected)))" for i selected
  proof (rule keeps_unchanged, erule insert_kept [where k = ?k and v = v])
    fix row
    assume "row \<in> set (map (lead_match_row i tenant) selected)"
    then obtain m where "row = lead_match_row i tenant m" by auto
    then show "distinct (map fst row) \<and> ?k \<in> fst ` set row \<and> dget row ?k \<noteq> v"
      using v by (simp only: row_tenant simp_thms not_False_eq_True)
  qed simp
  show ?thesis
    unfolding match_inbound_lead_def assms(2,3) by (intro keeps_intros del upd ins)
qed

end

section \<open>Properties\<close>

text \<open>
  C29: A lead touches its own tenant only.  Over any tables whose update, insert and delete behave as
  documented, matching an inbound lead - returning or raising half-way - leaves every other tenant's rows of
  every table as they were.
\<close>

theorem lead_isolation:
  assumes "update_store (le_ops env) (le_update env)" and "v \<noteq> VStr tenant"
  shows "rest_select (le_ops env) (snd (match_inbound_lead env tenant lead minimum cap s)) t ((''tenant_id'', v) # gs) =
    rest_select (le_ops env) s t ((''tenant_id'', v) # gs)"
  using update_store.keeps_lead [OF assms(1) not_sym [OF assms(2)] refl refl,
      of t gs "rest_select (le_ops env) s t ((''tenant_id'', v) # gs)" lead minimum cap]
  by (simp add: keeps_def)

text \<open>What a typed requirement of a lead can be.\<close>

lemma asset_cases: "asset_of v \<in> set [''commercial'', ''residential'']"
  by (simp add: asset_of_def)

lemma transaction_cases: "transaction_of t v \<in> set [''rent'', ''sale'']"
  by (simp add: transaction_of_def Let_def)

lemma parsed_requirement_type:
  assumes "parsed_requirement payload lead_id = Inr d"
  shows "dget d ''req_type'' \<in> set [VStr ''residential_rent'', VStr ''residential_sale'', VStr ''commercial_rent'', VStr ''commercial_sale'']"
proof -
  from assms obtain v t w where "dget d ''req_type'' = VStr (asset_of v @ ''_'' @ transaction_of t w)"
    unfolding parsed_requirement_def Let_def bindE_Inr_iff split_paired_Ex prod.case sum.inject by (auto simp: dget_def)
  with asset_cases [of v] transaction_cases [of t w] show ?thesis by auto
qed

text \<open>The number of bedrooms is read as the budget: every "BHK" ends in the letter of a thousand.\<close>

lemma bedrooms_read_as_budget:
  "lead_budget [] [] ''Looking for 2 BHK in Bandra'' = Inr (None, Some (Fin 2))"
  "lead_budget [] [] ''2 BHK, budget 1.5 cr'' = Inr (None, Some (Fin 20000000))"
  by code_simp+

text \<open>A text with the word "currently" asks for a rental.\<close>

lemma currently_is_rent: "transaction_of ''Currently looking to buy a flat'' [] = ''rent''"
  by code_simp

definition sample_lead_env :: "tables lead_env" where
  "sample_lead_env = \<lparr>le_ops = table_ops, le_update = tb_update, le_now = sample_now\<rparr>"

definition lead_tables :: tables where
  "lead_tables = \<lparr>tb_rows = [(''inbound_leads'', [(''id'', VInt 5), (''tenant_id'', VStr ''t1''), (''status'', VStr ''new'')])], tb_next = 6\<rparr>"

theorem lead_isolation_witness:
  "tb_select (snd (match_inbound_lead sample_lead_env ''t2'' [(''id'', VInt 5)] (Fin 50) 5 lead_tables)) ''inbound_leads''
     [(''tenant_id'', VStr ''t1'')] = tb_select lead_tables ''inbound_leads'' [(''tenant_id'', VStr ''t1'')]"
  using lead_isolation [of sample_lead_env "VStr ''t1''" "''t2''" "[(''id'', VInt 5)]" "Fin 50" 5 lead_tables "''inbound_leads''" "[]"]
    update_tables.update_store_axioms
  by (simp add: sample_lead_env_def table_ops_def)

end
