(* ===== verification/Retrieval.thy ===== *)
theory Retrieval
  imports PyVal "HOL-Library.Product_Lexorder" "HOL-Library.List_Lexorder" "HOL-Library.Multiset"
begin

text \<open>
  \<open>market/retrieval.py\<close>: how search results are told apart, ranked and deduplicated.  Strings are compared
  by the codes of their characters, which for the characters beyond ASCII is the order of the table
  \<open>code_page\<close>.
\<close>

section \<open>Identity\<close>

definition search_text :: "pyval \<Rightarrow> string" where
  "search_text v = join '' '' (split_ws (casefold (nfkc (str_or v))))"

text \<open>\<open>row.get(k1) or row.get(k2) or ...\<close>.\<close>

fun first_of :: "pydict \<Rightarrow> string list \<Rightarrow> pyval" where
  "first_of row [] = VStr []"
| "first_of row (k # ks) = or_val (dget row k) (first_of row ks)"

type_synonym identity = "string \<times> string \<times> string"

definition result_identity :: "pydict \<Rightarrow> identity" where
  "result_identity row =
     (let raw_id = py_str (first_of row [''raw_message_id'', ''message_id'']);
          source_id = py_str (first_of row [''listing_id'', ''requirement_id'', ''id'']);
          group = search_text (first_of row [''group_name'', ''group_jid'']);
          text = take 240 (search_text (first_of row [''source_text'', ''original_message'', ''message'']))
      in (raw_id, if source_id \<noteq> [] then source_id else group, text))"

fun dedupe_rows :: "identity list \<Rightarrow> pydict list \<Rightarrow> pydict list" where
  "dedupe_rows seen [] = []"
| "dedupe_rows seen (row # rows) =
     (let key = result_identity row in
      if key \<in> set seen then dedupe_rows seen rows else row # dedupe_rows (key # seen) rows)"

definition dedupe_results :: "pydict list \<Rightarrow> pydict list" where
  "dedupe_results rows = dedupe_rows [] rows"

section \<open>Ranking\<close>

definition timestamp_of :: "pydict \<Rightarrow> string" where
  "timestamp_of row = py_str (first_of row [''timestamp'', ''last_seen'', ''created_at''])"

definition confidence_labels :: "(string \<times> int) list" where
  "confidence_labels =
    [(''very_low'', 20), (''low'', 40), (''medium'', 65), (''med'', 65), (''moderate'', 65), (''high'', 85), (''very_high'', 95)]"

definition percent_of :: "pyfloat \<Rightarrow> int result" where
  "percent_of number =
     (let n = (if flt (Fin 1) number then fdiv number (Fin 100) else number) in
      bindE (int_of (VFloat (fmul n (Fin 100)))) (\<lambda>i. Inr (max 0 (min 100 i))))"

definition label_of :: "pyval \<Rightarrow> string" where
  "label_of v = replace ''-'' ''_'' (replace '' '' ''_'' (search_text v))"

definition label_score :: "string \<Rightarrow> int result" where
  "label_score label =
     (case map_of confidence_labels label of
        Some n \<Rightarrow> Inr n
      | None \<Rightarrow>
          (case (if endswith label ''%''
                 then bindE (float_of (VStr (rstrip_chars ''%'' label))) (\<lambda>x. Inr (fdiv x (Fin 100)))
                 else float_of (VStr label)) of
             Inr number \<Rightarrow> percent_of number
           | Inl e \<Rightarrow> if e = ValueError then Inr 0 else Inl e))"

definition confidence_score :: "pyval \<Rightarrow> int result" where
  "confidence_score v =
     (case v of
        VNone \<Rightarrow> Inr 0
      | VBool _ \<Rightarrow> Inr 0
      | VInt _ \<Rightarrow> bindE (float_of v) percent_of
      | VFloat _ \<Rightarrow> bindE (float_of v) percent_of
      | _ \<Rightarrow> label_score (label_of v))"

definition zfill :: "nat \<Rightarrow> string \<Rightarrow> string" where
  "zfill n s = replicate (n - length s) (CHR ''0'') @ s"

type_synonym rank = "int \<times> int \<times> int \<times> string \<times> string \<times> string \<times> string"

definition stable_tiebreaker :: "pydict \<Rightarrow> string \<times> string \<times> string" where
  "stable_tiebreaker row =
     (let identifier = py_str (first_of row [''raw_message_id'', ''message_id'', ''id''])
      in (str_or (dget row ''source_schema''), zfill 12 (filter is_digit identifier), identifier))"

definition scope_score :: "pydict \<Rightarrow> int" where
  "scope_score row =
     (let scope = casefold (py_str (or_val (dget row ''match_scope'') (VStr ''unspecified'')))
      in if scope = ''exact'' then 3 else if scope = ''nearby'' then 2 else if scope = ''nearby_or_broad'' then 1 else 0)"

definition rank_of :: "pydict \<Rightarrow> rank result" where
  "rank_of row =
     bindE (confidence_score (or_val (dget row ''confidence'') (dget row ''extraction_confidence''))) (\<lambda>c.
       case stable_tiebreaker row of (schema, padded, identifier) \<Rightarrow>
         Inr (scope_score row,
              if truthy (dget row ''source_text'') \<or> truthy (dget row ''original_message'') then 1 else 0,
              c, timestamp_of row, schema, padded, identifier))"

text \<open>\<open>sorted(rows, key=score, reverse=True)\<close>: descending, and rows of equal rank keep their order.\<close>

definition sort_retrieval_results :: "pydict list \<Rightarrow> pydict list result" where
  "sort_retrieval_results rows =
     bindE (mapE (\<lambda>row. bindE (rank_of row) (\<lambda>k. Inr (k, row))) (dedupe_results rows)) (\<lambda>keyed.
       Inr (map snd (rev (sort_key fst (rev keyed)))))"

section \<open>Facts\<close>

text \<open>The ranks of a list of rows that have one.\<close>

definition rank :: "pydict \<Rightarrow> rank" where
  "rank row = projr (rank_of row)"

lemma keyed_rows_eq:
  "mapE (\<lambda>row. bindE (rank_of row) (\<lambda>k. Inr (k, row))) rows = Inr keyed \<Longrightarrow> keyed = map (\<lambda>row. (rank row, row)) rows"
  by (induction rows arbitrary: keyed) (auto simp: bindE_Inr_iff rank_def)

lemma insort_pair: "insort_key fst (f x, x) (map (\<lambda>y. (f y, y)) ys) = map (\<lambda>y. (f y, y)) (insort_key f x ys)"
  by (induction ys) auto

lemma sort_pairs: "sort_key fst (map (\<lambda>y. (f y, y)) xs) = map (\<lambda>y. (f y, y)) (sort_key f xs)"
  by (induction xs) (simp_all add: insort_pair)

lemma sort_retrieval_eq:
  "sort_retrieval_results rows = Inr out \<Longrightarrow> out = rev (sort_key rank (rev (dedupe_results rows)))"
proof -
  assume "sort_retrieval_results rows = Inr out"
  then obtain keyed where k: "mapE (\<lambda>row. bindE (rank_of row) (\<lambda>k. Inr (k, row))) (dedupe_results rows) = Inr keyed"
    and out: "out = map snd (rev (sort_key fst (rev keyed)))"
    by (auto simp: sort_retrieval_results_def bindE_Inr_iff)
  from keyed_rows_eq [OF k] show ?thesis
    unfolding out by (simp add: rev_map sort_pairs o_def)
qed

lemma dedupe_set: "set (dedupe_rows seen rows) \<subseteq> set rows"
  by (induction seen rows rule: dedupe_rows.induct) (auto simp: Let_def)

lemma dedupe_identities:
  "result_identity ` set (dedupe_rows seen rows) = result_identity ` set rows - set seen \<and>
   distinct (map result_identity (dedupe_rows seen rows))"
proof (induction seen rows rule: dedupe_rows.induct)
  case (2 seen row rows)
  show ?case
  proof (cases "result_identity row \<in> set seen")
    case True
    with 2(1) [OF refl True] show ?thesis by auto
  next
    case False
    note IH = 2(2) [OF refl False]
    then have "result_identity row \<notin> result_identity ` set (dedupe_rows (result_identity row # seen) rows)" by auto
    with IH False show ?thesis by (auto simp: Let_def)
  qed
qed simp

lemma dedupe_distinct: "distinct (map result_identity rows) \<Longrightarrow> result_identity ` set rows \<inter> set seen = {} \<Longrightarrow>
   dedupe_rows seen rows = rows"
  by (induction seen rows rule: dedupe_rows.induct) (auto simp: Let_def)

text \<open>More rows behind leave the first rows as they are.\<close>

lemma dedupe_prefix: "prefix (dedupe_rows seen xs) (dedupe_rows seen (xs @ ys))"
  by (induction seen xs rule: dedupe_rows.induct) (auto simp: Let_def)

lemma mapE_perm:
  "mapE f xs = Inr ys \<Longrightarrow> mset xs' = mset xs \<Longrightarrow> \<exists>ys'. mapE f xs' = Inr ys'"
proof -
  assume m: "mapE f xs = Inr ys" and "mset xs' = mset xs"
  then have set: "set xs' = set xs" by (metis mset_eq_setD)
  from m have "\<forall>x \<in> set xs. \<exists>y. f x = Inr y"
    by (auto simp: mapE_Inr list_all2_conv_all_nth in_set_conv_nth)
  with set have "\<forall>x \<in> set xs'. \<exists>y. f x = Inr y" by simp
  then show ?thesis by (induction xs') auto
qed

lemma percent_bounds: "percent_of x = Inr n \<Longrightarrow> 0 \<le> n \<and> n \<le> 100"
  by (auto simp: percent_of_def Let_def bindE_Inr_iff)

lemma label_bounds: "label_score s = Inr n \<Longrightarrow> 0 \<le> n \<and> n \<le> 100"
  by (auto simp: label_score_def confidence_labels_def dest: percent_bounds split: option.splits sum.splits if_splits)

lemma confidence_bounds: "confidence_score v = Inr n \<Longrightarrow> 0 \<le> n \<and> n \<le> 100"
  by (cases v) (auto simp: confidence_score_def bindE_Inr_iff dest: percent_bounds label_bounds)

section \<open>Properties\<close>

text \<open>
  C37: Results are ranked and unique.  The rows returned are rows of the input in descending order of rank; no
  two have the same identity, and every identity of the input is represented.
\<close>

theorem retrieval_ranked:
  assumes "sort_retrieval_results rows = Inr out"
  shows "sorted_wrt (\<lambda>a b. rank b \<le> rank a) out \<and> set out \<subseteq> set rows \<and>
    distinct (map result_identity out) \<and> result_identity ` set out = result_identity ` set rows"
proof -
  note out = sort_retrieval_eq [OF assms]
  have "sorted_wrt (\<lambda>a b. rank a \<le> rank b) (sort_key rank (rev (dedupe_results rows)))"
    using sorted_sort_key [of rank "rev (dedupe_results rows)"] by (simp add: sorted_map)
  then have "sorted_wrt (\<lambda>a b. rank b \<le> rank a) out" unfolding out by (simp add: sorted_wrt_rev)
  moreover have m: "mset out = mset (dedupe_results rows)" unfolding out by simp
  then have "mset (map result_identity out) = mset (map result_identity (dedupe_results rows))" by simp
  then have "distinct (map result_identity out)"
    using dedupe_identities [of "[]" rows] by (metis dedupe_results_def mset_eq_imp_distinct_iff)
  moreover have "set out = set (dedupe_results rows)" using m by (metis mset_eq_setD)
  ultimately show ?thesis
    using dedupe_identities [of "[]" rows] dedupe_set [of "[]" rows] by (simp add: dedupe_results_def)
qed

text \<open>
  The ranking does not depend on the order of the rows.  When the rows have pairwise different
  identities and pairwise different ranks, any permutation of them is sorted into the same list - which is
  what makes pages of a growing result consistent.
\<close>

theorem retrieval_order_free:
  assumes "sort_retrieval_results rows = Inr out" and "mset rows' = mset rows"
    and "distinct (map result_identity rows)" and "distinct (map rank rows)"
  shows "sort_retrieval_results rows' = Inr out"
proof -
  have d: "dedupe_results rows = rows" "dedupe_results rows' = rows'"
  proof -
    have "mset (map result_identity rows') = mset (map result_identity rows)" using assms(2) by simp
    then have "distinct (map result_identity rows')" using assms(3) mset_eq_imp_distinct_iff by blast
    with assms(3) show "dedupe_results rows = rows" "dedupe_results rows' = rows'"
      by (simp_all add: dedupe_results_def dedupe_distinct)
  qed
  from assms(1) obtain keyed where "mapE (\<lambda>row. bindE (rank_of row) (\<lambda>k. Inr (k, row))) rows = Inr keyed"
    by (auto simp: sort_retrieval_results_def d bindE_Inr_iff)
  from mapE_perm [OF this assms(2)]
  obtain keyed' where k': "mapE (\<lambda>row. bindE (rank_of row) (\<lambda>k. Inr (k, row))) rows' = Inr keyed'" by blast
  obtain out' where out': "sort_retrieval_results rows' = Inr out'"
    by (rule that, unfold sort_retrieval_results_def d k' bindE_simps, rule refl)
  have "sort_key rank (rev rows') = sort_key rank (rev rows)"
  proof (rule map_sorted_distinct_set_unique [of rank])
    show "inj_on rank (set (sort_key rank (rev rows')) \<union> set (sort_key rank (rev rows)))"
    proof -
      have "set rows' = set rows" using assms(2) by (rule mset_eq_setD)
      with assms(4) show ?thesis by (simp add: distinct_map)
    qed
    have "mset (map rank (sort_key rank (rev xs))) = mset (map rank xs)" for xs by simp
    then have "distinct (map rank (sort_key rank (rev xs))) = distinct (map rank xs)" for xs
      by (rule mset_eq_imp_distinct_iff)
    moreover have "mset (map rank rows') = mset (map rank rows)" using assms(2) by simp
    then have "distinct (map rank rows') = distinct (map rank rows)" by (rule mset_eq_imp_distinct_iff)
    ultimately show "distinct (map rank (sort_key rank (rev rows')))" "distinct (map rank (sort_key rank (rev rows)))"
      using assms(4) by simp_all
    show "set (sort_key rank (rev rows')) = set (sort_key rank (rev rows))"
      using mset_eq_setD [OF assms(2)] by simp
  qed simp_all
  with sort_retrieval_eq [OF assms(1)] sort_retrieval_eq [OF out'] show ?thesis by (simp add: d out')
qed

text \<open>A confidence that is no number stops the ranking: the conversion of its percentage is outside the handler.\<close>

lemma nan_confidence_raises:
  "confidence_score (VStr ''nan'') = Inl ValueError" "confidence_score (VStr ''inf'') = Inl OverflowError"
  by code_simp+

section \<open>Examples\<close>

definition exact_row :: pydict where
  "exact_row = [(''id'', VInt 1), (''match_scope'', VStr ''exact''), (''source_text'', VStr ''2 BHK Bandra'')]"

definition nearby_row :: pydict where
  "nearby_row = [(''id'', VInt 2), (''match_scope'', VStr ''nearby''), (''source_text'', VStr ''2 BHK Khar'')]"

lemma sample_sorted:
  "rank_of exact_row = Inr (3, 1, 0, [], [], ''000000000001'', ''1'')"
  "rank_of nearby_row = Inr (2, 1, 0, [], [], ''000000000002'', ''2'')"
  "result_identity exact_row = ([], ''1'', ''2 bhk bandra'')" "result_identity nearby_row = ([], ''2'', ''2 bhk khar'')"
  by code_simp+

lemma sample_results: "sort_retrieval_results [nearby_row, exact_row] = Inr [exact_row, nearby_row]"
  by (simp add: sort_retrieval_results_def dedupe_results_def Let_def sample_sorted)

theorem retrieval_ranked_witness: "rank nearby_row \<le> rank exact_row \<and> distinct (map result_identity [exact_row, nearby_row])"
  using retrieval_ranked [OF sample_results] by simp

theorem retrieval_order_free_witness: "sort_retrieval_results [exact_row, nearby_row] = Inr [exact_row, nearby_row]"
  by (rule retrieval_order_free [OF sample_results]) (simp_all add: sample_sorted rank_def)

end
