(* ===== verification/RegexLength.thy ===== *)
theory RegexLength
  imports PyRegex
begin

text \<open>
  The least length of a match, and what it says of a substitution: a replacement that is shorter than
  every match makes a text shorter wherever the pattern is found.
\<close>

fun min_len :: "re \<Rightarrow> nat" where
  "min_len (RChar _) = 1"
| "min_len RAny = 1"
| "min_len (RCls _ _) = 1"
| "min_len (RSeq r1 r2) = min_len r1 + min_len r2"
| "min_len (RAlt r1 r2) = min (min_len r1) (min_len r2)"
| "min_len (RGrp _ r) = min_len r"
| "min_len _ = 0"

lemma min_len_lang: "t \<in> lang ic r \<Longrightarrow> min_len r \<le> length t"
  by (induction r arbitrary: t) (auto simp: add_mono min_def split: if_splits, (meson le_trans nat_le_linear)+)

lemma way_min_len: "st \<in> set (ways p b a) \<Longrightarrow> min_len (rx p) \<le> length (m_text (mk_match b st))"
  unfolding ways_def by (drule ms_lang) (auto simp: mk_match_def dest: min_len_lang split: prod.splits)

lemma re_finditer_min_len: "m \<in> set (re_finditer p s) \<Longrightarrow> min_len (rx p) \<le> length (m_text m)"
  by (drule re_finditer_is_way) (auto intro: way_min_len)

lemma re_search_min_len: "re_search p s = Some m \<Longrightarrow> min_len (rx p) \<le> length (m_text m)"
  by (auto simp: re_search_def dest!: search_from_Some intro: way_min_len)

lemma re_sub_not_longer:
  assumes "length r \<le> min_len (rx p)"
  shows "length (re_sub p r s) \<le> length s"
proof -
  obtain xs t where sc: "scan p False [] s = (xs, t)" by fastforce
  have s: "concat (map (\<lambda>(gap, m). gap @ m_text m) xs) @ t = s" by (rule scan_partition [OF sc])
  have m: "length r \<le> length (m_text m)" if "(gap, m) \<in> set xs" for gap m
    using that assms re_finditer_min_len [of m p s] by (force simp: re_finditer_def sc)
  then have "length (concat (map (\<lambda>(gap, m). gap @ r) xs)) \<le> length (concat (map (\<lambda>(gap, m). gap @ m_text m) xs))"
    by (induction xs) (force intro: add_mono)+
  with s show ?thesis by (auto simp: re_sub_def re_sub_fun_def sc)
qed

lemma re_sub_shrinks:
  assumes "re_found p s" and "length r < min_len (rx p)"
  shows "length (re_sub p r s) < length s"
proof -
  obtain xs t where sc: "scan p False [] s = (xs, t)" by fastforce
  have s: "concat (map (\<lambda>(gap, m). gap @ m_text m) xs) @ t = s" by (rule scan_partition [OF sc])
  have "re_finditer p s \<noteq> []" using assms(1) by (simp add: re_found_def re_finditer_Nil)
  then have ne: "xs \<noteq> []" by (auto simp: re_finditer_def sc)
  have m: "length r < length (m_text m)" if "(gap, m) \<in> set xs" for gap m
    using that assms(2) re_finditer_min_len [of m p s] by (force simp: re_finditer_def sc)
  have "xs \<noteq> [] \<Longrightarrow> length (concat (map (\<lambda>(gap, m). gap @ r) xs)) < length (concat (map (\<lambda>(gap, m). gap @ m_text m) xs))"
    using m
  proof (induction xs)
    case (Cons x xs)
    then show ?case by (cases x; cases "xs = []") (force intro: add_strict_mono)+
  qed simp
  then show ?thesis using ne s by (auto simp: re_sub_def re_sub_fun_def sc)
qed

end
