(* ===== verification/ExtractionQuality.thy ===== *)
theory ExtractionQuality
  imports SourceBoundary RegexLength RegexRuns
begin

text \<open>
  \<open>extraction_quality.py\<close>: the guards between the answer of a model and a typed row.  Broker names that
  the source does not state are removed, the confidence of an item is one number, a price that
  contradicts a labelled rate of the source is replaced by it, and a building name is checked and repaired
  from the lines of its own slice.
\<close>

section \<open>Broker identity\<close>

definition grounding_tokens :: "pyval \<Rightarrow> string list" where
  "grounding_tokens v =
     filter (\<lambda>t. 2 \<le> length t) (re_findall (rx_plain ''[a-z0-9]+'') (casefold (str_or v)))"

definition broker_fields :: "string list" where
  "broker_fields = [''broker_name'', ''broker_company'', ''broker_rera_number'']"

text \<open>The state of the loop: the item, its flags, and whether something was removed and the row blocked.\<close>

type_synonym broker_state = "pydict \<times> pyval list \<times> bool \<times> bool"

definition unsupported :: "string list \<Rightarrow> bool \<Rightarrow> string \<Rightarrow> pyval \<Rightarrow> bool" where
  "unsupported source_tokens transport field v =
     (\<not> blank_value v \<and> \<not> (field = ''broker_name'' \<and> transport) \<and>
      grounding_tokens v \<noteq> [] \<and> \<not> list_ex (\<lambda>t. t \<in> set source_tokens) (grounding_tokens v))"

definition broker_step :: "string list \<Rightarrow> bool \<Rightarrow> bool \<Rightarrow> broker_state \<Rightarrow> string \<Rightarrow> broker_state" where
  "broker_step source_tokens transport has_phone st field =
     (case st of (item, flags, issue, blocked) \<Rightarrow>
        if unsupported source_tokens transport field (dget item field)
        then (dput item field VNone, flags @ [VStr (field @ ''_not_in_source_slice'')], True,
              blocked \<or> (field = ''broker_name'' \<and> \<not> transport \<and> \<not> has_phone))
        else st)"

definition zero_confidence :: "pydict \<Rightarrow> pydict" where
  "zero_confidence item =
     dput (dput (dput item ''extraction_confidence'' (VStr ''low''))
       ''extraction_confidence_score'' (VFloat (Fin 0))) ''confidence'' (VFloat (Fin 0))"

definition mark_broker_issue :: "bool \<Rightarrow> bool \<Rightarrow> pydict \<Rightarrow> pydict" where
  "mark_broker_issue issue blocked item =
     (if \<not> issue then item
      else
        (let marked = dput item ''needs_review'' (VBool True)
         in if blocked \<or> (is_none (dget marked ''extraction_confidence_score'') \<and> is_none (dget marked ''confidence''))
            then zero_confidence marked else marked))"

definition block_write :: "bool \<Rightarrow> pydict \<Rightarrow> pydict" where
  "block_write blocked item =
     (if blocked
      then zero_confidence (dput (dput item ''needs_review'' (VBool True)) ''write_blocked'' (VBool True))
      else item)"

definition from_transport :: "pydict \<Rightarrow> bool" where
  "from_transport item = truthy (dget_or item ''_broker_name_from_transport'' (VBool False))"

definition has_broker_phone :: "pydict \<Rightarrow> bool" where
  "has_broker_phone item = (strip (str_or (dget item ''broker_phone'')) \<noteq> [])"

definition apply_broker_field_grounding :: "pydict \<Rightarrow> pyval \<Rightarrow> pydict result" where
  "apply_broker_field_grounding item0 source_text =
     bindE (list_or_empty (dget item0 ''validation_flags'')) (\<lambda>flags0.
       let transport = from_transport item0; item = ddel item0 ''_broker_name_from_transport'' in
       case foldl (broker_step (grounding_tokens source_text) transport (has_broker_phone item))
              (item, flags0, False, False) broker_fields of
         (item', flags, issue, blocked) \<Rightarrow>
           bindE (fromkeys flags) (\<lambda>flags'.
             Inr (dput (block_write blocked (mark_broker_issue issue blocked item'))
                    ''validation_flags'' (VList flags'))))"

section \<open>Totals that are no property price\<close>

definition region_config :: "(string \<times> (string \<times> int) list) list" where
  "region_config =
    [(''mumbai'', [(''rent_min'', 1000), (''sale_min'', 100000), (''commercial_sale_min'', 1000000)]),
     (''delhi'', [(''rent_min'', 3000), (''sale_min'', 200000), (''commercial_sale_min'', 2000000)])]"

definition default_region :: string where
  "default_region = ''mumbai''"

text \<open>
  The price floors of \<open>get_region_config(region)\<close>; the environment variable \<open>EXTRACTION_REGION\<close>, when
  it is set, stands in for a missing region.
\<close>

definition price_floors :: "string option \<Rightarrow> string option \<Rightarrow> (string \<times> int) list" where
  "price_floors env region =
     (let chosen = (if text_or region \<noteq> [] then text_or region
                    else case env of Some e \<Rightarrow> e | None \<Rightarrow> default_region)
      in case map_of region_config (casefold (strip chosen)) of
           Some floors \<Rightarrow> floors
         | None \<Rightarrow> the (map_of region_config default_region))"

definition floor_of :: "(string \<times> int) list \<Rightarrow> string \<Rightarrow> int \<Rightarrow> int" where
  "floor_of floors k dflt = (case map_of floors k of Some n \<Rightarrow> n | None \<Rightarrow> dflt)"

definition price_total_needs_quarantine ::
    "string option \<Rightarrow> pyval \<Rightarrow> pyval \<Rightarrow> pyval \<Rightarrow> string option \<Rightarrow> bool result" where
  "price_total_needs_quarantine env transaction_type amount asset_type region =
     bindE (catchE (bindE (float_of amount) (\<lambda>x. Inr (Some x))) [TypeError, ValueError] (Inr None)) (\<lambda>a.
       Inr (case a of
              None \<Rightarrow> False
            | Some x \<Rightarrow>
                (let tx = casefold (strip (str_or transaction_type));
                     asset = casefold (strip (str_or asset_type));
                     floors = price_floors env region
                 in if fle x (Fin 0) then False
                    else if tx = ''rent'' then flt x (fint (floor_of floors ''rent_min'' 1000))
                    else if tx = ''sale'' then
                      flt x (fint (floor_of floors
                        (if asset = ''commercial'' then ''commercial_sale_min'' else ''sale_min'') 100000))
                    else False)))"

section \<open>Confidence\<close>

definition unit_score :: "pyval \<Rightarrow> pyfloat option result" where
  "unit_score v =
     catchE (bindE (float_of v) (\<lambda>x. Inr (if x = NaN then None else Some (fmax (Fin 0) (fmin (Fin 1) x)))))
       [TypeError, ValueError] (Inr None)"

definition label_scores :: "(string \<times> pyfloat) list" where
  "label_scores = [(''high'', flit (9 / 10)), (''medium'', flit (7 / 10)), (''low'', flit (4 / 10))]"

definition review_cap :: pyfloat where
  "review_cap = flit (6 / 10)"

definition high_mark :: pyfloat where
  "high_mark = flit (85 / 100)"

definition confidence_label :: "pyfloat \<Rightarrow> string" where
  "confidence_label score =
     (if fle high_mark score then ''high'' else if fle review_cap score then ''medium'' else ''low'')"

text \<open>The score the item brings: its own, or that of its label where it brings none.\<close>

definition stated_score :: "pydict \<Rightarrow> pyfloat result" where
  "stated_score item =
     bindE (unit_score (dget item ''extraction_confidence_score'')) (\<lambda>score.
       if score = None \<and> is_none (dget item ''extraction_confidence_score'')
       then bindE (unit_score (dget item ''confidence'')) (\<lambda>c.
              Inr (case map_of label_scores (clean_lower (dget item ''extraction_confidence'')) of
                     Some x \<Rightarrow> x
                   | None \<Rightarrow> (case c of Some x \<Rightarrow> x | None \<Rightarrow> Fin 0)))
       else Inr (case score of Some x \<Rightarrow> x | None \<Rightarrow> Fin 0))"

definition needs_review_now :: "pydict \<Rightarrow> bool \<Rightarrow> bool" where
  "needs_review_now item force_review = (force_review \<or> dget item ''needs_review'' = VBool True)"

definition canonicalize_extraction_confidence :: "pydict \<Rightarrow> bool \<Rightarrow> pydict result" where
  "canonicalize_extraction_confidence item force_review =
     bindE (stated_score item) (\<lambda>model.
     bindE (bindE (list_or_empty (dget item ''validation_flags'')) fromkeys) (\<lambda>reasons.
       let review = needs_review_now item force_review;
           score = (if review then fmin model review_cap else model)
       in Inr (dput (dput (dput (dput (dput (dput item
                 ''model_confidence'' (VFloat model)) ''pipeline_review'' (VBool review))
                 ''pipeline_review_reasons'' (VList reasons))
                 ''extraction_confidence_score'' (VFloat score))
                 ''extraction_confidence'' (VStr (confidence_label score)))
                 ''confidence'' (VFloat score))))"

section \<open>A labelled rate of the source\<close>

definition simple_psf_re :: pattern where
  "simple_psf_re = rx_i (
     ''%b(?P<label>price%s+sale|sale%s+price|sale|quote|rent|rental|rate)%b'' @
     ''[^0-9%n]{0,80}(?P<amount>%d[%d,]*(?:%.%d+)?)%s*'' @
     ''(?P<multiplier>k|thousand|lakh|lac|cr)?%s*(?:rs%.?%s*)?'' @
     ''(?:psf|per%s*/?%s*sq%.?%s*ft|per%s+sqft|per%s+square%s+feet)%b'')"

definition psf_multiplier :: "string \<Rightarrow> int" where
  "psf_multiplier u =
     (case map_of [(''k'', 1000), (''thousand'', 1000), (''lakh'', 100000), (''lac'', 100000)] u of
        Some n \<Rightarrow> n | None \<Rightarrow> 1)"

definition psf_quote :: "rmatch \<Rightarrow> (pyfloat \<times> string) option" where
  "psf_quote m =
     map_option
       (\<lambda>a. (fmul a (fint (psf_multiplier (lower (text_or (m_named simple_psf_re ''multiplier'' m))))),
             strip (m_text m)))
       (parse_float (replace '','' [] (text_or (m_named simple_psf_re ''amount'' m))))"

definition extract_simple_psf_rate :: "pyval \<Rightarrow> (pyfloat \<times> string) option" where
  "extract_simple_psf_rate source_text =
     (case List.map_filter psf_quote (re_finditer simple_psf_re (str_or source_text)) of
        [] \<Rightarrow> None
      | q # qs \<Rightarrow> if list_all (\<lambda>x. feq (fst x) (fst q)) qs then Some q else None)"

definition psf_mismatch :: "pyfloat option \<Rightarrow> pyfloat \<Rightarrow> bool" where
  "psf_mismatch ai source =
     (case ai of
        None \<Rightarrow> False
      | Some a \<Rightarrow> flt (Fin 0) a \<and> flt (Fin 0) source \<and> flt (Fin 2) (fdiv (fmax a source) (fmin a source)))"

definition psf_corrected :: "pydict \<Rightarrow> pydict \<Rightarrow> pyfloat \<times> string \<Rightarrow> pydict result" where
  "psf_corrected item price quote =
     bindE (list_or_empty (dget item ''validation_flags'')) (\<lambda>flags.
     bindE (fromkeys (flags @ [VStr ''price_psf_ai_mismatch_review''])) (\<lambda>flags'.
       Inr (dput (dput (dput item
              ''price'' (VDict (dput (dput (dput price ''amount'' (VFloat (fst quote)))
                ''unit'' (VStr ''per_sqft'')) ''raw_price_text'' (VStr (snd quote)))))
              ''needs_review'' (VBool True)) ''validation_flags'' (VList flags'))))"

definition apply_price_sanity_guard :: "pydict \<Rightarrow> pyval \<Rightarrow> pydict result" where
  "apply_price_sanity_guard item source_text =
     (case dget item ''price'' of
        VDict price \<Rightarrow>
          (case extract_simple_psf_rate source_text of
             None \<Rightarrow> canonicalize_extraction_confidence item False
           | Some quote \<Rightarrow>
               bindE (catchE (bindE (float_of (dget price ''amount'')) (\<lambda>x. Inr (Some x)))
                        [TypeError, ValueError] (Inr None)) (\<lambda>ai.
                 if psf_mismatch ai (fst quote)
                 then bindE (psf_corrected item price quote) (\<lambda>c. canonicalize_extraction_confidence c True)
                 else canonicalize_extraction_confidence item False))
      | _ \<Rightarrow> canonicalize_extraction_confidence item False)"

section \<open>Lines that are no building name\<close>

definition price_only_re :: pattern where
  "price_only_re = rx_i (
     ''^%s*(?:%u20B9|rs%.?|inr)?%s*%d+(?:[,.]%d+)?%s*'' @
     ''(?:k|thousand|l|lac|lacs|lakh|lakhs|cr|crore|crores)%b'' @
     ''(?:%s*(?:/%s*(?:month|monthy|mo)|per%s*month))?%s*'' @
     ''(?:negotiable)?%s*$'')"

definition config_only_re :: pattern where
  "config_only_re = rx_i ''^%s*%d+(?:%.%d+)?%s*(?:bhk|rk)%s*$''"

definition configuration_label_re :: pattern where
  "configuration_label_re = rx_i ''^%s*(?:config|configuration)(?:%s+type)?%s*$''"

definition number_only_re :: pattern where
  "number_only_re = rx_i ''^%s*[%d,.]+%s*(?:sq%.?%s*ft|sqft|sft)?%s*$''"

definition phone_only_re :: pattern where
  "phone_only_re = rx_plain ''^%s*(?:%+?91[-%s]?)?[6-9]%d{9}%s*$''"

definition phone_in_text_re :: pattern where
  "phone_in_text_re = rx_plain ''(?<!%d)(?:%+?91[-%s]?)?[6-9]%d{9}(?!%d)''"

definition locality_words :: "string list" where
  "locality_words =
    [''bandra'', ''khar'', ''santacruz'', ''andheri'', ''ndheri'', ''juhu'', ''powai'', ''worli'',
     ''lower%s+parel'', ''pali%s+hill'', ''peddar%s+road'', ''mahim'', ''malabar%s+hill'', ''chembur'',
     ''thane'', ''mulund'', ''goregaon'', ''malad'', ''vikhroli'', ''ghatkopar'', ''bkc'',
     ''navi%s+mumbai'', ''matunga'', ''dadar'', ''vile%s+parle'']"

definition locality_only_re :: pattern where
  "locality_only_re =
     seq_i [re_of ''^%s*(?:near%s+)?'', alt_of locality_words,
       re_of ''(?:%s+(?:east|west|naka|road|hill|east%s+west))?%s*$'']"

definition locality_range_re :: pattern where
  "locality_range_re = rx_i ''^%s*(?P<left>[^,]{2,50}?)%s+to%s+(?P<right>[^,]{2,50}?)%s*$''"

definition non_building_words :: "string list" where
  "non_building_words =
    [''fully%s+furnished'', ''semi[-%s]?furnished'', ''unfurnished'', ''bare%s+shell'',
     ''%d+(?:%.%d+)?%s*(?:bhk|rk)'', ''purchase'', ''higher%s+floor'', ''middle%s+floor'',
     ''lower%s+floor'', ''ground%s+floor'', ''%d+(?:st|nd|rd|th)?%s+floor'', ''car%s+parks?'',
     ''parkings?'', ''rent'', ''sale'', ''lease'', ''balcon(?:y|ies)'', ''terrace'',
     ''cross%s+ventilation'', ''pool%s+view'', ''sea%s+view'',
     ''%d+(?:%.%d+)?%s+(?:bathrooms?|washrooms?|toilets?)'', ''price'', ''budget'', ''deposit'',
     ''swimming%s+pool'', ''negotiable'', ''available'', ''on%s+request'',
     ''(?:direct%s+)?(?:outright%s+)?opportunit(?:y|ies)'', ''direct%s+inventor(?:y|ies)'',
     ''for%s+more%s+details'', ''contact'', ''call'', ''inspection'', ''photos?'', ''options?'',
     ''ownership'', ''thanks?'', ''regards?'', ''pl(?:z|ease)'', ''urgent'', ''requirement'',
     ''(?:only%s+)?(?:vegetarian|non[- ]?vegetarian|veg|non[- ]?veg)%s+client'',
     ''(?:family|bachelor|corporate|company)%s+(?:client|tenant)'', ''client%s+(?:business%s+)?profile'',
     ''allow%s+%d+%s*hrs?'', ''set%s+up%s+visits?'', ''ideal%s+for'',
     ''(?:with%s+)?(?:a%s+)?(?:backside|rear)%s+exit'']"

definition non_building_re :: pattern where
  "non_building_re = seq_i [re_of ''%b'', alt_of non_building_words, re_of ''%b'']"

definition invalid_building_label_re :: pattern where
  "invalid_building_label_re = rx_i ''^%s*swimming%s+pool%b''"

definition generic_building_label_re :: pattern where
  "generic_building_label_re = rx_i (
     ''^(?:(?:[a-z][a-z .%x27/&-]{1,45})%s*[-%u2013%u2014]%s*)?'' @
     ''(?:premium|confidential|unnamed|unknown|new)%s+'' @
     ''(?:tower|building|project|society|property)$'')"

definition location_context_re :: pattern where
  "location_context_re = rx_i ''^%s*(?:in|near|off|at)%s+.+''"

definition location_label_re :: pattern where
  "location_label_re = rx_i ''^%s*(?:location|loc%.?|address|area)%s*[:=-]''"

text \<open>The marks around a line: space, tab, hyphen, en dash, em dash, colon, bullet.\<close>

definition line_marks :: string where
  "line_marks = '' '' @ [CHR 0x09] @ ''-'' @ [CHR 0x82, CHR 0x83] @ '':'' @ [CHR 0x84]"

definition clean_source_line :: "pyval \<Rightarrow> string" where
  "clean_source_line v = strip_chars line_marks (re_sub (rx_plain ''[*_`~]'') [] (str_or v))"

definition display_aliases :: "(string \<times> string) list" where
  "display_aliases =
    [(''ndheri west'', ''Andheri West''), (''ndheri east'', ''Andheri East''),
     (''bkc'', ''Bandra Kurla Complex''), (''bandra kurla complex'', ''Bandra Kurla Complex'')]"

definition canonical_locality_alias :: "pyval \<Rightarrow> string" where
  "canonical_locality_alias v =
     (let text = re_sub (rx_plain ''%s+'') '' '' (clean_source_line v)
      in case map_of display_aliases (casefold text) of Some l \<Rightarrow> l | None \<Rightarrow> text)"

definition compact_line :: "string \<Rightarrow> string" where
  "compact_line text = strip (re_sub (rx_plain ''%s+'') '' '' text)"

definition full :: "pattern \<Rightarrow> string \<Rightarrow> bool" where
  "full p s = (re_fullmatch p s \<noteq> None)"

definition spaced_label_re :: pattern where
  "spaced_label_re = rx_i ''(?:r%s*e%s*n%s*t|s%s*a%s*l%s*e|l%s*&%s*l)''"

definition is_locality_range :: "string \<Rightarrow> bool" where
  "is_locality_range line =
     (case re_fullmatch locality_range_re line of
        None \<Rightarrow> False
      | Some m \<Rightarrow> full locality_only_re (strip (text_or (m_named locality_range_re ''left'' m))) \<and>
                  full locality_only_re (strip (text_or (m_named locality_range_re ''right'' m))))"

definition locality_tag :: "string \<Rightarrow> string" where
  "locality_tag line = strip (re_sub (rx_i ''%s+(?:preferred|options?|localities?)$'') [] line)"

definition locality_parts :: "string \<Rightarrow> string list" where
  "locality_parts tag = re_split (rx_i ''%s*(?:/|%bto%b|[-%u2013%u2014])%s*'') tag"

definition early_problem :: "string \<Rightarrow> string option" where
  "early_problem line =
     (let tag = locality_tag line; parts = locality_parts tag in
      if full spaced_label_re line then Some ''building_name_is_listing_text''
      else if is_locality_range line then Some ''building_name_is_locality_range''
      else if 1 < length parts \<and> list_all (\<lambda>p. full locality_only_re (strip p)) parts
      then Some ''building_name_is_locality_range''
      else if tag \<noteq> line \<and> full locality_only_re tag then Some ''building_name_is_locality''
      else if full price_only_re line then Some ''building_name_is_price''
      else if full config_only_re line then Some ''building_name_is_configuration''
      else if full configuration_label_re line then Some ''building_name_is_configuration''
      else if casefold line = ''villa'' then Some ''building_name_is_listing_text''
      else if full number_only_re line then Some ''building_name_is_number''
      else if full phone_only_re line then Some ''building_name_is_phone''
      else None)"

definition late_problem :: "pyval \<Rightarrow> string \<Rightarrow> string option" where
  "late_problem locality line =
     (if truthy locality \<and> casefold line = casefold (clean_source_line locality)
      then Some ''building_name_is_locality''
      else if full locality_only_re line then Some ''building_name_is_locality''
      else if full location_context_re line then Some ''building_name_is_location_context''
      else if re_found location_label_re line then Some ''building_name_is_location_context''
      else if re_found invalid_building_label_re line then Some ''building_name_is_listing_text''
      else if re_found non_building_re line then Some ''building_name_is_listing_text''
      else if full generic_building_label_re line then Some ''building_name_is_generic_descriptor''
      else if length line < 3 \<or> 100 < length line then Some ''building_name_bad_length''
      else None)"

text \<open>What is left of a line without its telephone numbers.\<close>

definition phone_remainder :: "string \<Rightarrow> string" where
  "phone_remainder line = clean_source_line (VStr (re_sub phone_in_text_re '' '' line))"

lemma length_strip_by: "length (strip_by p s) \<le> length s"
  by (rule sublist_length_le [OF strip_by_sublist])

lemma clean_source_line_length: "length (clean_source_line (VStr s)) \<le> length s"
proof -
  have "min_len (rx (rx_plain ''[*_`~]'')) = 1" by code_simp
  then have "length (re_sub (rx_plain ''[*_`~]'') [] s) \<le> length s" by (intro re_sub_not_longer) simp
  then show ?thesis
    unfolding clean_source_line_def strip_chars_def str_or_VStr by (rule le_trans [OF length_strip_by])
qed

lemma compact_line_length: "length (compact_line s) \<le> length s"
proof -
  have "min_len (rx (rx_plain ''%s+'')) = 1" by code_simp
  then have "length (re_sub (rx_plain ''%s+'') '' '' s) \<le> length s" by (intro re_sub_not_longer) simp
  then show ?thesis unfolding compact_line_def strip_def by (rule le_trans [OF length_strip_by])
qed

lemma phone_in_text_length: "min_len (rx phone_in_text_re) = 10"
  by code_simp

lemma phone_remainder_length:
  "re_found phone_in_text_re line \<Longrightarrow> length (phone_remainder line) < length line"
  unfolding phone_remainder_def
  by (rule le_less_trans [OF clean_source_line_length re_sub_shrinks]) (simp_all add: phone_in_text_length)

lemma remainder_length:
  assumes "re_found phone_in_text_re (compact_line (clean_source_line v))"
  shows "length (phone_remainder (compact_line (clean_source_line v))) < length (str_or v)"
proof -
  have "length (clean_source_line v) \<le> length (str_or v)"
    using clean_source_line_length [of "str_or v"] by (simp add: clean_source_line_def)
  then show ?thesis
    using phone_remainder_length [OF assms] compact_line_length [of "clean_source_line v"] by simp
qed

text \<open>
  \<open>building_name_problem\<close>.  The remainder of a line with a telephone number is judged in turn; it is
  shorter by at least nine characters, which is why the recursion ends.
\<close>

function building_name_problem :: "pyval \<Rightarrow> pyval \<Rightarrow> string option" where
  "building_name_problem locality v =
     (let text = clean_source_line v; line = compact_line text; remainder = phone_remainder line in
      if text = [] then None
      else if early_problem line \<noteq> None then early_problem line
      else if re_found phone_in_text_re line then
        (if length remainder < 3 then Some ''building_name_contains_phone''
         else if remainder \<noteq> line \<and> building_name_problem locality (VStr remainder) \<noteq> None
         then Some ''building_name_contains_phone''
         else Some ''building_name_contains_phone'')
      else late_problem locality line)"
  by pat_completeness auto
termination
  by (relation "measure (\<lambda>(locality, v). length (str_or v))") (simp_all add: remainder_length)

declare building_name_problem.simps [simp del]

section \<open>A building from the lines of a slice\<close>

definition candidate_lines :: "string \<Rightarrow> string list" where
  "candidate_lines source = map (\<lambda>l. clean_source_line (VStr l)) (splitlines source)"

definition stop_tokens :: "string list" where
  "stop_tokens =
    [''the'', ''and'', ''at'', ''in'', ''for'', ''near'', ''road'', ''west'', ''east'',
     ''tower'', ''building'', ''heights'', ''residency'', ''residential'']"

definition meaningful_tokens :: "pyval \<Rightarrow> string list" where
  "meaningful_tokens v =
     filter (\<lambda>t. 3 \<le> length t \<and> t \<notin> set stop_tokens) (re_findall (rx_plain ''[a-z0-9]+'') (casefold (str_or v)))"

definition bhk_mark_re :: pattern where
  "bhk_mark_re = rx_i ''%b%d+(?:%.%d+)?%s*(?:bhk|rk)%b''"

definition field_word_re :: pattern where
  "field_word_re = rx_i (
     ''%b(?:sq%.?%s*ft|sqft|carpet|area|rent|sale|lease|deposit|floor|'' @
     ''parking|possession|inspection|details|contact|call)%b'')"

definition opens_listing :: "pyval \<Rightarrow> string \<Rightarrow> bool" where
  "opens_listing bhk line =
     (re_found bhk_mark_re line \<or>
      (\<not> is_none bhk \<and> strip (py_str bhk) \<noteq> [] \<and> contains (casefold line) (casefold (py_str bhk))))"

text \<open>The index after the first line that opens the listing, 0 where none does.\<close>

definition slice_start :: "pyval \<Rightarrow> string list \<Rightarrow> nat" where
  "slice_start bhk lines =
     (if list_ex (opens_listing bhk) lines
      then length (takeWhile (\<lambda>l. \<not> opens_listing bhk l) lines) + 1 else 0)"

definition usable_line :: "pyval \<Rightarrow> string \<Rightarrow> bool" where
  "usable_line locality line =
     (line \<noteq> [] \<and> length line \<le> 90 \<and>
      \<not> (truthy locality \<and> casefold (clean_source_line locality) \<noteq> [] \<and>
         casefold line = casefold (clean_source_line locality)) \<and>
      building_name_problem locality (VStr line) = None \<and>
      \<not> re_found field_word_re line \<and> re_found (rx_plain ''[A-Za-z]'') line)"

definition infer_building_from_slice :: "string \<Rightarrow> pyval \<Rightarrow> pyval \<Rightarrow> string option" where
  "infer_building_from_slice source locality bhk =
     (let lines = candidate_lines source in
      map_option (strip_chars '' .,;:'')
        (find (usable_line locality) (take 6 (drop (slice_start bhk lines) lines))))"

section \<open>Repairing the building of an item\<close>

definition item_locality :: "pydict \<Rightarrow> pyval" where
  "item_locality item = or_val (dget item ''micro_market'') (dget item ''location_raw'')"

definition current_building :: "pydict \<Rightarrow> pydict option \<Rightarrow> pyval" where
  "current_building item ai =
     or_val (or_val (dget item ''building_name'') (dget item ''building_name_raw_candidate''))
       (case ai of Some d \<Rightarrow> dget d ''building_name_raw_candidate'' | None \<Rightarrow> VNone)"

definition building_problem :: "pyval \<Rightarrow> pyval \<Rightarrow> string \<Rightarrow> string option" where
  "building_problem locality current source =
     (case building_name_problem locality current of
        Some p \<Rightarrow> Some p
      | None \<Rightarrow>
          if truthy current \<and>
             \<not> list_ex (\<lambda>t. t \<in> set (meaningful_tokens (VStr source))) (meaningful_tokens current)
          then Some ''building_name_not_in_source_slice'' else None)"

definition repair_flags :: "string \<Rightarrow> string option \<Rightarrow> pyval list" where
  "repair_flags problem replacement =
     [VStr problem,
      VStr (if replacement \<noteq> None \<and> replacement \<noteq> Some [] then ''building_name_source_repaired''
            else ''building_name_unresolved'')]"

definition with_building :: "pydict \<Rightarrow> string option \<Rightarrow> pyval list \<Rightarrow> pydict" where
  "with_building item replacement flags =
     dput (dput (dput item ''building_name'' (vopt replacement)) ''validation_flags'' (VList flags))
       ''needs_review'' (VBool True)"

text \<open>
  \<open>repair_building_assignment\<close> updates the item and, where there is one, the answer of the model; the
  two are different objects.
\<close>

definition repair_building_assignment ::
    "pydict \<Rightarrow> string \<Rightarrow> pydict option \<Rightarrow> (pydict \<times> pydict option) result" where
  "repair_building_assignment item source ai =
     (let locality = item_locality item in
      case building_problem locality (current_building item ai) source of
        None \<Rightarrow> Inr (item, ai)
      | Some problem \<Rightarrow>
          (let replacement = infer_building_from_slice source locality (dget item ''bhk'') in
           bindE (list_or_empty (dget item ''validation_flags'')) (\<lambda>flags0.
             let flags = flags0 @ repair_flags problem replacement in
             bindE (fromkeys flags) (\<lambda>flags'.
             bindE (case ai of
                      None \<Rightarrow> Inr None
                    | Some d \<Rightarrow>
                        bindE (list_or_empty (dget d ''validation_flags'')) (\<lambda>ai_flags.
                        bindE (fromkeys (ai_flags @ flags)) (\<lambda>ai_flags'.
                          Inr (Some (with_building d replacement ai_flags'))))) (\<lambda>ai'.
               Inr (with_building item replacement flags', ai'))))))"

section \<open>Facts: brokers\<close>

text \<open>The fields the guard may write.\<close>

definition broker_guard_keys :: "string list" where
  "broker_guard_keys =
     broker_fields @ [''_broker_name_from_transport'', ''needs_review'', ''write_blocked'', ''validation_flags'',
       ''extraction_confidence'', ''extraction_confidence_score'', ''confidence'']"

lemma broker_step_eq:
  "broker_step ts transport phone (item, flags, issue, blocked) f =
     (if unsupported ts transport f (dget item f)
      then (dput item f VNone, flags @ [VStr (f @ ''_not_in_source_slice'')], True,
            blocked \<or> (f = ''broker_name'' \<and> \<not> transport \<and> \<not> phone))
      else (item, flags, issue, blocked))"
  by (simp add: broker_step_def)

lemma broker_loop:
  assumes "foldl (broker_step ts transport phone) (item, flags, issue, blocked) fs = (item', flags', issue', blocked')"
    and "distinct fs"
  shows "(\<forall>k. dget item' k =
      (if k \<in> set fs \<and> unsupported ts transport k (dget item k) then VNone else dget item k)) \<and>
    flags' = flags @ map (\<lambda>f. VStr (f @ ''_not_in_source_slice''))
      (filter (\<lambda>f. unsupported ts transport f (dget item f)) fs) \<and>
    (issue' \<longleftrightarrow> issue \<or> (\<exists>f \<in> set fs. unsupported ts transport f (dget item f))) \<and>
    (blocked' \<longleftrightarrow> blocked \<or> (''broker_name'' \<in> set fs \<and> \<not> transport \<and> \<not> phone \<and>
       unsupported ts transport ''broker_name'' (dget item ''broker_name'')))"
  using assms
proof (induction fs arbitrary: item flags issue blocked)
  case (Cons f fs)
  show ?case
  proof (cases "unsupported ts transport f (dget item f)")
    case True
    let ?item = "dput item f VNone"
    have same: "dget ?item g = dget item g" if "g \<in> set fs" for g
    proof -
      from that Cons.prems(2) have "g \<noteq> f" by auto
      then show ?thesis by simp
    qed
    have fl: "filter (\<lambda>g. unsupported ts transport g (dget ?item g)) fs =
        filter (\<lambda>g. unsupported ts transport g (dget item g)) fs"
      using same by (intro filter_cong) simp_all
    have "foldl (broker_step ts transport phone)
        (?item, flags @ [VStr (f @ ''_not_in_source_slice'')], True,
         blocked \<or> (f = ''broker_name'' \<and> \<not> transport \<and> \<not> phone)) fs = (item', flags', issue', blocked')"
      using Cons.prems(1) True by (simp add: broker_step_eq)
    note ih = Cons.IH [OF this] Cons.prems(2)
    have "dget item' k = (if k \<in> set (f # fs) \<and> unsupported ts transport k (dget item k) then VNone else dget item k)" for k
      using ih True same by (cases "k = f") auto
    with ih True same show ?thesis unfolding fl by (auto simp: fl)
  next
    case False
    have "foldl (broker_step ts transport phone) (item, flags, issue, blocked) fs = (item', flags', issue', blocked')"
      using Cons.prems(1) False by (simp add: broker_step_eq)
    from Cons.IH [OF this] Cons.prems(2) False show ?thesis by auto
  qed
qed simp

lemma zero_confidence_dget:
  "dget (zero_confidence d) k =
     (if k = ''extraction_confidence'' then VStr ''low''
      else if k \<in> {''extraction_confidence_score'', ''confidence''} then VFloat (Fin 0) else dget d k)"
  by (simp add: zero_confidence_def)

text \<open>What the two marks leave of a field other than the flags.\<close>

lemma broker_marks_dget:
  "dget (block_write blocked (mark_broker_issue issue blocked d)) k =
     (if k = ''needs_review'' \<and> (issue \<or> blocked) then VBool True
      else if k = ''write_blocked'' \<and> blocked then VBool True
      else if k \<in> {''extraction_confidence'', ''extraction_confidence_score'', ''confidence''} \<and>
        (blocked \<or> issue \<and> is_none (dget d ''extraction_confidence_score'') \<and> is_none (dget d ''confidence''))
      then (if k = ''extraction_confidence'' then VStr ''low'' else VFloat (Fin 0))
      else dget d k)"
  by (simp add: block_write_def mark_broker_issue_def zero_confidence_dget Let_def)

lemma broker_facts:
  assumes "apply_broker_field_grounding item source = Inr out"
  shows "list_all (\<lambda>f. dget out f = dget item f \<or> dget out f = VNone) broker_fields"
    and "list_all (\<lambda>f. blank_value (dget out f) \<or> grounding_tokens (dget out f) = [] \<or>
      list_ex (\<lambda>t. t \<in> set (grounding_tokens source)) (grounding_tokens (dget out f)) \<or>
      f = ''broker_name'' \<and> from_transport item) broker_fields"
    and "list_all (\<lambda>f. dget out f = dget item f \<or>
      dget out ''needs_review'' = VBool True \<and>
      (\<exists>flags. dget out ''validation_flags'' = VList flags \<and>
        VStr (f @ ''_not_in_source_slice'') \<in> set flags)) broker_fields"
    and "dget out ''write_blocked'' = dget item ''write_blocked'' \<or>
      dget out ''write_blocked'' = VBool True \<and> dget out ''broker_name'' = VNone \<and>
      \<not> from_transport item \<and> \<not> has_broker_phone item \<and> dget out ''confidence'' = VFloat (Fin 0)"
    and "k \<notin> set broker_guard_keys \<Longrightarrow> dget out k = dget item k"
proof -
  let ?ts = "grounding_tokens source" and ?t = "from_transport item"
  let ?item = "ddel item ''_broker_name_from_transport''"
  have phone: "has_broker_phone ?item = has_broker_phone item" by (simp add: has_broker_phone_def)
  from assms obtain flags0 where body:
    "(case foldl (broker_step ?ts ?t (has_broker_phone item)) (?item, flags0, False, False) broker_fields of
       (item', flags, issue, blocked) \<Rightarrow>
         bindE (fromkeys flags) (\<lambda>flags'.
           Inr (dput (block_write blocked (mark_broker_issue issue blocked item'))
                  ''validation_flags'' (VList flags')))) = Inr out"
    unfolding apply_broker_field_grounding_def Let_def bindE_Inr_iff phone by blast
  obtain item' flags issue blocked where
    loop: "foldl (broker_step ?ts ?t (has_broker_phone item)) (?item, flags0, False, False) broker_fields =
      (item', flags, issue, blocked)" by (rule prod_cases4)
  from body obtain flags' where fl: "fromkeys flags = Inr flags'"
    and out: "out = dput (block_write blocked (mark_broker_issue issue blocked item')) ''validation_flags'' (VList flags')"
    by (auto simp: loop bindE_Inr_iff)
  have "distinct broker_fields" by code_simp
  note L = broker_loop [OF loop this]
  let ?un = "\<lambda>f. unsupported ?ts ?t f (dget item f)"
  have keys: "f \<in> set broker_fields \<Longrightarrow> f \<noteq> ''_broker_name_from_transport'' \<and> f \<noteq> ''needs_review'' \<and>
    f \<noteq> ''write_blocked'' \<and> f \<noteq> ''validation_flags'' \<and> f \<noteq> ''extraction_confidence'' \<and>
    f \<noteq> ''extraction_confidence_score'' \<and> f \<noteq> ''confidence''" for f
    by (auto simp: broker_fields_def)
  have it: "dget item' k = (if k \<in> set broker_fields \<and> ?un k then VNone else dget ?item k)" for k
    using L keys by auto
  have field: "dget out f = (if ?un f then VNone else dget item f)" if "f \<in> set broker_fields" for f
    using keys [OF that] that by (simp add: out broker_marks_dget it)
  show "list_all (\<lambda>f. dget out f = dget item f \<or> dget out f = VNone) broker_fields"
    by (simp add: list_all_iff field)
  show "list_all (\<lambda>f. blank_value (dget out f) \<or> grounding_tokens (dget out f) = [] \<or>
      list_ex (\<lambda>t. t \<in> set ?ts) (grounding_tokens (dget out f)) \<or>
      f = ''broker_name'' \<and> ?t) broker_fields"
    by (auto simp: list_all_iff field unsupported_def blank_value_def)
  have flag: "VStr (f @ ''_not_in_source_slice'') \<in> set flags'" if "f \<in> set broker_fields" "?un f" for f
    using L that keys [OF that(1)] by (intro fromkeys_keeps [OF fl]) auto
  have "issue \<longleftrightarrow> (\<exists>f \<in> set broker_fields. ?un f)" using L keys by auto
  then show "list_all (\<lambda>f. dget out f = dget item f \<or>
      dget out ''needs_review'' = VBool True \<and>
      (\<exists>flags. dget out ''validation_flags'' = VList flags \<and>
        VStr (f @ ''_not_in_source_slice'') \<in> set flags)) broker_fields"
    using flag by (auto simp: list_all_iff field) (auto simp: out broker_marks_dget)
  have bl: "blocked \<longleftrightarrow> \<not> ?t \<and> \<not> has_broker_phone item \<and> ?un ''broker_name''"
    using L by (simp add: broker_fields_def)
  have nm: "''broker_name'' \<in> set broker_fields" "''write_blocked'' \<notin> set broker_fields" by (simp_all add: broker_fields_def)
  show "dget out ''write_blocked'' = dget item ''write_blocked'' \<or>
      dget out ''write_blocked'' = VBool True \<and> dget out ''broker_name'' = VNone \<and>
      \<not> ?t \<and> \<not> has_broker_phone item \<and> dget out ''confidence'' = VFloat (Fin 0)"
    using bl field [OF nm(1)] nm(2) by (auto simp: out broker_marks_dget it)
  show "k \<notin> set broker_guard_keys \<Longrightarrow> dget out k = dget item k"
    by (simp add: out broker_marks_dget it broker_guard_keys_def)
qed

text \<open>C18:
  No broker identity without the source or the transport.  After the guard each of the three textual broker
  fields is as the item had it or removed; what is left in it is blank, or has no tokens, or shares a token with
  the source slice - or it is the name of a broker that came with the transport, which is kept without a look at
  the slice.  A removal marks the row for review and leaves its flag; every field but the broker fields
  and the marks of the guard is kept.
\<close>

theorem broker_fields_grounded:
  assumes "apply_broker_field_grounding item source = Inr out"
  shows "list_all (\<lambda>f. dget out f = dget item f \<or> dget out f = VNone) broker_fields \<and>
    list_all (\<lambda>f. blank_value (dget out f) \<or> grounding_tokens (dget out f) = [] \<or>
      list_ex (\<lambda>t. t \<in> set (grounding_tokens source)) (grounding_tokens (dget out f)) \<or>
      f = ''broker_name'' \<and> from_transport item) broker_fields \<and>
    list_all (\<lambda>f. dget out f = dget item f \<or>
      dget out ''needs_review'' = VBool True \<and>
      (\<exists>flags. dget out ''validation_flags'' = VList flags \<and>
        VStr (f @ ''_not_in_source_slice'') \<in> set flags)) broker_fields \<and>
    (\<forall>k. k \<notin> set broker_guard_keys \<longrightarrow> dget out k = dget item k)"
  by (intro conjI allI impI broker_facts [OF assms])

text \<open>
  The guard can block a row as a whole, and only one whose name was removed and that has neither a transport
  identity nor a telephone number of a broker.
\<close>

theorem unattributed_row_blocked:
  assumes "apply_broker_field_grounding item source = Inr out"
  shows "dget out ''write_blocked'' = dget item ''write_blocked'' \<or>
      dget out ''write_blocked'' = VBool True \<and> dget out ''broker_name'' = VNone \<and>
      \<not> from_transport item \<and> \<not> has_broker_phone item \<and> dget out ''confidence'' = VFloat (Fin 0)"
  by (rule broker_facts [OF assms])

section \<open>Facts: confidence\<close>

lemma label_scores_code [code]:
  "label_scores = [(''high'', Fin (8106479329266893 / 9007199254740992)),
     (''medium'', Fin (3152519739159347 / 4503599627370496)), (''low'', Fin (3602879701896397 / 9007199254740992))]"
  by (simp add: label_scores_def float_eval)

lemma review_cap_code [code]: "review_cap = Fin (5404319552844595 / 9007199254740992)"
  by (simp add: review_cap_def float_eval)

lemma high_mark_code [code]: "high_mark = Fin (7656119366529843 / 9007199254740992)"
  by (simp add: high_mark_def float_eval)

definition in_unit :: "pyfloat \<Rightarrow> bool" where
  "in_unit x = (fle (Fin 0) x \<and> fle x (Fin 1))"

lemma confidence_score_range: "unit_score v = Inr (Some x) \<Longrightarrow> in_unit x"
  by (auto simp: unit_score_def catchE_def bindE_def in_unit_def fmax_def fmin_def fle_def
      split: sum.splits if_splits; (case_tac x1 | case_tac x2)?; auto)

lemma confidence_score_id: "in_unit x \<Longrightarrow> unit_score (VFloat x) = Inr (Some x)"
  by (cases x) (auto simp: unit_score_def catchE_def in_unit_def fmax_def fmin_def fle_def)

lemma label_score_range: "map_of label_scores l = Some x \<Longrightarrow> in_unit x"
  by (auto simp: label_scores_code in_unit_def fle_def split: if_splits)

lemma stated_score_range:
  assumes "stated_score item = Inr x"
  shows "in_unit x"
proof -
  have "in_unit (Fin 0)" by (simp add: in_unit_def fle_def)
  with assms show ?thesis
    by (auto simp: stated_score_def bindE_Inr_iff split: if_splits option.splits
        intro: confidence_score_range label_score_range)
qed

lemma stated_score_explicit:
  "dget item ''extraction_confidence_score'' = VFloat x \<Longrightarrow> in_unit x \<Longrightarrow> stated_score item = Inr x"
  by (simp add: stated_score_def confidence_score_id)

definition confidence_keys :: "string list" where
  "confidence_keys =
    [''model_confidence'', ''pipeline_review'', ''pipeline_review_reasons'', ''extraction_confidence_score'',
     ''extraction_confidence'', ''confidence'']"

lemma canonicalize_facts:
  assumes "canonicalize_extraction_confidence item force = Inr out"
  obtains model score where "stated_score item = Inr model"
    "score = (if needs_review_now item force then fmin model review_cap else model)"
    "dget out ''model_confidence'' = VFloat model"
    "dget out ''extraction_confidence_score'' = VFloat score" "dget out ''confidence'' = VFloat score"
    "dget out ''extraction_confidence'' = VStr (confidence_label score)"
    "dget out ''pipeline_review'' = VBool (needs_review_now item force)"
    "\<And>k. k \<notin> set confidence_keys \<Longrightarrow> dget out k = dget item k"
  using assms
  by (auto simp: canonicalize_extraction_confidence_def bindE_Inr_iff Let_def confidence_keys_def)

lemma review_score:
  "in_unit m \<Longrightarrow> in_unit (fmin m review_cap) \<and> fle (fmin m review_cap) m \<and> fle (fmin m review_cap) review_cap \<and>
     confidence_label (fmin m review_cap) \<noteq> ''high''"
  by (cases m) (auto simp: in_unit_def fmin_def fle_def review_cap_code high_mark_code confidence_label_def)

lemma confidence_canonical_cap:
  assumes "canonicalize_extraction_confidence item True = Inr out"
  obtains score where "dget out ''confidence'' = VFloat score" "fle score review_cap"
  using assms
  by (rule canonicalize_facts) (use stated_score_range review_score in \<open>auto simp: needs_review_now_def\<close>)

text \<open>C26:
  One confidence.  The canonical score lies between 0 and 1, is the value of both score fields and decides
  the label; it never exceeds the model's own confidence, and equals it unless the item is under review; a row
  under review scores at most 0.6 and is never labelled high.  A score the item states in range, zero
  included, is the model's confidence whatever the label says.
\<close>

theorem confidence_canonical:
  assumes "canonicalize_extraction_confidence item force = Inr out"
  shows "\<exists>model score. dget out ''model_confidence'' = VFloat model \<and>
      dget out ''extraction_confidence_score'' = VFloat score \<and> dget out ''confidence'' = VFloat score \<and>
      dget out ''extraction_confidence'' = VStr (confidence_label score) \<and>
      in_unit model \<and> in_unit score \<and> fle score model \<and>
      (needs_review_now item force \<longrightarrow> fle score review_cap \<and> confidence_label score \<noteq> ''high'') \<and>
      (\<not> needs_review_now item force \<longrightarrow> score = model) \<and>
      (\<forall>x. dget item ''extraction_confidence_score'' = VFloat x \<and> in_unit x \<longrightarrow> model = x) \<and>
      (\<forall>k. k \<notin> set confidence_keys \<longrightarrow> dget out k = dget item k)"
  using assms
proof (rule canonicalize_facts)
  fix model score
  assume m: "stated_score item = Inr model"
    and s: "score = (if needs_review_now item force then fmin model review_cap else model)"
    and out: "dget out ''model_confidence'' = VFloat model"
    "dget out ''extraction_confidence_score'' = VFloat score" "dget out ''confidence'' = VFloat score"
    "dget out ''extraction_confidence'' = VStr (confidence_label score)"
    "\<And>k. k \<notin> set confidence_keys \<Longrightarrow> dget out k = dget item k"
  have unit: "in_unit model" by (rule stated_score_range [OF m])
  then have refl: "fle model model" by (cases model) (auto simp: in_unit_def fle_def)
  have stated: "dget item ''extraction_confidence_score'' = VFloat x \<Longrightarrow> in_unit x \<Longrightarrow> model = x" for x
    using stated_score_explicit [of item x] m by simp
  show ?thesis
    using unit refl review_score [OF unit] stated
    by (intro exI [where x = model] exI [where x = score]) (auto simp: out s)
qed

text \<open>
  A second run takes the discounted score for the model's: what the model said of itself is gone, although
  both values are kept for audit.
\<close>

lemma second_run_forgets:
  assumes "canonicalize_extraction_confidence item force = Inr out"
    and "canonicalize_extraction_confidence out force' = Inr again"
  shows "dget again ''model_confidence'' = dget out ''extraction_confidence_score''"
  using assms(1)
proof (rule canonicalize_facts)
  fix model score
  assume m: "stated_score item = Inr model"
    and s: "score = (if needs_review_now item force then fmin model review_cap else model)"
    and sc: "dget out ''extraction_confidence_score'' = VFloat score"
  have "in_unit score" using stated_score_range [OF m] review_score [of model] by (simp add: s)
  then have "stated_score out = Inr score" by (rule stated_score_explicit [OF sc])
  with assms(2) show ?thesis
    by (elim canonicalize_facts) (simp add: sc)
qed

section \<open>Facts: prices\<close>

text \<open>C30:
  A rate is only replaced by a rate of the source.  The guard keeps the price of an item, or puts into it the
  amount of the quotes of the source, all of which name that one amount, in rupees per square foot, with the
  text of the first quote; it does the second only for a positive amount which is off by more than a factor of two, and the
  row is then under review with the flag of the mismatch and a confidence of at most 0.6.
\<close>

theorem price_repair_grounded:
  assumes "apply_price_sanity_guard item source = Inr out"
  shows "dget out ''price'' = dget item ''price'' \<or>
    (\<exists>price amount raw a flags score. dget item ''price'' = VDict price \<and>
       extract_simple_psf_rate source = Some (amount, raw) \<and>
       float_of (dget price ''amount'') = Inr a \<and> flt (Fin 0) a \<and> flt (Fin 0) amount \<and>
       flt (Fin 2) (fdiv (fmax a amount) (fmin a amount)) \<and>
       dget out ''price'' = VDict (dput (dput (dput price ''amount'' (VFloat amount))
         ''unit'' (VStr ''per_sqft'')) ''raw_price_text'' (VStr raw)) \<and>
       dget out ''needs_review'' = VBool True \<and>
       dget out ''validation_flags'' = VList flags \<and> VStr ''price_psf_ai_mismatch_review'' \<in> set flags \<and>
       dget out ''confidence'' = VFloat score \<and> fle score review_cap)"
proof -
  have keep: "dget o2 ''price'' = dget o1 ''price'' \<and> dget o2 ''needs_review'' = dget o1 ''needs_review'' \<and>
      dget o2 ''validation_flags'' = dget o1 ''validation_flags''"
    if "canonicalize_extraction_confidence o1 b = Inr o2" for o1 o2 b
    using that by (rule canonicalize_facts) (simp add: confidence_keys_def)
  show ?thesis
  proof (cases "canonicalize_extraction_confidence item False = Inr out")
    case True
    then show ?thesis using keep by blast
  next
    case False
    with assms obtain price q ai c where p: "dget item ''price'' = VDict price"
      and q: "extract_simple_psf_rate source = Some q"
      and ai: "catchE (bindE (float_of (dget price ''amount'')) (\<lambda>x. Inr (Some x))) [TypeError, ValueError] (Inr None) = Inr ai"
      and mm: "psf_mismatch ai (fst q)" and c: "psf_corrected item price q = Inr c"
      and o: "canonicalize_extraction_confidence c True = Inr out"
      by (auto simp: apply_price_sanity_guard_def bindE_Inr_iff split: pyval.splits option.splits if_splits)
    obtain a where a: "ai = Some a" using mm by (cases ai) (auto simp: psf_mismatch_def)
    have fa: "float_of (dget price ''amount'') = Inr a"
      using ai a by (auto simp: catchE_def bindE_def split: sum.splits if_splits)
    obtain flags' fs where fl: "fromkeys (fs @ [VStr ''price_psf_ai_mismatch_review'']) = Inr flags'"
      and ce: "c = dput (dput (dput item
              ''price'' (VDict (dput (dput (dput price ''amount'' (VFloat (fst q)))
                ''unit'' (VStr ''per_sqft'')) ''raw_price_text'' (VStr (snd q)))))
              ''needs_review'' (VBool True)) ''validation_flags'' (VList flags')"
      using c by (auto simp: psf_corrected_def bindE_Inr_iff)
    have flag: "VStr ''price_psf_ai_mismatch_review'' \<in> set flags'" by (rule fromkeys_keeps [OF fl]) simp
    obtain score where sc: "dget out ''confidence'' = VFloat score" "fle score review_cap"
      using confidence_canonical_cap [OF o] by blast
    obtain amount raw where qe: "q = (amount, raw)" by (cases q)
    show ?thesis
      using mm keep [OF o] flag sc
      by (intro disjI2 exI [where x = price] exI [where x = amount] exI [where x = raw] exI [where x = a]
            exI [where x = flags'] exI [where x = score])
        (auto simp: p q fa qe a ce psf_mismatch_def)
  qed
qed

section \<open>Facts: building names\<close>

lemma building_name_accepted:
  assumes "building_name_problem locality v = None" and "clean_source_line v \<noteq> []"
  shows "early_problem (compact_line (clean_source_line v)) = None"
    and "\<not> re_found phone_in_text_re (compact_line (clean_source_line v))"
    and "late_problem locality (compact_line (clean_source_line v)) = None"
  using assms by (auto simp: building_name_problem.simps [of locality v] Let_def split: if_splits)

text \<open>What passes for a building name.  A name without a problem is blank, or has 3 to 100 characters, holds no
  Indian mobile number, and is neither a locality, nor the locality of its item, nor a price, nor a number,
  nor a text with a word of the listing's other fields.
\<close>

theorem accepted_building_name:
  assumes "building_name_problem locality v = None"
  shows "clean_source_line v = [] \<or>
    (let line = compact_line (clean_source_line v) in
       3 \<le> length line \<and> length line \<le> 100 \<and> \<not> re_found phone_in_text_re line \<and>
       \<not> full locality_only_re line \<and> \<not> full price_only_re line \<and> \<not> full number_only_re line \<and>
       \<not> re_found non_building_re line \<and>
       (truthy locality \<longrightarrow> casefold line \<noteq> casefold (clean_source_line locality)))"
proof (cases "clean_source_line v = []")
  case False
  note h = building_name_accepted [OF assms False]
  from h(1) have "\<not> full price_only_re (compact_line (clean_source_line v)) \<and>
      \<not> full number_only_re (compact_line (clean_source_line v))"
    by (auto simp: early_problem_def Let_def split: if_splits)
  moreover from h(3) have "3 \<le> length (compact_line (clean_source_line v)) \<and>
      length (compact_line (clean_source_line v)) \<le> 100 \<and>
      \<not> full locality_only_re (compact_line (clean_source_line v)) \<and>
      \<not> re_found non_building_re (compact_line (clean_source_line v)) \<and>
      (truthy locality \<longrightarrow> casefold (compact_line (clean_source_line v)) \<noteq> casefold (clean_source_line locality))"
    by (auto simp: late_problem_def split: if_splits)
  ultimately show ?thesis using h(2) by (simp add: Let_def)
qed simp

lemma find_SomeD: "find P xs = Some x \<Longrightarrow> x \<in> set xs \<and> P x"
  by (induction xs) (auto split: if_splits)

lemma infer_building_facts:
  assumes "infer_building_from_slice source locality bhk = Some b"
  obtains line where "line \<in> set (candidate_lines source)" "b = strip_chars '' .,;:'' line"
    "usable_line locality line"
proof -
  from assms obtain line where b: "b = strip_chars '' .,;:'' line"
    and f: "find (usable_line locality)
      (take 6 (drop (slice_start bhk (candidate_lines source)) (candidate_lines source))) = Some line"
    by (auto simp: infer_building_from_slice_def Let_def)
  from find_SomeD [OF f] have "usable_line locality line"
    "line \<in> set (take 6 (drop (slice_start bhk (candidate_lines source)) (candidate_lines source)))" by blast+
  with b that show thesis by (blast dest: in_set_takeD in_set_dropD)
qed

text \<open>C22:
  A building name belongs to its slice.  The repair leaves an item alone only when its building is missing, or
  has no problem and shares a meaningful token with the source slice.  Otherwise the
  item is marked for review with the problem among its flags, its building is removed or is a line of its own
  slice that passes for a building name, the same goes into the answer of the model, and the other fields
  of the item are kept.
\<close>

theorem building_repair_grounded:
  assumes "repair_building_assignment item source ai = Inr (out, ai')"
  shows "(out = item \<and> ai' = ai \<and> building_name_problem (item_locality item) (current_building item ai) = None \<and>
      (truthy (current_building item ai) \<longrightarrow>
        list_ex (\<lambda>t. t \<in> set (meaningful_tokens (VStr source))) (meaningful_tokens (current_building item ai)))) \<or>
    (\<exists>problem flags. building_problem (item_locality item) (current_building item ai) source = Some problem \<and>
      dget out ''needs_review'' = VBool True \<and> dget out ''validation_flags'' = VList flags \<and>
      VStr problem \<in> set flags \<and>
      (dget out ''building_name'' = VNone \<or>
        (\<exists>line. line \<in> set (candidate_lines source) \<and>
           dget out ''building_name'' = VStr (strip_chars '' .,;:'' line) \<and>
           building_name_problem (item_locality item) (VStr line) = None \<and> \<not> re_found field_word_re line)) \<and>
      (\<forall>k. k \<notin> {''building_name'', ''validation_flags'', ''needs_review''} \<longrightarrow> dget out k = dget item k) \<and>
      (\<forall>d. ai' = Some d \<longrightarrow> dget d ''building_name'' = dget out ''building_name'' \<and>
         dget d ''needs_review'' = VBool True))"
proof (cases "building_problem (item_locality item) (current_building item ai) source")
  case None
  then have "building_name_problem (item_locality item) (current_building item ai) = None \<and>
      (truthy (current_building item ai) \<longrightarrow>
        list_ex (\<lambda>t. t \<in> set (meaningful_tokens (VStr source))) (meaningful_tokens (current_building item ai)))"
    by (auto simp: building_problem_def split: option.splits if_splits)
  moreover have "out = item" "ai' = ai" using assms None by (simp_all add: repair_building_assignment_def)
  ultimately show ?thesis by simp
next
  case (Some problem)
  let ?r = "infer_building_from_slice source (item_locality item) (dget item ''bhk'')"
  from assms Some obtain fs flags' where fl: "fromkeys (fs @ repair_flags problem ?r) = Inr flags'"
    and out: "out = with_building item ?r flags'"
    by (auto simp: repair_building_assignment_def bindE_Inr_iff Let_def)
  have ai': "\<exists>d0 fl0. d = with_building d0 ?r fl0" if "ai' = Some d" for d
    using assms Some that
    by (cases ai) (auto simp: repair_building_assignment_def bindE_Inr_iff Let_def)
  have flag: "VStr problem \<in> set flags'" by (rule fromkeys_keeps [OF fl]) (simp add: repair_flags_def)
  have name: "dget out ''building_name'' = VNone \<or>
      (\<exists>line. line \<in> set (candidate_lines source) \<and>
         dget out ''building_name'' = VStr (strip_chars '' .,;:'' line) \<and>
         building_name_problem (item_locality item) (VStr line) = None \<and> \<not> re_found field_word_re line)"
  proof (cases ?r)
    case None
    then show ?thesis by (simp add: out with_building_def vopt_def)
  next
    case (Some b)
    then obtain line where "line \<in> set (candidate_lines source)" "b = strip_chars '' .,;:'' line"
      "usable_line (item_locality item) line" by (rule infer_building_facts)
    with Some show ?thesis by (auto simp: out with_building_def vopt_def usable_line_def)
  qed
  show ?thesis
    using Some flag name ai'
    by (intro disjI2 exI [where x = problem] exI [where x = flags']) (auto simp: out with_building_def)
qed

section \<open>Examples\<close>

definition broker_item :: pydict where
  "broker_item = [(''broker_name'', VStr ''Rajesh Shah''), (''broker_company'', VStr ''Acme Realty''),
    (''price'', VInt 5)]"

definition broker_checked :: pydict where
  "broker_checked = projr (apply_broker_field_grounding broker_item (VStr ''2 bhk call acme office''))"

lemma broker_checked_ok: "\<not> isl (apply_broker_field_grounding broker_item (VStr ''2 bhk call acme office''))"
  "dget broker_checked ''broker_name'' = VNone" "dget broker_checked ''broker_company'' = VStr ''Acme Realty''"
  "dget broker_checked ''write_blocked'' = VBool True"
  by code_simp+

lemma broker_checked_Inr: "apply_broker_field_grounding broker_item (VStr ''2 bhk call acme office'') = Inr broker_checked"
  using broker_checked_ok(1) by (simp add: broker_checked_def)

theorem broker_fields_grounded_witness:
  "dget broker_checked ''broker_name'' = VNone \<and> dget broker_checked ''needs_review'' = VBool True \<and>
   dget broker_checked ''price'' = VInt 5"
proof -
  have "dget broker_item ''broker_name'' \<noteq> VNone" "dget broker_item ''price'' = VInt 5" by code_simp+
  with broker_fields_grounded [OF broker_checked_Inr] broker_checked_ok(2) show ?thesis
    by (simp add: broker_guard_keys_def broker_fields_def)
qed

theorem unattributed_row_blocked_witness: "dget broker_checked ''confidence'' = VFloat (Fin 0)"
proof -
  have "dget broker_item ''write_blocked'' = VNone" by code_simp
  with unattributed_row_blocked [OF broker_checked_Inr] broker_checked_ok(4) show ?thesis by simp
qed

definition sure_item :: pydict where
  "sure_item = [(''extraction_confidence_score'', VFloat (Fin 1)), (''extraction_confidence'', VStr ''low''),
    (''needs_review'', VBool True)]"

theorem confidence_canonical_witness:
  "\<exists>out score. canonicalize_extraction_confidence sure_item False = Inr out \<and>
     dget out ''model_confidence'' = VFloat (Fin 1) \<and> dget out ''confidence'' = VFloat score \<and> fle score review_cap"
proof -
  obtain out where o: "canonicalize_extraction_confidence sure_item False = Inr out"
  proof -
    have "\<not> isl (canonicalize_extraction_confidence sure_item False)" by code_simp
    then show thesis using that by (cases "canonicalize_extraction_confidence sure_item False") auto
  qed
  have "dget sure_item ''extraction_confidence_score'' = VFloat (Fin 1)" "in_unit (Fin 1)"
    "needs_review_now sure_item False" by code_simp+
  with confidence_canonical [OF o] o show ?thesis by auto
qed

definition rate_item :: pydict where
  "rate_item = [(''price'', VDict [(''amount'', VInt 2)])]"

lemma rate_quote: "extract_simple_psf_rate (VStr ''rent 9 psf'') = Some (Fin 9, ''rent 9 psf'')"
  by code_simp

lemma rate_mismatch: "psf_mismatch (Some (Fin 2)) (Fin 9)" "float_of (VInt 2) = Inr (Fin 2)"
  by code_simp+

lemma rate_guard:
  "apply_price_sanity_guard rate_item (VStr ''rent 9 psf'') =
     bindE (psf_corrected rate_item [(''amount'', VInt 2)] (Fin 9, ''rent 9 psf''))
       (\<lambda>c. canonicalize_extraction_confidence c True)"
  by (simp add: apply_price_sanity_guard_def rate_quote rate_item_def dget_def rate_mismatch del: float_of.simps)

definition rate_fixed :: pydict where
  "rate_fixed = projr (bindE (psf_corrected rate_item [(''amount'', VInt 2)] (Fin 9, ''rent 9 psf''))
     (\<lambda>c. canonicalize_extraction_confidence c True))"

lemma rate_fixed_ok:
  "\<not> isl (bindE (psf_corrected rate_item [(''amount'', VInt 2)] (Fin 9, ''rent 9 psf''))
     (\<lambda>c. canonicalize_extraction_confidence c True))"
  "dget rate_fixed ''price'' \<noteq> dget rate_item ''price''"
  by code_simp+

theorem price_repair_grounded_witness:
  "dget rate_fixed ''needs_review'' = VBool True"
proof -
  have "apply_price_sanity_guard rate_item (VStr ''rent 9 psf'') = Inr rate_fixed"
    using rate_fixed_ok(1) by (simp add: rate_fixed_def rate_guard)
  from price_repair_grounded [OF this] rate_fixed_ok(2) show ?thesis by auto
qed

text \<open>A second run on a row under review takes 0.6 for the model's confidence, which was 1.\<close>

lemma sure_item_forgotten:
  "bindE (canonicalize_extraction_confidence sure_item False) (\<lambda>out.
     bindE (canonicalize_extraction_confidence out False) (\<lambda>again.
       Inr (dget out ''model_confidence'', dget again ''model_confidence''))) =
   Inr (VFloat (Fin 1), VFloat review_cap)"
  by code_simp

lemma ivy_parts:
  "clean_source_line (VStr ''Ivy'') = ''Ivy''" "compact_line ''Ivy'' = ''Ivy''" "early_problem ''Ivy'' = None"
  "re_found phone_in_text_re ''Ivy'' = False" "late_problem VNone ''Ivy'' = None"
  by code_simp+

lemma ivy_ok: "building_name_problem VNone (VStr ''Ivy'') = None"
  by (simp add: building_name_problem.simps [of VNone "VStr ''Ivy''"] ivy_parts Let_def)

theorem accepted_building_name_witness:
  "\<not> full locality_only_re ''Ivy'' \<and> \<not> re_found non_building_re ''Ivy''"
  using accepted_building_name [OF ivy_ok] by (simp add: ivy_parts Let_def)

definition priced_item :: pydict where
  "priced_item = [(''building_name'', VStr ''5 cr'')]"

definition priced_source :: string where
  "priced_source = ''1 rk'' @ [CHR 0x0A] @ ''Ivy''"

lemma priced_parts:
  "clean_source_line (VStr ''5 cr'') = ''5 cr''" "compact_line ''5 cr'' = ''5 cr''"
  "early_problem ''5 cr'' = Some ''building_name_is_price''"
  by code_simp+

lemma priced_problem: "building_name_problem VNone (VStr ''5 cr'') = Some ''building_name_is_price''"
  by (simp add: building_name_problem.simps [of VNone "VStr ''5 cr''"] priced_parts Let_def)

lemma priced_lines:
  "candidate_lines priced_source = [''1 rk'', ''Ivy'']" "slice_start VNone [''1 rk'', ''Ivy''] = 1"
  "re_found field_word_re ''Ivy'' = False" "re_found (rx_plain ''[A-Za-z]'') ''Ivy'' = True"
  "strip_chars '' .,;:'' ''Ivy'' = ''Ivy''"
  by code_simp+

lemma ivy_found: "infer_building_from_slice priced_source VNone VNone = Some ''Ivy''"
  by (simp add: infer_building_from_slice_def priced_lines usable_line_def ivy_ok)

lemma priced_repair:
  "repair_building_assignment priced_item priced_source None =
     Inr (with_building priced_item (Some ''Ivy'')
            (map VStr [''building_name_is_price'', ''building_name_source_repaired'']), None)"
proof -
  have "item_locality priced_item = VNone" "current_building priced_item None = VStr ''5 cr''"
    "dget priced_item ''bhk'' = VNone" "dget priced_item ''validation_flags'' = VNone" by code_simp+
  moreover have "fromkeys (repair_flags ''building_name_is_price'' (Some ''Ivy'')) =
      Inr (map VStr [''building_name_is_price'', ''building_name_source_repaired''])" by code_simp
  ultimately show ?thesis
    by (simp add: repair_building_assignment_def building_problem_def priced_problem ivy_found list_or_empty_def)
qed

theorem building_repair_grounded_witness:
  "\<exists>line. line \<in> set (candidate_lines priced_source) \<and> building_name_problem VNone (VStr line) = None"
proof -
  have "item_locality priced_item = VNone" "current_building priced_item None = VStr ''5 cr''" by code_simp+
  then show ?thesis
    using building_repair_grounded [OF priced_repair] priced_problem
    by (auto simp: with_building_def vopt_def)
qed

text \<open>The pattern of a rate accepts crore, the table of its multipliers does not: such a rate is read in rupees.\<close>

lemma cr_rate_not_scaled: "psf_multiplier ''cr'' = 1 \<and> psf_multiplier ''lakh'' = 100000"
  by code_simp

end
