(* ===== verification/SourceRoutes.thy ===== *)
theory SourceRoutes
  imports SourceBoundary
begin

text \<open>
  \<open>extraction.py\<close>, demand and supply: which texts are requirements, which are inventory, and the repair
  of a requirement's route and budget from its source.
\<close>

section \<open>Names of brokers\<close>

definition phone_like_name_re :: pattern where
  "phone_like_name_re = rx_plain ''^[+0-9 ()-]{7,15}$''"

definition broker_prefix_re :: pattern where
  "broker_prefix_re = rx_i (
     ''^(?:call%s+for%s+inspection|for%s+inspection|contact(?:%s+person)?|listed%s+by|listing%s+by|broker)'' @
     ''%s*(?:[:%-%u2013|]%s*)?'')"

definition broker_instruction_re :: pattern where
  "broker_instruction_re = rx_i (
     ''%b(?:im+e?diately%s+)?(?:contact|call|whatsapp)%s*(?:no%.?|number)?%b|'' @
     ''%b(?:for%s+)?(?:details|inspection|visit|visits)%b|'' @
     ''%b(?:please%s+share|suitable%s+options)%b'')"

definition broker_field_labels :: "string list" where
  "broker_field_labels =
    [''mobile'', ''phone'', ''contact'', ''contact person'', ''email'', ''e-mail'',
     ''whatsapp'', ''broker'', ''name'', ''address'', ''location'']"

definition phone_like_name :: "string \<Rightarrow> bool" where
  "phone_like_name t = (re_fullmatch phone_like_name_re t \<noteq> None \<and> re_found (rx_plain ''%d'') t)"

definition name_edges :: string where
  "name_edges = '' :-'' @ [CHR 0x82] @ ''|''"

definition clean_broker_name :: "pyval \<Rightarrow> pyval" where
  "clean_broker_name v =
     (let t = strip (str_or v) in
      if re_found (rx_i ''(?:https?://)?(?:www%.)?wa%.me/|whatsapp'') t then VNone
      else if t = [] \<or> phone_like_name t then VNone
      else
        (let u = strip_chars name_edges (re_sub broker_prefix_re [] t) in
         if u = [] \<or> rstrip_chars '':'' (casefold u) \<in> set broker_field_labels \<or>
           re_found broker_instruction_re u \<or> phone_like_name u
         then VNone else VStr u))"

section \<open>Headings of requirements\<close>

definition requirement_heading_re :: pattern where
  "requirement_heading_re = rx_i (
     ''^%s*[%W_]*(?:(?:very|urgent|immediate)%s+)*'' @
     ''(?:(?:outright|property|rental|residential|commercial)%s+)*'' @
     ''(?:(?:buyer|tenant|client)%s+)?'' @
     ''(?:requirements?|required|require|wanted|want|'' @
     ''need(?:s|ed)?|'' @
     ''any%s+(?:(?:one|1)%s+)?(?:%S+%s+){0,6}(?:available|has|have)%b|'' @
     ''koi%s+.*%b(?:hai|chahiye|milega|mil%s+sakta)%b|'' @
     ''(?:chahiye|chaahiye|dhoondh|dhundh|dhoondh%s+rahe)%b)'')"

definition client_profile_re :: pattern where
  "client_profile_re = rx_i ''^%s*need%s+(?:the%s+)?client[%x27%u2019]?s%s+profile%b''"

definition requirement_line :: "string \<Rightarrow> bool" where
  "requirement_line line = (re_match client_profile_re line = None \<and> re_found requirement_heading_re line)"

definition has_explicit_requirement_heading :: "string \<Rightarrow> bool" where
  "has_explicit_requirement_heading t = list_ex requirement_line (splitlines t)"

text \<open>The blocks of demand: from one heading to the next one or to a line of separators.\<close>

definition separator_line :: "string \<Rightarrow> bool" where
  "separator_line l = (l \<noteq> [] \<and> re_fullmatch (rx_plain ''[%W_]{5,}'') l \<noteq> None)"

definition demand_block :: "string list \<Rightarrow> string" where
  "demand_block segment =
     (case segment of
        [] \<Rightarrow> []
      | l # ls \<Rightarrow>
          strip (join [CHR 0x0A] (filter (\<lambda>x. x \<noteq> []) (l # takeWhile (\<lambda>x. \<not> separator_line x) ls))))"

fun demand_segments :: "nat list \<Rightarrow> string list \<Rightarrow> string list list" where
  "demand_segments [] lines = []"
| "demand_segments [s] lines = [drop s lines]"
| "demand_segments (s # t # ss) lines = take (t - s) (drop s lines) # demand_segments (t # ss) lines"

definition heading_indices :: "string list \<Rightarrow> nat list" where
  "heading_indices lines = filter (\<lambda>i. has_explicit_requirement_heading (lines ! i)) [0..<length lines]"

definition explicit_requirement_source_blocks :: "string \<Rightarrow> string list" where
  "explicit_requirement_source_blocks t =
     (let lines = map strip (splitlines t) in
      filter (\<lambda>b. b \<noteq> []) (map demand_block (demand_segments (heading_indices lines) lines)))"

section \<open>Inventory\<close>

definition rent_listing_re :: pattern where
  "rent_listing_re =
     rx_i ''%b(?:avl|available|for%s+rent|on%s+rent|rent%s*[:%-]?|for%s+lease|on%s+lease|lease)%b''"

definition listing_unit_re :: pattern where
  "listing_unit_re = rx_i ''%b%d+(?:%.%d+)?%s*(?:bhk|rk|bedroom)s?%b''"

definition has_explicit_rent_listing_language :: "string \<Rightarrow> bool" where
  "has_explicit_rent_listing_language t = (re_found rent_listing_re t \<and> re_found listing_unit_re t)"

definition explicit_source_inventory_type :: "string \<Rightarrow> string option" where
  "explicit_source_inventory_type t =
     (if has_explicit_requirement_heading t \<or> \<not> re_found listing_unit_re t then None
      else sb_route (classify_source_boundary t))"

definition as_listing :: "string \<Rightarrow> pydict \<Rightarrow> pydict" where
  "as_listing r d =
     dput (dput (dput (dput (dput (dput (dput d
       ''listing_type'' (VStr r)) ''routing_listing_type'' (VStr r)) ''message_class'' (VStr ''listing''))
       ''classified_is_requirement'' (VBool False)) ''is_requirement'' (VBool False))
       ''transaction_type'' (VStr r)) ''classified_transaction_type'' (VStr r)"

definition normalize_source_inventory_route :: "pydict \<Rightarrow> string \<Rightarrow> pydict result" where
  "normalize_source_inventory_route item source =
     bindE (apply_source_boundary item source) (\<lambda>checked.
       Inr (case sb_route (classify_source_boundary source) of
              Some r \<Rightarrow>
                if r \<in> {''rent'', ''sale''} \<and> \<not> has_explicit_requirement_heading source
                then as_listing r checked else checked
            | None \<Rightarrow> checked))"

section \<open>Budgets\<close>

definition budget_units :: string where
  "budget_units = ''(k|thousand|l|lac|lakh|lakhs|cr|crore|crores)''"

definition budget_range_re :: pattern where
  "budget_range_re = rx_i (
     ''%bbudget%s*[:%-]?%s*(?:%u20B9|rs%.?%s*)?([%d,.]+)%s*'' @ budget_units @ ''?%s*'' @
     ''(?:-|%u2013|to|se)%s*(?:%u20B9|rs%.?%s*)?([%d,.]+)%s*'' @ budget_units @ ''?%b'')"

definition rental_cue_re :: pattern where
  "rental_cue_re = rx_i (
     ''%b(?:rent|rental|rantal|rant|lease|monthly|tenant|tenancy|family%s+party|'' @
     ''bachelor|company%s+lease|deposit|on%s+(?:l%s*&%s*l|ll|l%s*and%s*l))%b'')"

definition single_budget_re :: pattern where
  "single_budget_re = rx_i (
     ''%b(?:budget|rent|rental|rantal|rant)%s*[:%-]?%s*(?:%u20B9|rs%.?%s*)?'' @
     ''([%d,.]+)%s*'' @ budget_units @ ''%b'')"

definition up_to_budget_re :: pattern where
  "up_to_budget_re = rx_i (
     ''%bbudget%s*[:%-]?%s*(?:up%s*to|upto|maximum|max)%s*'' @
     ''(?:%u20B9|rs%.?%s*)?([%d,.]+)%s*'' @ budget_units @ ''%b'')"

definition budget_multipliers :: "(string \<times> int) list" where
  "budget_multipliers =
    [(''k'', 1000), (''thousand'', 1000), (''l'', 100000), (''lac'', 100000), (''lakh'', 100000),
     (''lakhs'', 100000), (''cr'', 10000000), (''crore'', 10000000), (''crores'', 10000000)]"

definition budget_multiplier :: "string \<Rightarrow> int" where
  "budget_multiplier u = (case map_of budget_multipliers u of Some n \<Rightarrow> n | None \<Rightarrow> 1)"

definition whole_tolerance :: pyfloat where
  "whole_tolerance = flit (1 / 1000000)"

definition clean_budget_bound :: "pyfloat \<Rightarrow> pyval" where
  "clean_budget_bound x =
     (case x of
        Fin q \<Rightarrow>
          (let r = round_even q in
           if flt (fabs (fsub x (fint r))) whole_tolerance then VInt r else VFloat x)
      | _ \<Rightarrow> VNone)"

definition budget_scaled :: "string \<Rightarrow> string \<Rightarrow> pyfloat option" where
  "budget_scaled amount u =
     map_option (\<lambda>x. fmul x (fint (budget_multiplier u))) (parse_float (replace '','' [] amount))"

definition either_unit :: "rmatch \<Rightarrow> nat \<Rightarrow> nat \<Rightarrow> string" where
  "either_unit m i j = lower (if group_or [] i m \<noteq> [] then group_or [] i m else group_or [] j m)"

definition budget_bounds :: "rmatch \<Rightarrow> (pyfloat \<times> pyfloat) option" where
  "budget_bounds m =
     (case (budget_scaled (group_or [] 1 m) (either_unit m 2 4), budget_scaled (group_or [] 3 m) (either_unit m 4 2)) of
        (Some low, Some high) \<Rightarrow> Some (if flt high low then (high, low) else (low, high))
      | _ \<Rightarrow> None)"

definition with_transaction :: "string \<Rightarrow> pydict \<Rightarrow> pydict" where
  "with_transaction t d = dput (dput d ''transaction_type'' (VStr t)) ''classified_transaction_type'' (VStr t)"

definition first_option :: "pyval \<Rightarrow> pyval" where
  "first_option v = (case v of VList (x # _) \<Rightarrow> x | _ \<Rightarrow> v)"

definition rental_title :: "pydict \<Rightarrow> string" where
  "rental_title d =
     (let l = first_option (dget d ''locality_options'') in
      if truthy l then ''Residential Rental Requirement in '' @ py_str l else ''Residential Rental Requirement'')"

definition ground_range :: "string \<Rightarrow> rmatch \<Rightarrow> pydict \<Rightarrow> pydict" where
  "ground_range source m d =
     (case budget_bounds m of
        None \<Rightarrow> d
      | Some (low, high) \<Rightarrow>
          (let e = dput (dput d ''budget_min'' (clean_budget_bound low)) ''budget_max'' (clean_budget_bound high) in
           if re_found (rx_i ''%boutright%s+requirement%b'') source then with_transaction ''sale'' e
           else if re_found rental_cue_re source
           then dput (with_transaction ''rent'' e) ''title'' (VStr (rental_title (with_transaction ''rent'' e)))
           else e))"

definition ground_up_to :: "string \<Rightarrow> pydict \<Rightarrow> pydict" where
  "ground_up_to source d =
     (case re_search up_to_budget_re source of
        None \<Rightarrow> d
      | Some m \<Rightarrow>
          (case budget_scaled (group_or [] 1 m) (lower (group_or [] 2 m)) of
             None \<Rightarrow> d
           | Some a \<Rightarrow> dput (dput d ''budget_min'' VNone) ''budget_max'' (clean_budget_bound a)))"

text \<open>A decimal quote in thousands below five is one in lakhs.\<close>

definition single_amount :: "rmatch \<Rightarrow> pyfloat option" where
  "single_amount m =
     (let t = group_or [] 1 m; u = lower (group_or [] 2 m) in
      map_option (\<lambda>x. if u = ''k'' \<and> contains t ''.'' \<and> flt x (Fin 5) then fmul x (fint 100000)
                      else fmul x (fint (budget_multiplier u)))
        (parse_float (replace '','' [] t)))"

definition ground_single :: "string \<Rightarrow> pydict \<Rightarrow> pydict" where
  "ground_single source d =
     (case re_search single_budget_re source of
        None \<Rightarrow> d
      | Some m \<Rightarrow>
          if re_found rental_cue_re source
          then (case single_amount m of
                  None \<Rightarrow> d
                | Some a \<Rightarrow> with_transaction ''rent'' (dput d ''budget_max'' (clean_budget_bound a)))
          else d)"

definition ground_budget :: "string \<Rightarrow> pydict \<Rightarrow> pydict" where
  "ground_budget source d =
     (case re_search budget_range_re source of
        Some m \<Rightarrow> ground_range source m d
      | None \<Rightarrow> ground_single source (ground_up_to source d))"

definition normalized_bhk :: "pyval \<Rightarrow> pyfloat option" where
  "normalized_bhk v =
     (if is_none v then None
      else
        (let t = lower (strip (py_str v)) in
         if contains t ''rk'' then Some (Fin (1 / 2))
         else Option.bind (re_search (rx_plain ''%d+(?:%.%d+)?'') t) (\<lambda>m. parse_float (m_text m))))"

definition clean_bhk_options :: "pydict \<Rightarrow> pydict" where
  "clean_bhk_options d =
     (if \<not> is_none (dget d ''bhk_options'') \<and> normalized_bhk (dget d ''bhk_options'') = None
      then dput (dput d ''bhk_options'' (VList [])) ''needs_review'' (VBool True) else d)"

section \<open>A requirement and its source\<close>

definition is_demand :: "pydict \<Rightarrow> string \<Rightarrow> bool" where
  "is_demand d source =
     (dget d ''listing_type'' = VStr ''requirement'' \<or> dget d ''message_class'' = VStr ''requirement'' \<or>
      re_found (rx_i ''%b(?:requirement|required|looking%s+for|need|wanted)%b'') source)"

definition states_supply :: "string \<Rightarrow> bool" where
  "states_supply source =
     ((has_explicit_rent_listing_language source \<or> explicit_source_inventory_type source \<noteq> None) \<and>
      \<not> has_explicit_requirement_heading source)"

definition source_ground_requirement_item :: "pydict \<Rightarrow> string \<Rightarrow> pydict result" where
  "source_ground_requirement_item item source =
     (if states_supply source then normalize_source_inventory_route item source
      else if \<not> is_demand item source then Inr item
      else
        (let d = clean_bhk_options (ground_budget source item)
         in Inr (dput d ''broker_name'' (clean_broker_name (dget d ''broker_name'')))))"

section \<open>Facts\<close>

lemma budget_bounds_ordered: "budget_bounds m = Some (low, high) \<Longrightarrow> \<not> flt high low"
proof -
  have "flt a b \<Longrightarrow> \<not> flt b a" for a b by (cases a; cases b) auto
  then show "budget_bounds m = Some (low, high) \<Longrightarrow> \<not> flt high low"
    by (auto simp: budget_bounds_def split: option.splits if_splits)
qed

definition budget_keys :: "string list" where
  "budget_keys =
    [''budget_min'', ''budget_max'', ''transaction_type'', ''classified_transaction_type'', ''title'']"

lemma ground_budget_frame: "k \<notin> set budget_keys \<Longrightarrow> dget (ground_budget source d) k = dget d k"
  by (auto simp: ground_budget_def ground_range_def ground_up_to_def ground_single_def with_transaction_def
      Let_def budget_keys_def split: option.splits)

lemma clean_bhk_frame: "k \<notin> {''bhk_options'', ''needs_review''} \<Longrightarrow> dget (clean_bhk_options d) k = dget d k"
  by (simp add: clean_bhk_options_def)

lemma ground_range_bounds:
  assumes "re_search budget_range_re source = Some m" and "budget_bounds m = Some (low, high)"
  shows "dget (ground_budget source d) ''budget_min'' = clean_budget_bound low \<and>
    dget (ground_budget source d) ''budget_max'' = clean_budget_bound high"
  using assms by (simp add: ground_budget_def ground_range_def with_transaction_def Let_def)

text \<open>What the telephone test means for a name that is kept.\<close>

lemma clean_broker_name_kept:
  assumes "clean_broker_name v = VStr u"
  shows "u \<noteq> [] \<and> \<not> phone_like_name u \<and> \<not> re_found broker_instruction_re u"
  using assms by (auto simp: clean_broker_name_def Let_def split: if_splits)

lemma clean_broker_name_cases: "clean_broker_name v = VNone \<or> (\<exists>u. clean_broker_name v = VStr u)"
  by (simp add: clean_broker_name_def Let_def)

text \<open>C27:
  Demand and supply are told apart by the source.  Where the source states supply (a unit with rental
  language or an explicit route, and no heading of a requirement), the item becomes a listing of
  the explicit route.  A text of neither kind leaves an item that is no requirement alone.  A requirement keeps its
  route, takes an explicit budget range of the source with its bounds in order, has a broker name that
  is no telephone number and no instruction, and keeps every other field.
\<close>

theorem requirement_follows_source:
  assumes "source_ground_requirement_item item source = Inr out"
  shows "(states_supply source \<longrightarrow>
      (\<forall>r. sb_route (classify_source_boundary source) = Some r \<and> r \<in> {''rent'', ''sale''} \<longrightarrow>
         dget out ''listing_type'' = VStr r \<and> dget out ''transaction_type'' = VStr r \<and>
         dget out ''message_class'' = VStr ''listing'' \<and> dget out ''is_requirement'' = VBool False)) \<and>
    (\<not> states_supply source \<and> \<not> is_demand item source \<longrightarrow> out = item) \<and>
    (\<not> states_supply source \<and> is_demand item source \<longrightarrow>
      dget out ''listing_type'' = dget item ''listing_type'' \<and>
      (\<forall>m low high. re_search budget_range_re source = Some m \<and> budget_bounds m = Some (low, high) \<longrightarrow>
         dget out ''budget_min'' = clean_budget_bound low \<and> dget out ''budget_max'' = clean_budget_bound high \<and>
         \<not> flt high low) \<and>
      (dget out ''broker_name'' = VNone \<or>
        (\<exists>u. dget out ''broker_name'' = VStr u \<and> u \<noteq> [] \<and> \<not> phone_like_name u \<and>
           \<not> re_found broker_instruction_re u)) \<and>
      (\<forall>k. k \<notin> set budget_keys \<union> {''bhk_options'', ''needs_review'', ''broker_name''} \<longrightarrow>
         dget out k = dget item k))"
proof (intro conjI impI)
  assume s: "states_supply source"
  then have "\<not> has_explicit_requirement_heading source" by (simp add: states_supply_def)
  with assms s show "\<forall>r. sb_route (classify_source_boundary source) = Some r \<and> r \<in> {''rent'', ''sale''} \<longrightarrow>
         dget out ''listing_type'' = VStr r \<and> dget out ''transaction_type'' = VStr r \<and>
         dget out ''message_class'' = VStr ''listing'' \<and> dget out ''is_requirement'' = VBool False"
    by (auto simp: source_ground_requirement_item_def normalize_source_inventory_route_def bindE_Inr_iff
        as_listing_def)
next
  assume "\<not> states_supply source \<and> \<not> is_demand item source"
  with assms show "out = item" by (simp add: source_ground_requirement_item_def)
next
  assume h: "\<not> states_supply source \<and> is_demand item source"
  let ?d = "clean_bhk_options (ground_budget source item)"
  from assms h have out: "out = dput ?d ''broker_name'' (clean_broker_name (dget ?d ''broker_name''))"
    by (simp add: source_ground_requirement_item_def Let_def)
  show "dget out ''listing_type'' = dget item ''listing_type''"
    by (simp add: out clean_bhk_frame ground_budget_frame budget_keys_def)
  show "\<forall>m low high. re_search budget_range_re source = Some m \<and> budget_bounds m = Some (low, high) \<longrightarrow>
         dget out ''budget_min'' = clean_budget_bound low \<and> dget out ''budget_max'' = clean_budget_bound high \<and>
         \<not> flt high low"
    by (auto simp: out clean_bhk_frame ground_range_bounds dest: budget_bounds_ordered)
  show "dget out ''broker_name'' = VNone \<or>
      (\<exists>u. dget out ''broker_name'' = VStr u \<and> u \<noteq> [] \<and> \<not> phone_like_name u \<and>
         \<not> re_found broker_instruction_re u)"
    using clean_broker_name_cases [of "dget ?d ''broker_name''"] clean_broker_name_kept [of "dget ?d ''broker_name''"]
    by (auto simp: out)
  show "\<forall>k. k \<notin> set budget_keys \<union> {''bhk_options'', ''needs_review'', ''broker_name''} \<longrightarrow>
         dget out k = dget item k"
    by (simp add: out clean_bhk_frame ground_budget_frame)
qed

section \<open>Example\<close>

definition wanted_text :: string where
  "wanted_text = ''need budget 2-1 cr''"

definition wanted_item :: pydict where
  "wanted_item = [(''listing_type'', VStr ''requirement''), (''bhk'', VInt 2)]"

lemma wanted_demand: "is_demand wanted_item wanted_text"
  by (simp add: is_demand_def wanted_item_def dget_def)

lemma wanted_no_supply: "\<not> states_supply wanted_text"
proof -
  have "re_found listing_unit_re wanted_text = False" by code_simp
  then show ?thesis
    by (simp add: states_supply_def has_explicit_rent_listing_language_def explicit_source_inventory_type_def)
qed

lemma wanted_range: "Option.bind (re_search budget_range_re wanted_text) budget_bounds = Some (Fin 10000000, Fin 20000000)"
  by code_simp

theorem requirement_follows_source_witness:
  "\<exists>out. source_ground_requirement_item wanted_item wanted_text = Inr out \<and>
     dget out ''bhk'' = VInt 2 \<and> dget out ''budget_min'' = clean_budget_bound (Fin 10000000) \<and>
     dget out ''budget_max'' = clean_budget_bound (Fin 20000000)"
proof -
  obtain out where out: "source_ground_requirement_item wanted_item wanted_text = Inr out"
    using wanted_demand wanted_no_supply by (simp add: source_ground_requirement_item_def Let_def)
  obtain m where "re_search budget_range_re wanted_text = Some m" "budget_bounds m = Some (Fin 10000000, Fin 20000000)"
    using wanted_range by (auto simp: Option.bind_eq_Some_conv)
  moreover have "dget wanted_item ''bhk'' = VInt 2" by code_simp
  ultimately show ?thesis
    using requirement_follows_source [OF out] wanted_demand wanted_no_supply out by (simp add: budget_keys_def)
qed

end
