(* ===== verification/PublicText.thy ===== *)
theory PublicText
  imports SourceBoundary RegexLength
begin

text \<open>
  \<open>extraction.py\<close> and \<open>normalize.py\<close>, what may leave a tenant: the eligibility of an item for the shared
  market, the redaction of Indian mobile numbers, the stored form of a message and the public fields of
  a listing.
\<close>

section \<open>Sharing with the market\<close>

definition requirement_intents :: "string list" where
  "requirement_intents = [''BUY'', ''REQUIREMENT'', ''RENTAL_SEEKER'', ''TENANT'', ''DEMAND'']"

definition check_share_eligibility :: "pydict \<Rightarrow> pydict \<Rightarrow> string \<Rightarrow> bool \<times> string" where
  "check_share_eligibility parsed org_privacy conv_type =
     (let mode = lower (py_str (or_val (dget org_privacy ''privacy_mode'') (VStr ''private'')));
          intent = upper (str_or (or_val (dget parsed ''intent'') (VStr conv_type)));
          is_requirement = (intent \<in> set requirement_intents)
      in if mode \<in> {''private'', ''tenant_private''} then (False, ''organization_privacy_private'')
         else if is_requirement \<and> \<not> truthy (dget_or org_privacy ''share_requirements'' (VBool False))
         then (False, ''requirements_sharing_disabled'')
         else if \<not> is_requirement \<and> \<not> truthy (dget_or org_privacy ''share_listings'' (VBool False))
         then (False, ''listing_sharing_disabled'')
         else (True, ''eligible''))"

text \<open>Nothing is shared without the consent of its organization, and nothing of one that is private.\<close>

lemma share_needs_consent:
  assumes "fst (check_share_eligibility parsed org conv_type)"
  shows "lower (py_str (or_val (dget org ''privacy_mode'') (VStr ''private''))) \<notin> {''private'', ''tenant_private''} \<and>
    (truthy (dget_or org ''share_requirements'' (VBool False)) \<or> truthy (dget_or org ''share_listings'' (VBool False)))"
  using assms by (auto simp: check_share_eligibility_def Let_def split: if_splits)

section \<open>Redaction\<close>

definition mobile_in_text_re :: pattern where
  "mobile_in_text_re = rx_plain ''(?<!%d)(?:%+?91[-.%s]?)?[6-9]%d{9}(?!%d)''"

definition mobile_loose_re :: pattern where
  "mobile_loose_re = rx_plain ''(?<!%d)(?:%+?91[-.%s]?)?[6-9]%d{4}[-.%s]?%d{5}(?!%d)''"

definition mobile_long_re :: pattern where
  "mobile_long_re = rx_plain ''(?<!%d)(?:0[6-9]%d{9}|[6-9]%d{10})(?!%d)''"

definition redacted_marker :: string where
  "redacted_marker = ''[Contact redacted '' @ [CHR 0x83] @ '' see agent]''"

lemma replace_aux_skip: "replace_aux k p r s = replace_aux 0 p r (drop k s)"
proof (induction s arbitrary: k)
  case (Cons c s)
  then show ?case by (cases k) simp_all
qed simp

lemma replace_aux_here: "p \<noteq> [] \<Longrightarrow> replace_aux 0 p r (p @ u) = r @ replace_aux 0 p r u"
  by (cases p) (simp_all add: replace_aux_skip [of "length _"])

lemma replace_cases:
  assumes "p \<noteq> []"
  obtains (here) u where "s = p @ u" "replace_aux 0 p r s = r @ replace_aux 0 p r u"
  | (skip) c u where "s = c # u" "\<not> prefix p s" "replace_aux 0 p r s = c # replace_aux 0 p r u"
  | (stop) "s = []"
proof (cases "prefix p s")
  case True
  then show ?thesis using replace_aux_here [OF assms] here by (auto elim!: prefixE)
next
  case False
  then show ?thesis using skip stop by (cases s) auto
qed

lemma length_replace_aux:
  assumes "length r \<le> length p" and "p \<noteq> []"
  shows "length (replace_aux 0 p r s) \<le> length s"
proof (induction s rule: length_induct)
  case (1 s)
  show ?case
    by (rule replace_cases [OF assms(2), of s r]) (use 1 assms in \<open>auto simp: add_mono\<close>)
qed

lemma length_replace_less:
  assumes "length r < length p"
  shows "contains s p \<Longrightarrow> length (replace p r s) < length s"
  unfolding replace_def
proof (induction s rule: length_induct)
  case (1 s)
  from assms have ne: "p \<noteq> []" by auto
  show ?case
  proof (rule replace_cases [OF ne, of s r])
    fix u
    assume "s = p @ u" "replace_aux 0 p r s = r @ replace_aux 0 p r u"
    then show ?thesis using length_replace_aux [of r p u] assms ne by simp
  next
    fix c u
    assume "s = c # u" "\<not> prefix p s" "replace_aux 0 p r s = c # replace_aux 0 p r u"
    then show ?thesis using 1 by simp
  next
    assume "s = []"
    then show ?thesis using 1 ne by simp
  qed
qed

text \<open>\<open>while p in s: s = s.replace(p, r)\<close>, for a replacement that is shorter.\<close>

function replace_all :: "string \<Rightarrow> string \<Rightarrow> string \<Rightarrow> string" where
  "replace_all p r s =
     (if length r < length p \<and> contains s p then replace_all p r (replace p r s) else s)"
  by pat_completeness auto
termination
  by (relation "measure (\<lambda>(p, r, s). length s)") (auto intro: length_replace_less)

declare replace_all.simps [simp del]

definition redact_indian_mobiles :: "string \<Rightarrow> string" where
  "redact_indian_mobiles t =
     (if t = [] then []
      else
        (let a = re_sub mobile_loose_re redacted_marker t;
             b = re_sub mobile_long_re redacted_marker a;
             c = re_sub mobile_in_text_re redacted_marker b;
             d = replace_all (redacted_marker @ '' '' @ redacted_marker) redacted_marker c
         in strip (replace_all ''  '' '' '' d)))"

section \<open>The stored form of a message\<close>

definition bold_re :: pattern where
  "bold_re = rx_plain ''%*([^*%n]{1,200}?)%*''"

definition italic_re :: pattern where
  "italic_re = rx_plain ''_([^_%n]{1,200}?)_''"

definition strike_re :: pattern where
  "strike_re = rx_plain ''~([^~%n]{1,200}?)~''"

definition mono_re :: pattern where
  "mono_re = rx_plain ''`([^`%n]{1,200}?)`''"

definition keep_group :: "pattern \<Rightarrow> string \<Rightarrow> string" where
  "keep_group p s = re_sub_fun p (group_or [] 1) s"

definition normalize_for_storage :: "string \<Rightarrow> string" where
  "normalize_for_storage t =
     (if strip t = [] then []
      else
        (let a = keep_group mono_re (keep_group strike_re (keep_group italic_re (keep_group bold_re t)));
             b = re_sub (rx_plain ''%n{3,}'') [CHR 0x0A, CHR 0x0A] a;
             c = re_sub (rx_plain ''[ %t]{2,}'') '' '' b
         in strip (re_sub (re_compile False True ''^%s+|%s+$'') [] c)))"

definition lossless_normalized_message :: "string \<Rightarrow> string \<Rightarrow> string" where
  "lossless_normalized_message raw_text fallback_text =
     redact_indian_mobiles (normalize_for_storage (if raw_text \<noteq> [] then raw_text else fallback_text))"

section \<open>The public fields of a listing\<close>

definition placeholder_title_re :: pattern where
  "placeholder_title_re = rx_i ''^%[(?:unstructured|unknown|listing)%]''"

definition private_contact_re :: pattern where
  "private_contact_re = rx_i ''%b(?:whatsapp|call|contact)%b|%+?%d[%d%s().-]{8,}''"

definition public_title :: "pydict \<Rightarrow> pyval \<Rightarrow> string" where
  "public_title ai summary_title = strip (str_or (or_val (dget ai ''public_seo_title'') summary_title))"

definition public_description :: "pydict \<Rightarrow> string" where
  "public_description ai =
     (let d = redact_indian_mobiles (strip (str_or (dget ai ''public_seo_description'')));
          ws = split_ws d
      in if 250 < length ws then rstrip_chars '' ,.;:'' (join '' '' (take 250 ws)) @ ''.'' else d)"

definition public_blocks :: "string \<Rightarrow> string \<Rightarrow> string \<Rightarrow> bool \<Rightarrow> string list" where
  "public_blocks heading description source is_requirement =
     (if is_requirement then [''requirements_are_not_public_supply_inventory''] else [])
     @ (if strip source = [] then [''missing_source_evidence''] else [])
     @ (if heading = [] \<or> re_match placeholder_title_re heading \<noteq> None then [''placeholder_title''] else [])
     @ (if description = [] then [''missing_public_description''] else [])
     @ (if re_found private_contact_re description then [''private_contact_text''] else [])"

definition text_or_none :: "string \<Rightarrow> pyval" where
  "text_or_none s = (if s = [] then VNone else VStr s)"

definition public_metadata :: "pydict \<Rightarrow> string \<Rightarrow> pyval \<Rightarrow> bool \<Rightarrow> pydict" where
  "public_metadata ai source summary_title is_requirement =
     (let heading = public_title ai summary_title; description = public_description ai;
          blocked = public_blocks heading description source is_requirement
      in [(''public_seo_title'', text_or_none heading), (''public_seo_description'', text_or_none description),
          (''public_eligible'', VBool (blocked = [])), (''public_block_reasons'', vstrs blocked),
          (''landmark_options'', or_val (dget ai ''landmark_options'') (VList []))])"

section \<open>Runs of digits\<close>

text \<open>The maximal runs of digits of a text, with a run that is open to the left.\<close>

fun runs_after :: "string \<Rightarrow> string \<Rightarrow> string list" where
  "runs_after w [] = (if w = [] then [] else [w])"
| "runs_after w (c # s) =
     (if is_digit c then runs_after (w @ [c]) s else (if w = [] then [] else [w]) @ runs_after [] s)"

definition digit_runs :: "string \<Rightarrow> string list" where
  "digit_runs s = runs_after [] s"

text \<open>
  The runs that are Indian mobile numbers: ten digits from 6, 7, 8 or 9 on, the same after the country code 91,
  and the eleven-digit forms brokers paste.
\<close>

definition mobile_start :: "string \<Rightarrow> bool" where
  "mobile_start x = (case x of c # _ \<Rightarrow> c \<in> set ''6789'' | [] \<Rightarrow> False)"

definition short_mobile :: "string \<Rightarrow> bool" where
  "short_mobile x = (length x = 10 \<and> mobile_start x \<or> length x = 12 \<and> take 2 x = ''91'' \<and> mobile_start (drop 2 x))"

definition long_mobile :: "string \<Rightarrow> bool" where
  "long_mobile x =
     (length x = 11 \<and> (mobile_start x \<or> take 1 x = ''0'' \<and> mobile_start (drop 1 x)))"

definition mobile_number :: "string \<Rightarrow> bool" where
  "mobile_number x = (short_mobile x \<or> long_mobile x)"

definition shows_mobile :: "string \<Rightarrow> bool" where
  "shows_mobile s = list_ex mobile_number (digit_runs s)"

definition no_digits :: "string \<Rightarrow> bool" where
  "no_digits r = list_all (\<lambda>c. \<not> is_digit c) r"

lemma runs_digits: "list_all is_digit w \<Longrightarrow> x \<in> set (runs_after w s) \<Longrightarrow> list_all is_digit x \<and> x \<noteq> []"
  by (induction w s rule: runs_after.induct) (auto split: if_splits)

lemma runs_place:
  assumes "x \<in> set (runs_after w s)"
  shows "\<exists>u v. w @ s = u @ x @ v \<and> (u = [] \<or> \<not> is_digit (last u)) \<and> (v = [] \<or> \<not> is_digit (hd v))"
  using assms
proof (induction w s rule: runs_after.induct)
  case (1 w)
  then show ?case by (intro exI [where x = "[]"]) (auto split: if_splits)
next
  case (2 w c s)
  show ?case
  proof (cases "is_digit c")
    case True
    with 2 show ?thesis by simp
  next
    case False
    with "2.prems" consider "x = w" | "x \<in> set (runs_after [] s)" by (auto split: if_splits)
    then show ?thesis
    proof cases
      case 1
      with False show ?thesis by (intro exI [where x = "[]"] exI [where x = "c # s"]) simp
    next
      case 2
      with "2.IH"(2) [OF False] obtain u v where uv: "s = u @ x @ v" "u = [] \<or> \<not> is_digit (last u)"
        "v = [] \<or> \<not> is_digit (hd v)" by auto
      with False show ?thesis
        by (intro exI [where x = "w @ c # u"] exI [where x = v]) auto
    qed
  qed
qed

lemma runs_no_digits: "no_digits r \<Longrightarrow> r \<noteq> [] \<Longrightarrow> runs_after w (r @ s) = (if w = [] then [] else [w]) @ runs_after [] s"
proof (induction r arbitrary: w)
  case (Cons c r)
  then show ?case by (cases r) (auto simp: no_digits_def)
qed simp

lemma runs_split: "no_digits r \<Longrightarrow> r \<noteq> [] \<Longrightarrow> runs_after w (t @ r @ s) = runs_after w t @ runs_after [] s"
  by (induction w t rule: runs_after.induct) (simp_all add: runs_no_digits)

text \<open>A text that starts and ends with no digit separates the runs around it.\<close>

lemma runs_around:
  assumes "\<not> is_digit (hd p)" and "\<not> is_digit (last p)" and "p \<noteq> []"
  shows "set (if w = [] then [] else [w]) \<union> set (runs_after [] s) \<subseteq> set (runs_after w (p @ s))"
proof -
  obtain q c where pc: "p = q @ [c]" "\<not> is_digit c" using assms by (metis append_butlast_last_id)
  have "runs_after w (p @ s) = runs_after w q @ runs_after [] s"
    using runs_split [of "[c]" w q s] pc by (simp add: no_digits_def)
  moreover have "set (if w = [] then [] else [w]) \<subseteq> set (runs_after w q)"
  proof (cases q)
    case (Cons d q')
    then show ?thesis using assms(1) pc by auto
  qed auto
  ultimately show ?thesis by auto
qed

lemma runs_replace:
  assumes "\<not> is_digit (hd p)" "\<not> is_digit (last p)" "p \<noteq> []" "no_digits r" "r \<noteq> []"
  shows "set (runs_after w (replace_aux 0 p r s)) \<subseteq> set (runs_after w s)"
proof (induction s arbitrary: w rule: length_induct)
  case (1 s)
  show ?case
  proof (rule replace_cases [OF assms(3), of s r])
    fix u
    assume u: "s = p @ u" "replace_aux 0 p r s = r @ replace_aux 0 p r u"
    have "set (runs_after [] (replace_aux 0 p r u)) \<subseteq> set (runs_after [] u)" using 1 u(1) assms(3) by simp
    then show ?thesis
      using runs_around [OF assms(1-3), of w u] unfolding u(2)
      by (simp add: runs_no_digits assms(4,5) u(1)) blast
  next
    fix c u
    assume u: "s = c # u" "replace_aux 0 p r s = c # replace_aux 0 p r u"
    then have ih: "set (runs_after w' (replace_aux 0 p r u)) \<subseteq> set (runs_after w' u)" for w' using 1 by simp
    show ?thesis using ih [of "w @ [c]"] ih [of "[]"] unfolding u(2) by (auto simp: u(1))
  qed simp
qed

lemma shows_mobile_replace_all:
  assumes "\<not> is_digit (hd p)" "\<not> is_digit (last p)" "no_digits r" "r \<noteq> []"
  shows "shows_mobile (replace_all p r s) \<Longrightarrow> shows_mobile s"
  using assms
proof (induction p r s rule: replace_all.induct)
  case (1 p r s)
  show ?case
  proof (cases "length r < length p \<and> contains s p")
    case True
    then have "p \<noteq> []" by auto
    then have "set (digit_runs (replace p r s)) \<subseteq> set (digit_runs s)"
      unfolding digit_runs_def replace_def using 1 by (intro runs_replace)
    moreover have "shows_mobile (replace p r s)"
      using 1 True by (simp add: replace_all.simps [of p r s])
    ultimately show ?thesis by (auto simp: shows_mobile_def list_ex_iff)
  next
    case False
    with "1.prems"(1) show ?thesis by (simp add: replace_all.simps [of p r s])
  qed
qed

lemma runs_spaces: "\<forall>c \<in> set t. \<not> is_digit c \<Longrightarrow> runs_after w (t @ s) = (if t = [] then runs_after w s else
    (if w = [] then [] else [w]) @ runs_after [] s)"
  by (cases "t = []") (simp_all add: runs_no_digits no_digits_def list_all_iff)

lemma digit_runs_strip: "digit_runs (strip s) = digit_runs s"
proof -
  have l: "runs_after [] (lstrip_by is_space u) = runs_after [] u" for u
  proof -
    have "u = takeWhile is_space u @ lstrip_by is_space u" by (simp add: lstrip_by_def)
    moreover have "\<forall>c \<in> set (takeWhile is_space u). \<not> is_digit c" by (auto dest: set_takeWhileD)
    ultimately show ?thesis using runs_spaces [of "takeWhile is_space u" "[]" "lstrip_by is_space u"] by (simp split: if_splits)
  qed
  have r: "runs_after w (rstrip_by is_space u) = runs_after w u" for w u
  proof -
    have "u = rstrip_by is_space u @ rev (takeWhile is_space (rev u))"
      by (metis rev_append rev_rev_ident rstrip_by_def takeWhile_dropWhile_id)
    moreover have "\<forall>c \<in> set (takeWhile is_space (rev u)). \<not> is_digit c" by (auto dest: set_takeWhileD)
    moreover have "\<forall>c \<in> set t. \<not> is_digit c \<Longrightarrow> runs_after v (x @ t) = runs_after v x" for v x t
      using runs_split [of t v x "[]"] by (cases "t = []") (simp_all add: no_digits_def list_all_iff)
    ultimately show ?thesis by (metis set_rev)
  qed
  show ?thesis by (simp add: digit_runs_def strip_def strip_by_def l r)
qed

section \<open>What the scanner passes over\<close>

lemma search_from_skips:
  assumes "search_from p False b a = Some (b1, st)"
  shows "\<exists>t a1. a = t @ a1 \<and> b1 = rev t @ b \<and> st \<in> set (ways p b1 a1) \<and>
    (\<forall>u v. t = u @ v \<and> v \<noteq> [] \<longrightarrow> ways p (rev u @ b) (v @ a1) = [])"
  using assms
proof (induction a arbitrary: b)
  case Nil
  then show ?case by (cases "ways p b []") auto
next
  case (Cons c a)
  show ?case
  proof (cases "ways p b (c # a)")
    case Nil
    with Cons.prems have "search_from p False (c # b) a = Some (b1, st)" by simp
    from Cons.IH [OF this] obtain t a1 where t: "a = t @ a1" "b1 = rev t @ c # b" "st \<in> set (ways p b1 a1)"
      "\<forall>u v. t = u @ v \<and> v \<noteq> [] \<longrightarrow> ways p (rev u @ c # b) (v @ a1) = []" by blast
    have "ways p (rev u @ b) (v @ a1) = []" if "c # t = u @ v" "v \<noteq> []" for u v
    proof (cases u)
      case Nil
      with that have "v = c # t" by simp
      then show ?thesis using Nil t(1) \<open>ways p b (c # a) = []\<close> by simp
    next
      case (Cons d u')
      then show ?thesis using that t(4) by simp
    qed
    with t show ?thesis by (intro exI [where x = "c # t"] exI [where x = a1]) auto
  next
    case (Cons st' sts)
    with Cons.prems show ?thesis by (intro exI [where x = "[]"] exI [where x = "c # a"]) auto
  qed
qed

text \<open>
  A pattern that finds every run of digits of a kind, only between non-digits, and never the empty text: after
  its substitution by a text without digits no run of that kind is left.
\<close>

locale run_finder =
  fixes p :: pattern and kind :: "string \<Rightarrow> bool"
  assumes finds: "kind x \<Longrightarrow> list_all is_digit x \<Longrightarrow> x \<noteq> [] \<Longrightarrow> b = [] \<or> \<not> is_digit (hd b) \<Longrightarrow>
      v = [] \<or> \<not> is_digit (hd v) \<Longrightarrow> ways p b (x @ v) \<noteq> []"
    and bounded: "st \<in> set (ways p b a) \<Longrightarrow> (b = [] \<or> \<not> is_digit (hd b)) \<and>
      (fst (snd st) = [] \<or> \<not> is_digit (hd (fst (snd st))))"
    and nonempty: "0 < min_len (rx p)"
begin

lemma way_consumes: "(b', a', g) \<in> set (ways p b a) \<Longrightarrow> \<exists>m. m \<noteq> [] \<and> a = m @ a' \<and> b' = rev m @ b"
  using nonempty way_min_len [of "(b', a', g)" p b a] by (auto simp: mk_match_def dest!: ways_step)

lemma scan_clean:
  assumes "no_digits r" "r \<noteq> []"
  shows "a = [] \<or> \<not> is_digit (hd a) \<or> b = [] \<or> \<not> is_digit (hd b) \<Longrightarrow>
    \<forall>x \<in> set (digit_runs (case scan p False b a of (xs, t) \<Rightarrow> concat (map (\<lambda>(gap, m). gap @ r) xs) @ t)). \<not> kind x"
proof (induction "length a" arbitrary: a b rule: less_induct)
  case less
  have gap: "\<not> kind x" if x: "x \<in> set (digit_runs t)" and a: "a = t @ a1"
    and skip: "\<forall>u v. t = u @ v \<and> v \<noteq> [] \<longrightarrow> ways p (rev u @ b) (v @ a1) = []"
    and edge: "a1 = [] \<or> t = [] \<or> \<not> is_digit (last t) \<or> \<not> is_digit (hd a1)" for x t a1
  proof
    assume k: "kind x"
    from x obtain u v where t: "t = u @ x @ v" and u: "u = [] \<or> \<not> is_digit (last u)"
      and v: "v = [] \<or> \<not> is_digit (hd v)"
      using runs_place [of x "[]" t] by (auto simp: digit_runs_def)
    have d: "list_all is_digit x" "x \<noteq> []" using x runs_digits [of "[]" x t] by (auto simp: digit_runs_def)
    then have hx: "is_digit (hd x)" "is_digit (last x)" by (auto simp: list_all_iff)
    have "rev u @ b = [] \<or> \<not> is_digit (hd (rev u @ b))"
      using u less.prems hx d a t by (cases u rule: rev_cases) auto
    moreover have "v @ a1 = [] \<or> \<not> is_digit (hd (v @ a1))"
      using v edge hx d t by (cases v) auto
    ultimately have "ways p (rev u @ b) (x @ v @ a1) \<noteq> []" by (rule finds [OF k d])
    moreover have "ways p (rev u @ b) ((x @ v) @ a1) = []" using skip t d(2) by blast
    ultimately show False by simp
  qed
  show ?case
  proof (cases "search_from p False b a")
    case None
    then have "scan p False b a = ([], a)" by (simp add: scan.simps [of p False b a])
    moreover have "\<forall>u v. a = u @ v \<and> v \<noteq> [] \<longrightarrow> ways p (rev u @ b) (v @ []) = []"
      using None by (auto simp: search_from_None)
    ultimately show ?thesis using gap [of _ a "[]"] by auto
  next
    case (Some y)
    obtain b1 b' a' g where y: "y = (b1, b', a', g)" by (cases y) auto
    from Some y have se: "search_from p False b a = Some (b1, b', a', g)" by simp
    from search_from_skips [OF this] obtain t a1 where t: "a = t @ a1" "b1 = rev t @ b"
      "(b', a', g) \<in> set (ways p b1 a1)"
      "\<forall>u v. t = u @ v \<and> v \<noteq> [] \<longrightarrow> ways p (rev u @ b) (v @ a1) = []" by (elim exE conjE)
    from way_consumes [OF t(3)] obtain m where m: "m \<noteq> []" "a1 = m @ a'" "b' = rev m @ b1" by blast
    from bounded [OF t(3)] have bd: "b1 = [] \<or> \<not> is_digit (hd b1)" "a' = [] \<or> \<not> is_digit (hd a')" by auto
    obtain ys u where sc: "scan p False b' a' = (ys, u)" by fastforce
    have "b' \<noteq> b1" using m by auto
    then have whole: "scan p False b a = ((t, mk_match b1 (b', a', g)) # ys, u)"
      using t(2) sc by (simp add: scan.simps [of p False b a] se)
    have ih: "\<forall>x \<in> set (digit_runs (concat (map (\<lambda>(gap, m). gap @ r) ys) @ u)). \<not> kind x"
    proof -
      have "length a' < length a" using t(1) m(1,2) by simp
      moreover have "a' = [] \<or> \<not> is_digit (hd a') \<or> b' = [] \<or> \<not> is_digit (hd b')" using bd(2) by blast
      ultimately show ?thesis using less.hyps [of a' b'] unfolding sc by simp
    qed
    have edge: "t = [] \<or> \<not> is_digit (last t)" using bd(1) t(2) by (cases t rule: rev_cases) auto
    have "\<forall>x \<in> set (digit_runs t). \<not> kind x" using gap [OF _ t(1) t(4)] edge by blast
    with ih show ?thesis
      by (simp add: whole digit_runs_def runs_split [OF assms] ball_Un)
  qed
qed

text \<open>No run of digits is new.\<close>

lemma scan_old_runs:
  assumes "no_digits r" "r \<noteq> []"
  shows "set (digit_runs (case scan p False b a of (xs, t) \<Rightarrow> concat (map (\<lambda>(gap, m). gap @ r) xs) @ t)) \<subseteq>
    set (digit_runs a)"
proof (induction "length a" arbitrary: a b rule: less_induct)
  case less
  show ?case
  proof (cases "search_from p False b a")
    case None
    then show ?thesis by (simp add: scan.simps [of p False b a])
  next
    case (Some y)
    obtain b1 b' a' g where y: "y = (b1, b', a', g)" by (cases y) auto
    from Some y have se: "search_from p False b a = Some (b1, b', a', g)" by simp
    from search_from_skips [OF this] obtain t a1 where t: "a = t @ a1" "b1 = rev t @ b"
      "(b', a', g) \<in> set (ways p b1 a1)" by blast
    from way_consumes [OF t(3)] obtain m where m: "m \<noteq> []" "a1 = m @ a'" "b' = rev m @ b1" by blast
    from bounded [OF t(3)] have bd: "b1 = [] \<or> \<not> is_digit (hd b1)" "a' = [] \<or> \<not> is_digit (hd a')" by auto
    obtain ys u where sc: "scan p False b' a' = (ys, u)" by fastforce
    have "b' \<noteq> b1" using m by auto
    then have whole: "scan p False b a = ((t, mk_match b1 (b', a', g)) # ys, u)"
      using t(2) sc by (simp add: scan.simps [of p False b a] se)
    have "length a' < length a" using t(1) m(1,2) by simp
    then have ih: "set (digit_runs (concat (map (\<lambda>(gap, m). gap @ r) ys) @ u)) \<subseteq> set (digit_runs a')"
      using less.hyps [of a' b'] unfolding sc by simp
    have edge: "t = [] \<or> \<not> is_digit (last t)" using bd(1) t(2) by (cases t rule: rev_cases) auto
    have "set (digit_runs t) \<union> set (digit_runs (m @ a')) \<subseteq> set (digit_runs a)"
      using edge runs_split [of "[last t]" "[]" "butlast t" "m @ a'"] runs_split [of "[last t]" "[]" "butlast t" "[]"]
      by (cases t rule: rev_cases) (auto simp: t(1) m(2) digit_runs_def no_digits_def)
    moreover have "set (digit_runs a') \<subseteq> set (digit_runs (m @ a'))"
      using bd(2) runs_split [of "[hd a']" "[]" m "tl a'"]
      by (cases a') (auto simp: digit_runs_def no_digits_def)
    ultimately show ?thesis using ih by (auto simp: whole digit_runs_def runs_split [OF assms])
  qed
qed

lemma sub_old_runs: "no_digits r \<Longrightarrow> r \<noteq> [] \<Longrightarrow> set (digit_runs (re_sub p r s)) \<subseteq> set (digit_runs s)"
  using scan_old_runs [of r "[]" s] by (simp add: re_sub_def re_sub_fun_def)

lemma sub_clean: "no_digits r \<Longrightarrow> r \<noteq> [] \<Longrightarrow> x \<in> set (digit_runs (re_sub p r s)) \<Longrightarrow> \<not> kind x"
  using scan_clean [of r s "[]"] by (simp add: re_sub_def re_sub_fun_def)

end

section \<open>The two patterns of contiguous numbers\<close>

abbreviation digit_cls :: re where "digit_cls \<equiv> RCls False [CDigit True]"

abbreviation start_cls :: re where "start_cls \<equiv> RCls False [CRange CHR ''6'' CHR ''9'']"

definition country_code :: re where
  "country_code =
     RAlt (RSeq (RAlt (RChar CHR ''+'') REps) (RSeq (RChar CHR ''9'') (RSeq (RChar CHR ''1'')
       (RAlt (RCls False [CChar CHR ''-'', CChar CHR ''.'', CSpace True]) REps)))) REps"

lemma mobile_rx:
  "rx mobile_in_text_re = RSeq (RBehind False digit_cls) (RSeq country_code
     (RSeq start_cls (RSeq (times 9 digit_cls REps) (RLook False digit_cls))))"
  by code_simp

lemma long_rx:
  "rx mobile_long_re = RSeq (RBehind False digit_cls) (RSeq
     (RAlt (RSeq (RChar CHR ''0'') (RSeq start_cls (times 9 digit_cls REps)))
       (RSeq start_cls (times 10 digit_cls REps))) (RLook False digit_cls))"
  by code_simp

lemma mobile_flags: "rx_ignorecase mobile_in_text_re = False" "rx_ignorecase mobile_long_re = False"
  by code_simp+

lemma ms_seqI: "s1 \<in> set (ms ic ml r1 s) \<Longrightarrow> s2 \<in> set (ms ic ml r2 s1) \<Longrightarrow> s2 \<in> set (ms ic ml (RSeq r1 r2) s)"
  by auto

lemma ms_altI: "s1 \<in> set (ms ic ml r1 s) \<or> s1 \<in> set (ms ic ml r2 s) \<Longrightarrow> s1 \<in> set (ms ic ml (RAlt r1 r2) s)"
  by auto

lemma ms_clsI: "cls_matches ic neg items c \<Longrightarrow> (c # b, a, g) \<in> set (ms ic ml (RCls neg items) (b, c # a, g))"
  by simp

lemma ms_times_cls:
  "length x = k \<Longrightarrow> 0 < k \<Longrightarrow> \<forall>c \<in> set x. cls_matches ic neg items c \<Longrightarrow>
   (rev x @ b, a, g) \<in> set (ms ic ml (times k (RCls neg items) REps) (b, x @ a, g))"
proof (induction k arbitrary: x b)
  case (Suc k)
  then obtain c y where x: "x = c # y" "length y = k" by (cases x) auto
  show ?case
  proof (cases "k = 0")
    case True
    with x Suc.prems show ?thesis by simp
  next
    case False
    then have "(rev y @ c # b, a, g) \<in> set (ms ic ml (times k (RCls neg items) REps) (c # b, y @ a, g))"
      using Suc x by (intro Suc.IH) auto
    with x Suc.prems False show ?thesis by simp
  qed
qed simp

lemma digit_cls_matches: "cls_matches False False [CDigit True] c = is_digit c"
  by (simp add: cls_matches_def)

lemma start_cls_matches: "c \<in> set ''6789'' \<Longrightarrow> cls_matches False False [CRange CHR ''6'' CHR ''9''] c"
  by (auto simp: cls_matches_def in_range_code)

lemma behind_ok: "b = [] \<or> \<not> is_digit (hd b) \<Longrightarrow> (b, a, g) \<in> set (ms False ml (RBehind False digit_cls) (b, a, g))"
  by (cases b) (simp_all add: digit_cls_matches)

lemma ahead_ok: "a = [] \<or> \<not> is_digit (hd a) \<Longrightarrow> (b, a, g) \<in> set (ms False ml (RLook False digit_cls) (b, a, g))"
  by (cases a) (simp_all add: digit_cls_matches)

lemma behind_inv: "st \<in> set (ms False ml (RBehind False digit_cls) (b, a, g)) \<Longrightarrow> st = (b, a, g) \<and> (b = [] \<or> \<not> is_digit (hd b))"
  by (cases b) (auto simp: digit_cls_matches split: if_splits)

lemma ahead_inv: "st \<in> set (ms False ml (RLook False digit_cls) (b, a, g)) \<Longrightarrow> st = (b, a, g) \<and> (a = [] \<or> \<not> is_digit (hd a))"
  by (cases a) (auto simp: digit_cls_matches split: if_splits)

lemma ways_nonempty: "st \<in> set (ways p b a) \<Longrightarrow> ways p b a \<noteq> []"
  by auto

lemma start_way:
  assumes "mobile_start y" "length y = Suc k" "0 < k" "list_all is_digit y"
  shows "\<exists>c z. y = c # z \<and> length z = k \<and>
    (c # b, z @ a, g) \<in> set (ms False ml start_cls (b, y @ a, g)) \<and>
    (rev y @ b, a, g) \<in> set (ms False ml (times k digit_cls REps) (c # b, z @ a, g))"
proof -
  from assms(2) obtain c z where y: "y = c # z" "length z = k" by (cases y) auto
  have "(rev z @ c # b, a, g) \<in> set (ms False ml (times k digit_cls REps) (c # b, z @ a, g))"
    using assms(3,4) y by (intro ms_times_cls) (auto simp: digit_cls_matches list_all_iff)
  moreover have "(c # b, z @ a, g) \<in> set (ms False ml start_cls (b, (c # z) @ a, g))"
    unfolding append_Cons using assms(1) y by (intro ms_clsI start_cls_matches) (simp add: mobile_start_def)
  ultimately show ?thesis using y by (intro exI [where x = c] exI [where x = z]) simp
qed

lemma finds_short:
  assumes "short_mobile x" "list_all is_digit x"
    and b: "b = [] \<or> \<not> is_digit (hd b)" and v: "v = [] \<or> \<not> is_digit (hd v)"
  shows "ways mobile_in_text_re b (x @ v) \<noteq> []"
proof -
  have tail: "\<exists>st. st \<in> set (ms False ml (RSeq start_cls (RSeq (times 9 digit_cls REps) (RLook False digit_cls))) (b', y @ v, g))"
    if y: "mobile_start y" "length y = 10" "list_all is_digit y" for y b' g ml
  proof -
    from start_way [of y 9 b' v g ml] y obtain c z where
      "(c # b', z @ v, g) \<in> set (ms False ml start_cls (b', y @ v, g))"
      "(rev y @ b', v, g) \<in> set (ms False ml (times 9 digit_cls REps) (c # b', z @ v, g))" by auto
    then show ?thesis using ahead_ok [OF v] by (blast intro: ms_seqI)
  qed
  obtain b' y where y: "mobile_start y" "length y = 10" "list_all is_digit y"
    and cc: "(b', y @ v, []) \<in> set (ms False ml country_code (b, x @ v, []))" for ml
  proof (cases "length x = 10")
    case True
    with assms have "mobile_start x" by (simp add: short_mobile_def)
    moreover have "(b, x @ v, []) \<in> set (ms False ml country_code (b, x @ v, []))" for ml
      unfolding country_code_def by (rule ms_altI) simp
    ultimately show thesis using True assms(2) that by blast
  next
    case False
    with assms(1) have l: "length x = 12" "take 2 x = ''91''" "mobile_start (drop 2 x)"
      by (auto simp: short_mobile_def)
    then obtain y where x: "x = CHR ''9'' # CHR ''1'' # y" by (metis append_Cons append_Nil append_take_drop_id)
    have "(CHR ''1'' # CHR ''9'' # b, y @ v, []) \<in> set (ms False ml country_code (b, x @ v, []))" for ml
      unfolding country_code_def x append_Cons by (simp add: chr_matches_def)
    moreover have "mobile_start y" "length y = 10" "list_all is_digit y" using l x assms(2) by simp_all
    ultimately show thesis using that by blast
  qed
  from tail [OF y] obtain st where "st \<in> set (ms False (rx_multiline mobile_in_text_re)
    (RSeq start_cls (RSeq (times 9 digit_cls REps) (RLook False digit_cls))) (b', y @ v, []))" by blast
  then have "st \<in> set (ways mobile_in_text_re b (x @ v))"
    unfolding ways_def mobile_rx mobile_flags
    by (intro ms_seqI [OF behind_ok [OF b]] ms_seqI [OF cc])
  then show ?thesis by (rule ways_nonempty)
qed

lemma finds_long:
  assumes "long_mobile x" "list_all is_digit x"
    and b: "b = [] \<or> \<not> is_digit (hd b)" and v: "v = [] \<or> \<not> is_digit (hd v)"
  shows "ways mobile_long_re b (x @ v) \<noteq> []"
proof -
  have body: "(rev x @ b, v, []) \<in> set (ms False ml (RAlt
      (RSeq (RChar CHR ''0'') (RSeq start_cls (times 9 digit_cls REps)))
      (RSeq start_cls (times 10 digit_cls REps))) (b, x @ v, []))" for ml
  proof (cases "mobile_start x")
    case True
    with assms start_way [of x 10 b v "[]" ml] show ?thesis
      by (intro ms_altI disjI2) (auto simp: long_mobile_def intro: ms_seqI)
  next
    case False
    with assms(1) have l: "length x = 11" "take 1 x = ''0''" "mobile_start (drop 1 x)"
      by (auto simp: long_mobile_def)
    then obtain y where x: "x = CHR ''0'' # y" by (cases x) auto
    have "(CHR ''0'' # b, y @ v, []) \<in> set (ms False ml (RChar CHR ''0'') (b, x @ v, []))"
      by (simp add: x chr_matches_def)
    moreover have "(rev x @ b, v, []) \<in> set (ms False ml (RSeq start_cls (times 9 digit_cls REps)) (CHR ''0'' # b, y @ v, []))"
      using start_way [of y 9 "CHR ''0'' # b" v "[]" ml] l x assms(2) by (auto intro: ms_seqI)
    ultimately show ?thesis by (intro ms_altI disjI1) (rule ms_seqI)
  qed
  have "(rev x @ b, v, []) \<in> set (ways mobile_long_re b (x @ v))"
    unfolding ways_def long_rx mobile_flags
    by (intro ms_seqI [OF behind_ok [OF b]] ms_seqI [OF body] ahead_ok [OF v])
  then show ?thesis by (rule ways_nonempty)
qed

interpretation short_finder: run_finder mobile_in_text_re short_mobile
proof
  fix st b a
  assume "st \<in> set (ways mobile_in_text_re b a)"
  then show "(b = [] \<or> \<not> is_digit (hd b)) \<and> (fst (snd st) = [] \<or> \<not> is_digit (hd (fst (snd st))))"
    unfolding ways_def mobile_rx mobile_flags
    by (auto simp del: ms.simps(12,13) dest!: behind_inv ahead_inv)
next
  have "min_len (rx mobile_in_text_re) = 10" by code_simp
  then show "0 < min_len (rx mobile_in_text_re)" by simp
qed (rule finds_short)

interpretation long_finder: run_finder mobile_long_re long_mobile
proof
  fix st b a
  assume "st \<in> set (ways mobile_long_re b a)"
  then show "(b = [] \<or> \<not> is_digit (hd b)) \<and> (fst (snd st) = [] \<or> \<not> is_digit (hd (fst (snd st))))"
    unfolding ways_def long_rx mobile_flags
    by (auto simp del: ms.simps(6,12,13) dest!: behind_inv ahead_inv)
next
  have "min_len (rx mobile_long_re) = 11" by code_simp
  then show "0 < min_len (rx mobile_long_re)" by simp
qed (rule finds_long)

section \<open>Nothing that is a mobile number is left\<close>

lemma marker_facts:
  "no_digits redacted_marker" "redacted_marker \<noteq> []" "\<not> is_digit (hd (redacted_marker @ '' '' @ redacted_marker))"
  "\<not> is_digit (last (redacted_marker @ '' '' @ redacted_marker))"
  by code_simp+

lemma redact_no_mobile_text: "\<not> shows_mobile (redact_indian_mobiles t)"
proof (cases "t = []")
  case True
  then show ?thesis by (simp add: redact_indian_mobiles_def shows_mobile_def digit_runs_def)
next
  case False
  let ?a = "re_sub mobile_loose_re redacted_marker t"
  let ?b = "re_sub mobile_long_re redacted_marker ?a"
  let ?c = "re_sub mobile_in_text_re redacted_marker ?b"
  let ?d = "replace_all (redacted_marker @ '' '' @ redacted_marker) redacted_marker ?c"
  have long: "x \<in> set (digit_runs ?b) \<Longrightarrow> \<not> long_mobile x" for x
    by (rule long_finder.sub_clean [OF marker_facts(1,2)])
  have short: "x \<in> set (digit_runs ?c) \<Longrightarrow> \<not> short_mobile x" for x
    by (rule short_finder.sub_clean [OF marker_facts(1,2)])
  have "set (digit_runs ?c) \<subseteq> set (digit_runs ?b)" by (rule short_finder.sub_old_runs [OF marker_facts(1,2)])
  with long short have c: "\<not> shows_mobile ?c"
    by (auto simp: shows_mobile_def mobile_number_def list_ex_iff)
  then have "\<not> shows_mobile ?d"
    using shows_mobile_replace_all [OF marker_facts(3,4,1,2)] by blast
  moreover have "shows_mobile (replace_all ''  '' '' '' ?d) \<Longrightarrow> shows_mobile ?d"
    by (rule shows_mobile_replace_all [of "''  ''" "'' ''"]) (simp_all add: is_digit_code no_digits_def)
  ultimately show ?thesis
    using False by (auto simp: redact_indian_mobiles_def Let_def shows_mobile_def digit_runs_strip)
qed

text \<open>C11:
  The redaction is complete for numbers written without separators: whatever the text, no maximal run of digits of
  the redacted text is an Indian mobile number, of ten digits, of twelve with the country code, or
  of the two eleven-digit forms.
\<close>

theorem redact_no_mobile: "\<not> shows_mobile (redact_indian_mobiles t)"
  by (rule redact_no_mobile_text)

lemma stored_message_no_mobile: "\<not> shows_mobile (lossless_normalized_message raw_text fallback_text)"
  unfolding lossless_normalized_message_def by (rule redact_no_mobile_text)

section \<open>Public listings\<close>

definition contact_cls :: re where
  "contact_cls = RCls False [CDigit True, CSpace True, CChar CHR ''('', CChar CHR '')'', CChar CHR ''.'', CChar CHR ''-'']"

lemma contact_rx:
  "\<exists>r. rx private_contact_re = RAlt r
     (RSeq (RAlt (RChar CHR ''+'') REps) (RSeq digit_cls (times 8 contact_cls (RStar True contact_cls))))"
  "rx_ignorecase private_contact_re = True"
  by (rule exI, unfold contact_cls_def, code_simp) code_simp

lemma ms_times_then:
  "length x = k \<Longrightarrow> s \<noteq> REps \<Longrightarrow> \<forall>c \<in> set x. cls_matches ic neg items c \<Longrightarrow>
   st \<in> set (ms ic ml s (rev x @ b, a, g)) \<Longrightarrow> st \<in> set (ms ic ml (times k (RCls neg items) s) (b, x @ a, g))"
proof (induction k arbitrary: x b)
  case (Suc k)
  then obtain c y where x: "x = c # y" "length y = k" by (cases x) auto
  then have "st \<in> set (ms ic ml (times k (RCls neg items) s) (c # b, y @ a, g))"
    using Suc by (intro Suc.IH) auto
  with x Suc.prems show ?case by simp
qed simp

lemma star_here: "(b, a, g) \<in> set (ms ic ml (RStar True r) (b, a, g))"
  by (simp add: in_ms_star)

text \<open>Nine digits in a row are private contact text.\<close>

lemma digits_are_contact:
  assumes "list_all is_digit x" and "9 \<le> length x"
  shows "re_found private_contact_re (u @ x @ v)"
proof -
  obtain r where rx: "rx private_contact_re = RAlt r
     (RSeq (RAlt (RChar CHR ''+'') REps) (RSeq digit_cls (times 8 contact_cls (RStar True contact_cls))))"
    using contact_rx(1) by blast
  obtain c y z where x: "x = c # y @ z" "length y = 8"
  proof -
    from assms(2) obtain c y where "x = c # y" "8 \<le> length y" by (cases x) auto
    then show thesis using that [of c "take 8 y" "drop 8 y"] by simp
  qed
  have dig: "is_digit d \<Longrightarrow> cls_matches True False [CDigit True] d"
    "is_digit d \<Longrightarrow> cls_matches True False [CDigit True, CSpace True, CChar CHR ''('', CChar CHR '')'', CChar CHR ''.'', CChar CHR ''-''] d"
    for d by (simp_all add: cls_matches_def)
  let ?ml = "rx_multiline private_contact_re"
  have "(rev y @ c # rev u, z @ v, []) \<in> set (ms True ?ml (times 8 contact_cls (RStar True contact_cls)) (c # rev u, y @ z @ v, []))"
    unfolding contact_cls_def using assms(1) x
    by (intro ms_times_then star_here) (auto simp: list_all_iff dig)
  moreover have "(c # rev u, y @ z @ v, []) \<in> set (ms True ?ml digit_cls (rev u, x @ v, []))"
    unfolding x append_Cons append_assoc using assms(1) x by (intro ms_clsI dig) simp
  moreover have "(rev u, x @ v, []) \<in> set (ms True ?ml (RAlt (RChar CHR ''+'') REps) (rev u, x @ v, []))"
    by (rule ms_altI) simp
  ultimately have "(rev y @ c # rev u, z @ v, []) \<in> set (ways private_contact_re (rev u) (x @ v))"
    unfolding ways_def rx contact_rx(2) by (blast intro: ms_altI ms_seqI)
  then have "ways private_contact_re (rev u @ []) (x @ v) \<noteq> []" by auto
  then have "search_from private_contact_re False [] (u @ x @ v) \<noteq> None"
    unfolding search_from_None by blast
  then show ?thesis by (simp add: re_found_def re_search_def)
qed

lemma no_contact_no_mobile: "\<not> re_found private_contact_re d \<Longrightarrow> \<not> shows_mobile d"
proof
  assume n: "\<not> re_found private_contact_re d" and "shows_mobile d"
  then obtain x where x: "x \<in> set (digit_runs d)" "mobile_number x" by (auto simp: shows_mobile_def list_ex_iff)
  then obtain u v where "d = u @ x @ v" using runs_place [of x "[]" d] by (auto simp: digit_runs_def)
  moreover have "list_all is_digit x" using x(1) runs_digits [of "[]" x d] by (auto simp: digit_runs_def)
  moreover have "9 \<le> length x" using x(2) by (auto simp: mobile_number_def short_mobile_def long_mobile_def)
  ultimately show False using n digits_are_contact by blast
qed

text \<open>C13:
  What is published.  A listing is eligible for the public site only when it is no requirement, has
  source evidence, a title that is no placeholder, and a description without contact words, without a
  telephone-like sequence and without a mobile number; the reasons are empty exactly then.
\<close>

theorem public_listing_clean:
  assumes "dget (public_metadata ai source summary_title is_requirement) ''public_eligible'' = VBool True"
  shows "\<not> is_requirement \<and> strip source \<noteq> [] \<and>
    dget (public_metadata ai source summary_title is_requirement) ''public_block_reasons'' = VList [] \<and>
    (\<exists>t. dget (public_metadata ai source summary_title is_requirement) ''public_seo_title'' = VStr t \<and>
       t \<noteq> [] \<and> re_match placeholder_title_re t = None) \<and>
    (\<exists>d. dget (public_metadata ai source summary_title is_requirement) ''public_seo_description'' = VStr d \<and>
       d \<noteq> [] \<and> \<not> re_found private_contact_re d \<and> \<not> shows_mobile d)"
proof -
  let ?h = "public_title ai summary_title" and ?d = "public_description ai"
  have b: "public_blocks ?h ?d source is_requirement = []"
    using assms by (simp add: public_metadata_def Let_def dget_def)
  then have f: "\<not> is_requirement" "strip source \<noteq> []" "?h \<noteq> []" "re_match placeholder_title_re ?h = None"
    "?d \<noteq> []" "\<not> re_found private_contact_re ?d"
    by (auto simp: public_blocks_def split: if_splits)
  then show ?thesis
    using b no_contact_no_mobile [OF f(6)]
    by (simp add: public_metadata_def Let_def dget_def text_or_none_def vstrs_def)
qed

section \<open>Examples\<close>

definition public_item :: pydict where
  "public_item = [(''public_seo_title'', VStr ''9876543210''), (''public_seo_description'', VStr ''sea'')]"

lemma public_item_blocks: "public_blocks ''9876543210'' ''sea'' ''x'' False = []"
  by code_simp

lemma public_item_texts: "public_title public_item VNone = ''9876543210''" "public_description public_item = ''sea''"
  by code_simp+

lemma public_item_eligible: "dget (public_metadata public_item ''x'' VNone False) ''public_eligible'' = VBool True"
  by (simp add: public_metadata_def Let_def dget_def public_item_texts public_item_blocks)

theorem public_listing_clean_witness:
  "dget (public_metadata public_item ''x'' VNone False) ''public_block_reasons'' = VList []"
  using public_listing_clean [OF public_item_eligible] by blast

text \<open>The title is neither redacted nor searched for contacts: a mobile number in it is published.\<close>

lemma public_title_unchecked:
  "dget (public_metadata public_item ''x'' VNone False) ''public_eligible'' = VBool True \<and>
   dget (public_metadata public_item ''x'' VNone False) ''public_seo_title'' = VStr ''9876543210'' \<and>
   shows_mobile ''9876543210''"
proof -
  have "shows_mobile ''9876543210''" by code_simp
  then show ?thesis
    using public_item_eligible
    by (simp add: public_metadata_def Let_def dget_def public_item_texts text_or_none_def)
qed

text \<open>
  The spaces are collapsed after the patterns have run: a number written with two spaces between its halves passes
  and comes out in the form with one space that the first pattern is there to catch.
\<close>

lemma two_spaces_leak:
  "redact_indian_mobiles ''98765  43210'' = ''98765 43210'' \<and> re_found mobile_loose_re ''98765 43210''"
  by code_simp

end
