(* ===== verification/SourceLocality.thy ===== *)
theory SourceLocality
  imports LocalityCanon
begin

text \<open>
  \<open>extraction.py\<close>, the locality of a listing and the text it comes from: an explicit label, a known name
  in a line, or the market a line implies replaces what the model inferred from the wider message.

  \<open>_known_locality_in_text\<close> sorts a \<open>set\<close> of names by their number of words; the order of names with the
  same number is the iteration order of the set, which depends on the hash seed of the process.  It is the
  parameter \<open>order\<close>: it takes the elements of a set to the list in which the set is iterated.
\<close>

section \<open>Numbers and confidences\<close>

text \<open>\<open>_safe_float\<close>: the first number in the printed value; of a mapping or a list the first value that has one.\<close>

definition dots_run_re :: pattern where
  "dots_run_re = rx_plain ''%.{2,}''"

definition decimal_re :: pattern where
  "decimal_re = rx_plain ''-?%d+(?:%.%d+)?''"

definition number_in_text :: "string \<Rightarrow> pyfloat option" where
  "number_in_text s =
     (let t = replace '','' [] (strip s)
      in if re_found dots_run_re t then None
         else Option.bind (re_search decimal_re t) (\<lambda>m. parse_float (m_text m)))"

definition head_option :: "'a list \<Rightarrow> 'a option" where
  "head_option xs = (case xs of [] \<Rightarrow> None | x # _ \<Rightarrow> Some x)"

lemma map_filter_cong [fundef_cong]:
  "xs = ys \<Longrightarrow> (\<And>x. x \<in> set ys \<Longrightarrow> f x = g x) \<Longrightarrow> List.map_filter f xs = List.map_filter g ys"
  by (induction xs arbitrary: ys) (auto simp: List.map_filter_simps split: option.splits)

function (sequential) safe_float :: "pyval \<Rightarrow> pyfloat option" where
  "safe_float VNone = None"
| "safe_float (VDict d) =
     head_option (List.map_filter
       (\<lambda>k. case map_of d k of Some v \<Rightarrow> safe_float v | None \<Rightarrow> None) [''amount'', ''value'', ''price''])"
| "safe_float (VList xs) = head_option (List.map_filter safe_float xs)"
| "safe_float v = number_in_text (py_str v)"
  by pat_completeness auto
termination
proof (relation "measure size")
  show "(v, VDict d) \<in> measure size" if "map_of d k = Some v" for k d v
    using size_list_estimation' [OF map_of_SomeD [OF that] order_refl, of "size_prod (\<lambda>_. 0) size"] by simp
  show "(v, VList xs) \<in> measure size" if "v \<in> set xs" for v xs
    using size_list_estimation' [OF that order_refl, of size] by simp
qed simp

text \<open>\<open>_confidence_score\<close>: a label or a number, brought into the unit interval.\<close>

definition persisted_labels :: "(string \<times> pyfloat) list" where
  "persisted_labels =
    [(''low'', flit (35 / 100)), (''weak'', flit (35 / 100)), (''poor'', flit (35 / 100)),
     (''medium'', flit (65 / 100)), (''moderate'', flit (65 / 100)), (''mid'', flit (65 / 100)),
     (''high'', flit (9 / 10)), (''strong'', flit (9 / 10)), (''good'', flit (9 / 10))]"

definition confidence_of :: "pyval \<Rightarrow> pyfloat" where
  "confidence_of v =
     (case (case v of VStr s \<Rightarrow> map_of persisted_labels (lower (strip s)) | _ \<Rightarrow> None) of
        Some x \<Rightarrow> x
      | None \<Rightarrow> fmax (Fin 0) (fmin (Fin 1) (case safe_float v of Some x \<Rightarrow> x | None \<Rightarrow> Fin 0)))"

section \<open>Words and names\<close>

definition mumbai_localities :: "string list" where
  "mumbai_localities =
    [''Bandra East'', ''Bandra West'', ''Bandra'', ''Andheri East'', ''Andheri West'',
     ''Santacruz East'', ''Santacruz West'', ''Santacruz'', ''Khar West'', ''Khar'',
     ''BKC'', ''Lower Parel'', ''Worli'', ''Sion'', ''Goregaon East'', ''Goregaon West'',
     ''Malad East'', ''Malad West'', ''Powai'', ''Chembur'', ''Dadar'', ''Prabhadevi'',
     ''Pali Hill'', ''Kalina'', ''Juhu'', ''Lokhandwala'']"

definition source_aliases :: "(string \<times> string) list" where
  "source_aliases =
    [(''s'' @ [CHR 0x27] @ ''cruz w'', ''Santacruz West''), (''s'' @ [CHR 0x27] @ ''cruz west'', ''Santacruz West''),
     (''santacruz w'', ''Santacruz West''), (''santacruz west'', ''Santacruz West''),
     (''khar w'', ''Khar West''), (''khar west'', ''Khar West''),
     (''bandra w'', ''Bandra West''), (''bandra west'', ''Bandra West''), (''kalanagar'', ''Bandra East'')]"

definition source_line :: "string \<Rightarrow> string" where
  "source_line l = strip_chars ('' -:'' @ [CHR 0x84]) (filter (\<lambda>c. c \<notin> set ''*_`~'') l)"

definition is_alnum :: "char \<Rightarrow> bool" where
  "is_alnum c = (is_alpha c \<or> is_digit c)"

definition source_words :: "string \<Rightarrow> string list" where
  "source_words v =
     split_ws (map (\<lambda>c. if is_alnum c then c else CHR '' '')
       (filter (\<lambda>c. c \<noteq> CHR 0x27 \<and> c \<noteq> CHR 0x81) (casefold v)))"

definition choice_names :: "string list" where
  "choice_names = dedup (map fst source_aliases @ mumbai_localities)"

text \<open>\<open>sorted(set(choices), key=..., reverse=True)\<close>: stable, for the order in which the set is iterated.\<close>

definition locality_choices :: "(string list \<Rightarrow> string list) \<Rightarrow> string list" where
  "locality_choices order =
     rev (sort_key (\<lambda>c. length (source_words c)) (rev (order choice_names)))"

definition choice_name :: "string \<Rightarrow> string" where
  "choice_name choice =
     (let resolved = (case List.find (\<lambda>(a, _). casefold a = casefold choice) source_aliases of
                        Some (_, c) \<Rightarrow> c | None \<Rightarrow> choice)
      in if casefold resolved = ''bkc'' then ''BKC'' else resolved)"

definition known_locality_in_text :: "(string list \<Rightarrow> string list) \<Rightarrow> string \<Rightarrow> string option" where
  "known_locality_in_text order v =
     map_option choice_name
       (List.find (\<lambda>c. sublist (source_words c) (source_words v)) (locality_choices order))"

definition source_contextual_market :: "(string list \<Rightarrow> string list) \<Rightarrow> string \<Rightarrow> string option" where
  "source_contextual_market order source = known_locality_in_text order (nfkc source)"

section \<open>The locality a source states\<close>

definition location_labels :: "string list" where
  "location_labels = [''location'', ''locality'', ''micro market'', ''micro-market'', ''area location'']"

definition labelled_location :: "string \<Rightarrow> string option" where
  "labelled_location line =
     (let cleaned = source_line line
      in case List.find (startswith (casefold cleaned)) location_labels of
           None \<Rightarrow> None
         | Some l \<Rightarrow>
             (let remainder = lstrip_by (\<lambda>c. c \<in> set ('' :=-'' @ [CHR 0x09])) (drop (length l) cleaned)
              in if remainder \<noteq> [] \<and> \<not> list_ex (\<lambda>t. t \<in> set (source_words remainder)) [''sq'', ''sqft'', ''sf'']
                 then Some (join '' '' (split_ws (strip_chars '' .;,|-_'' remainder))) else None))"

text \<open>\<open>s.find(p)\<close>.\<close>

fun find_text :: "string \<Rightarrow> string \<Rightarrow> nat option" where
  "find_text p [] = (if p = [] then Some 0 else None)"
| "find_text p (c # s) = (if prefix p (c # s) then Some 0 else map_option Suc (find_text p s))"

text \<open>The name in the casing of the line, the longest names first.\<close>

definition cased_mention :: "(string list \<Rightarrow> string list) \<Rightarrow> string \<Rightarrow> string \<Rightarrow> string" where
  "cased_mention order cleaned contextual =
     (case List.find (\<lambda>l. known_locality_in_text order cleaned = Some (if casefold l = ''bkc'' then ''BKC'' else l))
             (rev (sort_key length (rev mumbai_localities))) of
        None \<Rightarrow> contextual
      | Some l \<Rightarrow>
          (case find_text (casefold l) (casefold cleaned) of
             Some i \<Rightarrow> take (length l) (drop i cleaned)
           | None \<Rightarrow> l))"

definition place_words :: "string list" where
  "place_words = [''at'', ''in'', ''near'', ''off'', ''opp'', ''opposite'', ''behind'', ''around'', ''location'', ''area'']"

definition listing_words :: "string list" where
  "listing_words =
    [''rent'', ''sale'', ''bhk'', ''sq'', ''sqft'', ''carpet'', ''deposit'', ''furnished'', ''floor'', ''price'', ''rs'']"

text \<open>\<open>a or b\<close> of optional names, none of which is empty.\<close>

abbreviation or_else :: "'a option \<Rightarrow> 'a option \<Rightarrow> 'a option" where
  "or_else a b \<equiv> (case a of Some x \<Rightarrow> Some x | None \<Rightarrow> b)"

definition spatial_line :: "string \<Rightarrow> bool" where
  "spatial_line cleaned =
     (list_ex (\<lambda>w. w \<in> set place_words) (source_words cleaned) \<or> CHR '','' \<in> set cleaned \<or> CHR ''/'' \<in> set cleaned)"

definition dashed_line :: "string \<Rightarrow> bool" where
  "dashed_line cleaned =
     list_ex (contains cleaned) ['' - '', '' '' @ [CHR 0x82] @ '' '', '' '' @ [CHR 0x83] @ '' '']"

definition listing_line :: "string \<Rightarrow> bool" where
  "listing_line cleaned =
     (list_ex (\<lambda>w. w \<in> set listing_words) (source_words cleaned) \<or> CHR 0x80 \<in> set cleaned)"

definition unlabelled_location :: "(string list \<Rightarrow> string list) \<Rightarrow> string \<Rightarrow> string option" where
  "unlabelled_location order line =
     (let cleaned = source_line line
      in if cleaned = [] then None
         else or_else
           (if spatial_line cleaned
            then or_else (source_contextual_market order cleaned) (infer_unique_micro_market (Some cleaned)) else None)
           (or_else
             (if dashed_line cleaned
              then map_option (cased_mention order cleaned) (source_contextual_market order cleaned) else None)
             (if \<not> listing_line cleaned \<and> length cleaned \<le> 80 \<and> infer_unique_micro_market (Some cleaned) \<noteq> None
              then Some cleaned else None)))"

definition source_explicit_location :: "(string list \<Rightarrow> string list) \<Rightarrow> string \<Rightarrow> string option" where
  "source_explicit_location order source =
     (let lines = splitlines (nfkc source)
      in or_else (head_option (List.map_filter labelled_location lines))
           (head_option (List.map_filter (unlabelled_location order) lines)))"

section \<open>Grounding\<close>

definition flagged :: "string \<Rightarrow> pydict \<Rightarrow> pydict result" where
  "flagged flag ai =
     bindE (list_or_empty (dget ai ''validation_flags'')) (\<lambda>flags.
     bindE (fromkeys (flags @ [VStr flag])) (\<lambda>fs.
       Inr (dput ai ''validation_flags'' (VList fs))))"

definition resolved_as :: "string \<Rightarrow> pyfloat \<Rightarrow> pydict \<Rightarrow> pydict" where
  "resolved_as name least loc =
     dput (dput loc ''resolved_locality'' (VStr name))
       ''confidence'' (VFloat (fmax (confidence_of (dget loc ''confidence'')) least))"

text \<open>The three keys that hold the locality of an item.\<close>

definition relocate :: "string \<Rightarrow> pyfloat \<Rightarrow> pydict \<Rightarrow> pydict" where
  "relocate name least ai =
     (let loc = dict_of (dget ai ''locality'')
      in dput (dput (dput ai
           ''locality'' (VDict (resolved_as name least (dput loc ''raw_mention'' (VStr name)))))
           ''location_raw'' (VStr name)) ''micro_market'' (VStr name))"

definition tail_words :: "string list" where
  "tail_words = [''lift'', ''empty'', ''rent'', ''broker'', ''brokerage'', ''profile'', ''client'', ''need'']"

definition feature_tail :: "pydict \<Rightarrow> bool" where
  "feature_tail loc =
     (let candidate = str_or (dget loc ''raw_mention'') @ '' '' @ str_or (dget loc ''resolved_locality'')
      in list_ex (\<lambda>w. w \<in> set tail_words) (source_words candidate) \<or> contains (casefold candidate) ''no cp'')"

definition broad_parents :: "string list" where
  "broad_parents = [''bandra'', ''khar'', ''santacruz'', ''andheri'']"

definition upgrade_parent :: "pydict \<Rightarrow> string \<Rightarrow> pydict" where
  "upgrade_parent ai source =
     (let loc = dict_of (dget ai ''locality'');
          current = lower (strip (str_or (or_val (dget loc ''resolved_locality'') (dget ai ''micro_market''))))
      in case infer_unique_micro_market (Some source) of
           Some market \<Rightarrow>
             if current \<in> set broad_parents
             then dput (dput ai ''locality'' (VDict (resolved_as market (flit (9 / 10)) loc))) ''micro_market'' (VStr market)
             else ai
         | None \<Rightarrow> ai)"

definition stated_location :: "(string list \<Rightarrow> string list) \<Rightarrow> string \<Rightarrow> string option" where
  "stated_location order source =
     (case source_explicit_location order source of Some [] \<Rightarrow> None | stated \<Rightarrow> stated)"

definition ground_locality_to_source :: "(string list \<Rightarrow> string list) \<Rightarrow> pydict \<Rightarrow> string \<Rightarrow> pydict result" where
  "ground_locality_to_source order ai source =
     (let loc = dict_of (dget ai ''locality'')
      in case stated_location order source of
           Some t \<Rightarrow>
             bindE (if dget loc ''raw_mention'' \<noteq> VStr t \<or> dget loc ''resolved_locality'' \<noteq> VStr t
                    then flagged ''locality_repaired_from_explicit_source_boundary'' ai else Inr ai)
               (\<lambda>ai. Inr (relocate t (flit (9 / 10)) ai))
         | None \<Rightarrow>
             case (if feature_tail loc then known_locality_in_text order (nfkc source) else None) of
               Some r \<Rightarrow> bindE (flagged ''locality_repaired_from_feature_tail'' ai)
                           (\<lambda>ai. Inr (relocate r (flit (85 / 100)) ai))
             | None \<Rightarrow> Inr (upgrade_parent ai source))"

section \<open>The longest name wins\<close>

lemma find_Some: "List.find P xs = Some x \<Longrightarrow> x \<in> set xs \<and> P x"
  by (induction xs) (auto split: if_splits)

lemma find_sorted_desc:
  fixes f :: "'a \<Rightarrow> nat"
  assumes "List.find P (rev (sort_key f (rev xs))) = Some x" and "y \<in> set xs" and "P y"
  shows "f y \<le> f x"
proof -
  let ?ys = "rev (sort_key f (rev xs))"
  have o: "sorted_wrt (\<lambda>x y. f y \<le> f x) ?ys"
    using sorted_sort_key [of f "rev xs"] by (simp add: sorted_map sorted_wrt_rev)
  have "sorted_wrt (\<lambda>x y. f y \<le> f x) zs \<Longrightarrow> List.find P zs = Some x \<Longrightarrow> y \<in> set zs \<Longrightarrow> f y \<le> f x" for zs
    using assms(3) by (induction zs) (auto split: if_splits)
  from this [OF o assms(1)] assms(2) show ?thesis by simp
qed

lemma choices_set: "set (order choice_names) = set choice_names \<Longrightarrow> set (locality_choices order) = set choice_names"
  by (simp add: locality_choices_def)

lemma choice_names_known: "list_all (\<lambda>c. choice_name c \<in> set mumbai_localities) choice_names"
  by code_simp

lemma known_locality_cases:
  assumes "set (order choice_names) = set choice_names"
    and "known_locality_in_text order v = Some r"
  shows "\<exists>c \<in> set choice_names. r = choice_name c \<and> sublist (source_words c) (source_words v) \<and>
    (\<forall>c' \<in> set choice_names. sublist (source_words c') (source_words v) \<longrightarrow>
       length (source_words c') \<le> length (source_words c))"
proof -
  from assms(2) obtain c where c: "List.find (\<lambda>c. sublist (source_words c) (source_words v)) (locality_choices order) = Some c"
    "r = choice_name c" by (auto simp: known_locality_in_text_def)
  note f = find_Some [OF c(1)] and l = find_sorted_desc [OF c(1) [unfolded locality_choices_def]]
  from f have "c \<in> set choice_names" by (simp add: choices_set [of order, OF assms(1)])
  moreover have "length (source_words c') \<le> length (source_words c)"
    if "c' \<in> set choice_names" "sublist (source_words c') (source_words v)" for c'
    using l [of c'] that assms(1) by simp
  ultimately show ?thesis using f c(2) by blast
qed

lemma known_locality_None:
  assumes "set (order choice_names) = set choice_names"
  shows "known_locality_in_text order v = None \<longleftrightarrow> (\<forall>c \<in> set choice_names. \<not> sublist (source_words c) (source_words v))"
  using choices_set [of order, OF assms] by (auto simp: known_locality_in_text_def find_None_iff)

text \<open>C34:
  The locality read from a text is the canonical name of a known name whose words stand in the text, and no
  known name with more words does; there is none exactly when no known name stands in the text.  This holds
  for every order in which the set of names is iterated.
\<close>

theorem longest_known_locality:
  assumes "set (order choice_names) = set choice_names"
  shows "(\<forall>r. known_locality_in_text order v = Some r \<longrightarrow> r \<in> set mumbai_localities \<and>
      (\<exists>c \<in> set choice_names. r = choice_name c \<and> sublist (source_words c) (source_words v) \<and>
        (\<forall>c' \<in> set choice_names. sublist (source_words c') (source_words v) \<longrightarrow>
           length (source_words c') \<le> length (source_words c)))) \<and>
    (known_locality_in_text order v = None \<longleftrightarrow>
      (\<forall>c \<in> set choice_names. \<not> sublist (source_words c) (source_words v)))"
proof (intro conjI allI impI)
  fix r
  assume r: "known_locality_in_text order v = Some r"
  show e: "\<exists>c \<in> set choice_names. r = choice_name c \<and> sublist (source_words c) (source_words v) \<and>
        (\<forall>c' \<in> set choice_names. sublist (source_words c') (source_words v) \<longrightarrow>
           length (source_words c') \<le> length (source_words c))"
    by (rule known_locality_cases [of order, OF assms r])
  show "r \<in> set mumbai_localities" using e choice_names_known [unfolded list_all_iff] by blast
qed (rule known_locality_None [of order, OF assms])

theorem longest_known_locality_witness:
  "known_locality_in_text rev ''2 bhk in Bandra W, near Khar'' = Some ''Bandra West'' \<and>
   sublist (source_words ''bandra w'') (source_words ''2 bhk in Bandra W, near Khar'')"
proof -
  have "known_locality_in_text rev ''2 bhk in Bandra W, near Khar'' = Some ''Bandra West''" by code_simp
  moreover have "sublist (source_words ''bandra w'') (source_words ''2 bhk in Bandra W, near Khar'')" by code_simp
  ultimately show ?thesis using longest_known_locality [of rev] by simp
qed

text \<open>Names with the same number of words: the hash seed decides.\<close>

lemma hash_order_decides:
  "known_locality_in_text (\<lambda>xs. xs) ''Bandra West or Andheri East'' \<noteq>
   known_locality_in_text rev ''Bandra West or Andheri East''"
  by code_simp

section \<open>Grounding is in the source\<close>

text \<open>How a line of the source states a location.\<close>

definition states_location :: "(string list \<Rightarrow> string list) \<Rightarrow> string \<Rightarrow> string \<Rightarrow> bool" where
  "states_location order t line =
     (labelled_location line = Some t \<or>
      (case known_locality_in_text order (source_line line) of Some r \<Rightarrow> casefold t = casefold r | None \<Rightarrow> False) \<or>
      infer_unique_micro_market (Some (source_line line)) = Some t \<or>
      t = source_line line \<and> infer_unique_micro_market (Some t) \<noteq> None)"

lemma or_else_Some: "or_else a b = Some x \<longleftrightarrow> a = Some x \<or> a = None \<and> b = Some x"
  by (auto split: option.splits)

lemma head_option_map_filter: "head_option (List.map_filter f xs) = Some y \<Longrightarrow> \<exists>x \<in> set xs. f x = Some y"
  by (induction xs) (auto simp: head_option_def List.map_filter_simps split: option.splits)

lemma find_text_slice:
  "find_text p s = Some i \<Longrightarrow> take (length p) (drop i s) = p"
  by (induction s arbitrary: i) (auto simp: prefix_def split: if_splits)

lemma casefold_slice: "casefold (take n (drop i s)) = take n (drop i (casefold s))"
  by (simp add: casefold_def lower_def take_map drop_map)

lemma casefold_length [simp]: "length (casefold s) = length s"
  by (simp add: casefold_def lower_def)

lemma cased_mention_name:
  assumes "known_locality_in_text order cleaned = Some r"
  shows "casefold (cased_mention order cleaned r) = casefold r"
proof (cases "List.find (\<lambda>l. known_locality_in_text order cleaned = Some (if casefold l = ''bkc'' then ''BKC'' else l))
    (rev (sort_key length (rev mumbai_localities)))")
  case (Some l)
  then have "Some r = Some (if casefold l = ''bkc'' then ''BKC'' else l)"
    using find_Some [OF Some] assms by argo
  moreover have "casefold ''BKC'' = ''bkc''" by code_simp
  ultimately have l: "casefold r = casefold l" by (auto split: if_splits)
  show ?thesis
  proof (cases "find_text (casefold l) (casefold cleaned)")
    case (Some i)
    then have "casefold (take (length l) (drop i cleaned)) = casefold l"
      using find_text_slice [OF Some] by (simp add: casefold_slice)
    with l \<open>List.find _ _ = Some l\<close> Some show ?thesis by (simp add: cased_mention_def)
  qed (use l \<open>List.find _ _ = Some l\<close> in \<open>simp add: cased_mention_def\<close>)
qed (simp add: cased_mention_def)

lemma unlabelled_states: "unlabelled_location order line = Some t \<Longrightarrow> states_location order t line"
  by (auto simp: unlabelled_location_def states_location_def Let_def or_else_Some source_contextual_market_def nfkc_def
      cased_mention_name split: if_splits)

lemma explicit_location_stated:
  assumes "source_explicit_location order source = Some t"
  shows "\<exists>line \<in> set (splitlines source). states_location order t line"
  using assms unfolding source_explicit_location_def Let_def or_else_Some nfkc_def
proof (elim disjE conjE)
  assume "head_option (List.map_filter labelled_location (splitlines source)) = Some t"
  then show ?thesis by (force simp: states_location_def dest: head_option_map_filter)
next
  assume "head_option (List.map_filter (unlabelled_location order) (splitlines source)) = Some t"
  then show ?thesis by (force dest: head_option_map_filter unlabelled_states)
qed

lemma relocate_facts:
  "k \<notin> {''locality'', ''location_raw'', ''micro_market''} \<Longrightarrow> dget (relocate name least ai) k = dget ai k"
  "dget (dict_of (dget (relocate name least ai) ''locality'')) ''resolved_locality'' = VStr name"
  "dget (dict_of (dget (relocate name least ai) ''locality'')) ''raw_mention'' = VStr name"
  "dget (relocate name least ai) ''micro_market'' = VStr name"
  by (simp_all add: relocate_def resolved_as_def dict_of_def Let_def)

lemma flagged_frame: "flagged f ai = Inr out \<Longrightarrow> k \<noteq> ''validation_flags'' \<Longrightarrow> dget out k = dget ai k"
  by (auto simp: flagged_def bindE_Inr_iff)

lemma upgrade_facts:
  "k \<notin> {''locality'', ''micro_market''} \<Longrightarrow> dget (upgrade_parent ai source) k = dget ai k"
  "upgrade_parent ai source = ai \<or>
   (\<exists>m. infer_unique_micro_market (Some source) = Some m \<and>
     dget (dict_of (dget (upgrade_parent ai source) ''locality'')) ''resolved_locality'' = VStr m \<and>
     dget (upgrade_parent ai source) ''micro_market'' = VStr m)"
  by (auto simp: upgrade_parent_def resolved_as_def dict_of_def Let_def split: option.splits)

lemma stated_explicit: "stated_location order source = Some t \<Longrightarrow> source_explicit_location order source = Some t"
  by (auto simp: stated_location_def split: option.splits list.splits)

definition location_keys :: "string list" where
  "location_keys = [''locality'', ''location_raw'', ''micro_market'', ''validation_flags'']"

text \<open>C14:
  Grounding touches the location keys and the flags only.  A locality it changes is one the source states in a
  line, a known name standing in the source, or the one market the source implies; a stated location always
  wins over the model's, and what counts as stated is an explicit label or a line that names a place.
\<close>

theorem locality_grounded:
  assumes g: "ground_locality_to_source order ai source = Inr out"
  shows "(\<forall>k. k \<notin> set location_keys \<longrightarrow> dget out k = dget ai k) \<and>
    (dget out ''locality'' \<noteq> dget ai ''locality'' \<longrightarrow>
      (\<exists>name. dget (dict_of (dget out ''locality'')) ''resolved_locality'' = VStr name \<and>
        dget out ''micro_market'' = VStr name \<and>
        (stated_location order source = Some name \<or> known_locality_in_text order source = Some name \<or>
         infer_unique_micro_market (Some source) = Some name))) \<and>
    (\<forall>t. stated_location order source = Some t \<longrightarrow>
      dget (dict_of (dget out ''locality'')) ''resolved_locality'' = VStr t \<and>
      dget (dict_of (dget out ''locality'')) ''raw_mention'' = VStr t \<and>
      (\<exists>line \<in> set (splitlines source). states_location order t line))"
proof (cases "stated_location order source")
  case (Some t)
  then obtain ai1 where a: "out = relocate t (flit (9 / 10)) ai1"
    and f: "ai1 = ai \<or> flagged ''locality_repaired_from_explicit_source_boundary'' ai = Inr ai1"
    using g by (auto simp: ground_locality_to_source_def Let_def bindE_Inr_iff split: if_splits)
  have "dget out k = dget ai k" if "k \<notin> set location_keys" for k
    using that f by (auto simp: a location_keys_def relocate_facts flagged_frame)
  moreover note explicit_location_stated [OF stated_explicit [OF Some]]
  ultimately show ?thesis using Some a by (simp add: relocate_facts)
next
  case None
  show ?thesis
  proof (cases "if feature_tail (dict_of (dget ai ''locality'')) then known_locality_in_text order (nfkc source) else None")
    case (Some r)
    then have r: "known_locality_in_text order source = Some r" by (simp add: nfkc_def split: if_splits)
    from Some None obtain ai1 where a: "out = relocate r (flit (85 / 100)) ai1"
      and f: "flagged ''locality_repaired_from_feature_tail'' ai = Inr ai1"
      using g by (auto simp: ground_locality_to_source_def Let_def bindE_Inr_iff)
    have "dget out k = dget ai k" if "k \<notin> set location_keys" for k
      using that by (auto simp: a location_keys_def relocate_facts flagged_frame [OF f])
    then show ?thesis using None a r by (simp add: relocate_facts)
  next
    case no_tail: None
    with None g have a: "out = upgrade_parent ai source" by (simp add: ground_locality_to_source_def Let_def)
    have "dget out k = dget ai k" if "k \<notin> set location_keys" for k
      using that by (auto simp: a location_keys_def upgrade_facts(1))
    then show ?thesis using None upgrade_facts(2) [of ai source] by (auto simp: a)
  qed
qed

definition sanpada_item :: pydict where
  "sanpada_item =
    [(''bhk'', VInt 2),
     (''locality'', VDict [(''raw_mention'', VStr ''Mumbai''), (''resolved_locality'', VStr ''Bandra West'')])]"

definition sanpada_text :: string where
  "sanpada_text = ''Location: Sanpada'' @ [CHR 0x0A] @ ''2 bhk near Bandra''"

lemma sanpada_stated: "stated_location (\<lambda>xs. xs) sanpada_text = Some ''Sanpada''"
  by code_simp

lemma sanpada_grounded:
  "\<exists>out. ground_locality_to_source (\<lambda>xs. xs) sanpada_item sanpada_text = Inr out"
proof -
  have "\<exists>ai. flagged f sanpada_item = Inr ai" for f
    by (simp add: flagged_def sanpada_item_def dget_def list_or_empty_def fromkeys_def hashable_def is_list_def is_dict_def)
  then show ?thesis by (auto simp: ground_locality_to_source_def sanpada_stated Let_def bindE_Inr_iff)
qed

theorem locality_grounded_witness:
  "\<exists>out. ground_locality_to_source (\<lambda>xs. xs) sanpada_item sanpada_text = Inr out \<and>
     stated_location (\<lambda>xs. xs) sanpada_text = Some ''Sanpada'' \<and>
     dget (dict_of (dget out ''locality'')) ''resolved_locality'' = VStr ''Sanpada'' \<and> dget out ''bhk'' = VInt 2"
proof -
  obtain out where out: "ground_locality_to_source (\<lambda>xs. xs) sanpada_item sanpada_text = Inr out"
    using sanpada_grounded by blast
  have "dget sanpada_item ''bhk'' = VInt 2" "''bhk'' \<notin> set location_keys"
    by (simp_all add: sanpada_item_def dget_def location_keys_def)
  with locality_grounded [OF out] out sanpada_stated show ?thesis by auto
qed

text \<open>A number in exponent form is read up to the exponent: a confidence near zero counts as full.\<close>

lemma tiny_confidence_is_full: "confidence_of (VStr ''1e-05'') = Fin 1"
proof -
  have "number_in_text ''1e-05'' = Some (Fin 1)" by code_simp
  moreover have "map_of persisted_labels (lower (strip ''1e-05'')) = None"
    by (simp add: persisted_labels_def) code_simp
  ultimately show ?thesis by (simp add: confidence_of_def py_str_def fmax_def fmin_def)
qed

end
