(* ===== verification/SourceCandidates.thy ===== *)
theory SourceCandidates
  imports SourceLocality SourceAuthority SourceRoutes ExtractionQuality PriceNorm "HOL-Library.AList"
begin

text \<open>
  \<open>source_authority_candidates.py\<close>: the evidence a source slice holds for the fields of an extraction, the
  evaluation of an extraction against it, and the projection of the approved corrections.  A call that raises
  in one adapter loses the candidates of all.
\<close>

section \<open>Spans\<close>

text \<open>\<open>match.span(n)\<close>, and \<open>_span_for\<close>: where a value stands in the source, up to case.\<close>

definition m_span :: "nat \<Rightarrow> rmatch \<Rightarrow> int \<times> int" where
  "m_span n m =
     (let slice = (\<lambda>i t. (int i, int i + int (length t)))
      in if n = 0 then slice (length (m_before m)) (m_text m)
         else case map_of (m_groups m) n of Some (i, t) \<Rightarrow> slice i t | None \<Rightarrow> (-1, -1))"

definition named_span :: "pattern \<Rightarrow> string \<Rightarrow> rmatch \<Rightarrow> int \<times> int" where
  "named_span p nm m = (case map_of (rx_names p) nm of Some n \<Rightarrow> m_span n m | None \<Rightarrow> (-1, -1))"

definition span_for :: "string \<Rightarrow> string \<Rightarrow> (int \<times> int) option" where
  "span_for source t =
     (if t = [] then None
      else map_option (\<lambda>i. (int i, int i + int (length t))) (find_text (casefold t) (casefold source)))"

text \<open>A confidence in hundredths.\<close>

definition pct :: "int \<Rightarrow> pyfloat" where
  "pct n = flit (of_int n / 100)"

lemma pct_values:
  "pct 40 = Fin (3602879701896397 / 9007199254740992)"
  "pct 45 = Fin (8106479329266893 / 18014398509481984)"
  "pct 70 = Fin (3152519739159347 / 4503599627370496)"
  "pct 90 = Fin (8106479329266893 / 9007199254740992)"
  "pct 92 = Fin (8286623314361713 / 9007199254740992)"
  "pct 94 = Fin (2116691824864133 / 2251799813685248)"
  "pct 95 = Fin (4278419646001971 / 4503599627370496)"
  "pct 96 = Fin (1080863910568919 / 1125899906842624)"
  "pct 98 = Fin (2206763817411543 / 2251799813685248)"
  by (simp_all add: pct_def float_eval)

lemma pct_code [code]:
  "pct n =
     (if n = 40 then Fin (3602879701896397 / 9007199254740992)
       else if n = 45 then Fin (8106479329266893 / 18014398509481984)
       else if n = 70 then Fin (3152519739159347 / 4503599627370496)
       else if n = 90 then Fin (8106479329266893 / 9007199254740992)
       else if n = 92 then Fin (8286623314361713 / 9007199254740992)
       else if n = 94 then Fin (2116691824864133 / 2251799813685248)
       else if n = 95 then Fin (4278419646001971 / 4503599627370496)
       else if n = 96 then Fin (1080863910568919 / 1125899906842624)
       else if n = 98 then Fin (2206763817411543 / 2251799813685248)
      else flit (of_int n / 100))"
  unfolding pct_values [symmetric] pct_def [symmetric] by simp

text \<open>An explicit and unique candidate.\<close>

definition explicit_evidence ::
    "string option \<Rightarrow> string \<Rightarrow> pyval \<Rightarrow> (int \<times> int) option \<Rightarrow> string \<Rightarrow> pyfloat \<Rightarrow> evidence" where
  "explicit_evidence slice field v where_at rule c =
     \<lparr>ev_field = field, ev_value = v, ev_span = where_at, ev_rule = rule, ev_confidence = c,
      ev_explicit = True, ev_unique = True, ev_slice_id = slice\<rparr>"

section \<open>Route and place\<close>

definition marker_re :: "string \<Rightarrow> pattern" where
  "marker_re route =
     (if route = ''rent'' then
        rx_i ''%b(?:rent|rental|monthly%s+rent|per%s+month|for%s+rent|on%s+rent|for%s+lease|on%s+lease|lease)%b''
      else if route = ''sale'' then
        rx_i ''%b(?:sale|selling|for%s+sale|on%s+sale|asking%s+price|outright|outrate)%b''
      else rx_i ''%b(?:buyer|tenant|client%s+)?(?:requirements?|required|require|wanted|want|need(?:s|ed)?)%b'')"

definition route_candidate :: "string option \<Rightarrow> string \<Rightarrow> evidence option" where
  "route_candidate slice source =
     (let result = classify_source_boundary source
      in map_option
           (\<lambda>route.
             (explicit_evidence slice ''listing_type'' (VStr route)
                (map_option (m_span 0) (re_search (marker_re route) source))
                (''source_boundary.explicit_route.'' @ route) (pct 95))
             \<lparr>ev_unique := (route = ''requirement'' \<or> \<not> (sb_rent result \<and> sb_sale result))\<rparr>)
           (if has_explicit_requirement_heading source then Some ''requirement'' else sb_route result))"

definition heading_locality_re :: pattern where
  "heading_locality_re = re_compile True True
     ''^%s*%*[^*%n]{2,70}%*%s*(?P<locality>[A-Za-z][A-Za-z .%x27/&-]{1,48}?)%s*(?:[-%u2013%u2014:]%s*)?%d+(?:%.%d+)?%s*(?:bhk|rk)%b''"

definition locality_candidate ::
    "(string list \<Rightarrow> string list) \<Rightarrow> string option \<Rightarrow> string \<Rightarrow> evidence option" where
  "locality_candidate order slice source =
     (case stated_location order source of
        Some t \<Rightarrow> Some (explicit_evidence slice ''locality'' (VStr t) (span_for source t)
                   ''locality.explicit_label'' (pct 90))
      | None \<Rightarrow>
          (case re_search heading_locality_re source of
             None \<Rightarrow> None
           | Some m \<Rightarrow>
               (let t = strip_chars '' .,;|-_'' (text_or (m_named heading_locality_re ''locality'' m))
                in if t = [] then None
                   else Some (explicit_evidence slice ''locality'' (VStr t)
                          (Some (named_span heading_locality_re ''locality'' m))
                          ''locality.explicit_heading_context'' (pct 90)))))"

definition contextual_locality_candidate ::
    "(string list \<Rightarrow> string list) \<Rightarrow> string option \<Rightarrow> string \<Rightarrow> evidence option" where
  "contextual_locality_candidate order slice source =
     map_option (\<lambda>t.
         (explicit_evidence slice ''locality'' (VStr t) (span_for source t)
            ''locality.contextual_mention'' (pct 45))\<lparr>ev_explicit := False, ev_unique := False\<rparr>)
       (source_contextual_market order source)"

section \<open>Bedrooms, prices, areas\<close>

definition core_bhk_re :: pattern where
  "core_bhk_re = rx_i ''%b(%d+(?:%.%d+)?)%s*(?:bhk|bhd|rk|bed(?:%s*rooms?)?|bedrooms?|br)%b''"

definition multi_unit_bhk_re :: pattern where
  "multi_unit_bhk_re = rx_i
     ''%b(?P<count>%d+)%s*(?:x|%u00d7|%*|%s+)%s*(?P<bhk>%d+(?:%.%d+)?)%s*(?:bhk|bhd|rk|bed%s*rooms?|bedrooms?|br)%b''"

text \<open>\<open>int\<close> of a group of digits.\<close>

definition bhk_candidates :: "string option \<Rightarrow> string \<Rightarrow> evidence list" where
  "bhk_candidates slice source =
     (case re_search multi_unit_bhk_re source of
        Some m \<Rightarrow>
          (case safe_float (VStr (group_or [] 2 m)) of
             Some x \<Rightarrow> [explicit_evidence slice ''bhk'' (VFloat x) (Some (m_span 2 m))
                         ''bhk.explicit_multi_unit'' (pct 98)]
           | None \<Rightarrow> [])
          @ [explicit_evidence slice ''listing_count'' (VInt (int_of_digits (group_or [] 1 m)))
               (Some (m_span 1 m)) ''listing_count.explicit_multi_unit'' (pct 98)]
      | None \<Rightarrow>
          (case re_search core_bhk_re source of
             None \<Rightarrow> []
           | Some m \<Rightarrow>
               (case safe_float (VStr (group_or [] 1 m)) of
                  Some x \<Rightarrow> [explicit_evidence slice ''bhk'' (VFloat x) (Some (m_span 1 m))
                              ''bhk.explicit'' (pct 95)]
                | None \<Rightarrow> [])))"

definition psf_price_candidate :: "string option \<Rightarrow> string \<Rightarrow> evidence option" where
  "psf_price_candidate slice source =
     map_option
       (\<lambda>(amount, raw). explicit_evidence slice ''price_per_sqft'' (VFloat amount) (span_for source raw)
          ''price.explicit_psf'' (pct 95))
       (extract_simple_psf_rate (VStr source))"

definition vfloat :: "pyfloat option \<Rightarrow> pyval" where
  "vfloat x = (case x of Some f \<Rightarrow> VFloat f | None \<Rightarrow> VNone)"

definition total_price_re :: pattern where
  "total_price_re = rx_i (
     ''(?:(?:asking|ask|price|quote|rent|rental|budget)%s*[:=%-]?%s*)?(?:%u20b9|rs%.?|inr)%s*([%d,.]+)%s*(cr(?:ore|ores)?|lac(?:s)?|lakh(?:s)?|l|k|thousand)%b''
     @ ''|(?:(?:asking|ask|price|quote|rent|rental|budget)%s*[:=%-]?%s*)([%d,.]+)%s*(cr(?:ore|ores)?|lac(?:s)?|lakh(?:s)?|l|k|thousand)%b'')"

text \<open>\<open>match.group(i) or match.group(j)\<close>.\<close>

definition either_group :: "nat \<Rightarrow> nat \<Rightarrow> rmatch \<Rightarrow> string" where
  "either_group i j m = (case group_or [] i m of [] \<Rightarrow> group_or [] j m | t \<Rightarrow> t)"

definition total_price_candidate :: "string option \<Rightarrow> string \<Rightarrow> evidence option result" where
  "total_price_candidate slice source =
     (case re_finditer total_price_re source of
        [m] \<Rightarrow>
          bindE (float_of (VStr (rstrip_chars ''.'' (replace '','' [] (either_group 1 3 m))))) (\<lambda>amount.
          bindE (price_to_rupees (VFloat amount) (VStr (rstrip_chars ''s'' (lower (either_group 2 4 m))))) (\<lambda>total.
            Inr (Some (explicit_evidence slice ''price_total'' (vfloat total)
              (Some (m_span (if group_or [] 1 m \<noteq> [] then 1 else 3) m)) ''price.explicit_total'' (pct 96)))))
      | _ \<Rightarrow> Inr None)"

definition area_quote_re :: pattern where
  "area_quote_re = rx_i
     ''(?<![%w.])(?P<area>[%d,]+(?:%.%d+)?)%s*(?:sq%.?%s*ft|sqft|sft|square%s+feet)%b''"

definition area_candidate :: "string option \<Rightarrow> string \<Rightarrow> evidence option result" where
  "area_candidate slice source =
     (case re_finditer area_quote_re source of
        [m] \<Rightarrow>
          bindE (float_of (VStr (replace '','' [] (text_or (m_named area_quote_re ''area'' m))))) (\<lambda>area.
            Inr (Some (explicit_evidence slice ''area_sqft'' (VFloat area) (Some (named_span area_quote_re ''area'' m))
              ''area.explicit_square_feet'' (pct 96))))
      | _ \<Rightarrow> Inr None)"

section \<open>Phrases, budgets and buildings\<close>

definition furnishing_patterns :: "(string \<times> pattern) list" where
  "furnishing_patterns =
    [(''fully_furnished'', rx_i ''%b(?:fully%s+furnished|furnished|fully%s+loaded)%b''),
     (''semi_furnished'', rx_i ''%bsemi[-%s]?furnished%b''),
     (''unfurnished'', rx_i ''%bunfurnished%b''),
     (''bare_shell'', rx_i ''%bbare[-%s]?shell%b''),
     (''builder_finish'', rx_i ''%bbuilder[-%s]?finish(?:ed)?%b'')]"

definition category_patterns :: "(string \<times> pattern) list" where
  "category_patterns =
    [(''commercial'', rx_i ''%b(?:commercial|office(?:%s+space)?|shop|showroom|warehouse|industrial)%b''),
     (''residential'', rx_i ''%b(?:residential|apartment|flat|villa|bungalow|penthouse)%b'')]"

text \<open>The one phrase of a list of alternatives that a source has.\<close>

definition phrase_matches :: "(string \<times> pattern) list \<Rightarrow> string \<Rightarrow> (string \<times> rmatch) list" where
  "phrase_matches ps source = List.map_filter (\<lambda>(v, p). map_option (\<lambda>m. (v, m)) (re_search p source)) ps"

definition phrase_candidate ::
    "(string \<times> pattern) list \<Rightarrow> string \<Rightarrow> string \<Rightarrow> pyfloat \<Rightarrow> string option \<Rightarrow> string \<Rightarrow> evidence option" where
  "phrase_candidate ps field rule c slice source =
     (case phrase_matches ps source of
        [(v, m)] \<Rightarrow> Some (explicit_evidence slice field (VStr v) (Some (m_span 0 m)) rule c)
      | _ \<Rightarrow> None)"

definition furnishing_candidate :: "string option \<Rightarrow> string \<Rightarrow> evidence option" where
  "furnishing_candidate =
     phrase_candidate furnishing_patterns ''furnishing_status'' ''furnishing.explicit_phrase'' (pct 95)"

definition category_candidate :: "string option \<Rightarrow> string \<Rightarrow> evidence option" where
  "category_candidate =
     phrase_candidate category_patterns ''property_category'' ''asset_category.explicit_phrase'' (pct 92)"

definition demand_cue_re :: pattern where
  "demand_cue_re = re_compile True True ''^%s*[^%n]*(?:requirement|required|wanted|need)%b''"

definition quoted_units :: string where
  "quoted_units = ''(k|thousand|l|lac|lakh|lakhs|cr|crore|crores)''"

definition explicit_range_re :: pattern where
  "explicit_range_re = rx_i (
     ''%b(?:budget|rent|rental|rantal|rant)%s*[:%-]?%s*(?:%u20b9|rs%.?%s*)?([%d,.]+)%s*'' @ quoted_units @
     ''%s*(?:-|to|%u2013|%u2014)%s*(?:%u20b9|rs%.?%s*)?([%d,.]+)%s*'' @ quoted_units @ ''%b'')"

definition explicit_cap_re :: pattern where
  "explicit_cap_re = rx_i (
     ''%bbudget%s*[:%-]?%s*(?:up%s*to|upto|maximum|max)%s*(?:%u20b9|rs%.?%s*)?([%d,.]+)%s*'' @ quoted_units @ ''%b'')"

definition quoted_amount :: "nat \<Rightarrow> nat \<Rightarrow> rmatch \<Rightarrow> pyfloat result" where
  "quoted_amount i j m =
     bindE (float_of (VStr (replace '','' [] (group_or [] i m)))) (\<lambda>x.
       Inr (fmul x (fint (budget_multiplier (lower (group_or [] j m))))))"

definition requirement_budget_candidates :: "string option \<Rightarrow> string \<Rightarrow> evidence list result" where
  "requirement_budget_candidates slice source =
     (if \<not> re_found demand_cue_re source then Inr []
      else case re_search explicit_range_re source of
        Some m \<Rightarrow>
          bindE (quoted_amount 1 2 m) (\<lambda>low. bindE (quoted_amount 3 4 m) (\<lambda>high.
            let (a, b) = (if flt high low then (high, low) else (low, high));
                ev = (\<lambda>field x i. explicit_evidence slice field (VFloat x) (Some (m_span i m))
                       ''requirement.explicit_budget_range'' (pct 96))
            in Inr [ev ''budget_min'' a 1, ev ''budget_max'' b 3]))
      | None \<Rightarrow>
          (case re_search explicit_cap_re source of
             None \<Rightarrow> Inr []
           | Some m \<Rightarrow>
               bindE (quoted_amount 1 2 m) (\<lambda>x.
                 Inr [explicit_evidence slice ''budget_max'' (VFloat x) (Some (m_span 1 m))
                        ''requirement.explicit_budget_cap'' (pct 96)])))"

definition building_label_re :: pattern where
  "building_label_re = re_compile True True
     ''^%s*(?:building|project|society|tower)%s*[:=%-]%s*(?P<name>[^|,%n]+?)%s*$''"

definition building_heading_re :: pattern where
  "building_heading_re = re_compile True True
     ''^%s*%*(?P<name>[A-Za-z][^*%n]{1,69})%*%s*[^%n]*?(?:[-%u2013%u2014:]%s*)?%d+(?:%.%d+)?%s*(?:bhk|rk)%b''"

definition building_row_re :: pattern where
  "building_row_re = re_compile True True
     ''^%s*[*_~]*(?:%(%s*%d+%s*%)|%d+[.)])%s*(?P<name>[A-Za-z][A-Za-z0-9 &%x27./]{1,70}?)%s+[%u2013%u2014-]%s+[A-Za-z][^%n]*?[*_~]*$''"

definition building_rules :: "(string \<times> pattern) list" where
  "building_rules =
    [(''building.explicit_label'', building_label_re), (''building.explicit_bold_heading'', building_heading_re),
     (''building.explicit_numbered_heading'', building_row_re)]"

definition word_run_re :: pattern where
  "word_run_re = rx_plain ''[A-Za-z0-9]+''"

text \<open>The group \<open>name\<close> is the first of every pattern; the first pattern that matches decides.\<close>

definition building_candidate :: "string option \<Rightarrow> string \<Rightarrow> evidence option" where
  "building_candidate slice source =
     (case List.find (\<lambda>(_, m). m \<noteq> None) (map (\<lambda>(rule, p). (rule, re_search p source)) building_rules) of
        Some (rule, Some m) \<Rightarrow>
          (let name = strip_chars '' *_~`-:'' (group_or [] 1 m)
           in if name = [] \<or> length (re_finditer word_run_re name) < 2 then None
              else Some (explicit_evidence slice ''building_name'' (VStr name) (Some (m_span 1 m)) rule (pct 94)))
      | _ \<Rightarrow> None)"

section \<open>Collecting the candidates\<close>

text \<open>
  \<open>candidates[k] = e\<close>, \<open>candidates.setdefault(k, e)\<close>.  The adapters are evaluated in the order of the code,
  and the exception of one is the result of all.
\<close>

type_synonym candidates = "(string \<times> evidence) list"

definition put_candidate :: "candidates \<Rightarrow> evidence \<Rightarrow> candidates" where
  "put_candidate cs e = AList.update (ev_field e) e cs"

definition default_candidate :: "candidates \<Rightarrow> evidence \<Rightarrow> candidates" where
  "default_candidate cs e = (if map_of cs (ev_field e) = None then cs @ [(ev_field e, e)] else cs)"

definition resolver_candidate ::
    "string \<Rightarrow> pyval \<Rightarrow> string \<Rightarrow> string \<Rightarrow> pyfloat \<Rightarrow> bool \<Rightarrow> bool \<Rightarrow> (int \<times> int) option \<Rightarrow> string option \<Rightarrow> evidence" where
  "resolver_candidate field v source rule c explicit unique where_at slice =
     \<lparr>ev_field = field, ev_value = v,
      ev_span = (case where_at of Some s \<Rightarrow> Some s | None \<Rightarrow> span_for source (str_or v)),
      ev_rule = rule, ev_confidence = c, ev_explicit = explicit, ev_unique = unique, ev_slice_id = slice\<rparr>"

definition present :: "'a option list \<Rightarrow> 'a list" where
  "present xs = List.map_filter (\<lambda>x. x) xs"

definition produce_source_candidates ::
    "(string list \<Rightarrow> string list) \<Rightarrow> string \<Rightarrow> string option \<Rightarrow> evidence list \<Rightarrow> candidates result" where
  "produce_source_candidates order source slice resolver_results =
     bindE (total_price_candidate slice source) (\<lambda>total.
     bindE (area_candidate slice source) (\<lambda>area.
     bindE (requirement_budget_candidates slice source) (\<lambda>budgets.
       let firsts = present
             [route_candidate slice source, locality_candidate order slice source, psf_price_candidate slice source,
              total, furnishing_candidate slice source, category_candidate slice source, area,
              building_candidate slice source];
           cs = foldl put_candidate [] firsts
       in Inr (foldl default_candidate cs (bhk_candidates slice source @ budgets @ resolver_results)))))"

section \<open>Evaluation and projection\<close>

text \<open>
  \<open>dict(v or {})\<close> of a value that need not be a dictionary: a sequence has to consist of pairs.  Keys that
  are no strings are outside the values of the model; nothing asks for them.
\<close>

fun pair_of :: "pyval \<Rightarrow> (pyval \<times> pyval) result" where
  "pair_of (VList [k, v]) = Inr (k, v)"
| "pair_of (VStr [k, v]) = Inr (VStr [k], VStr [v])"
| "pair_of (VDict [(k, _), (v, _)]) = Inr (VStr k, VStr v)"
| "pair_of (VList _) = Inl ValueError"
| "pair_of (VStr _) = Inl ValueError"
| "pair_of (VDict _) = Inl ValueError"
| "pair_of _ = Inl TypeError"

definition dict_from :: "pyval \<Rightarrow> pydict result" where
  "dict_from v =
     (if \<not> truthy v then Inr []
      else case v of
        VDict d \<Rightarrow> Inr d
      | _ \<Rightarrow>
          bindE (iter_of v) (foldE (\<lambda>d x. bindE (pair_of x) (\<lambda>(k, w).
            case k of VStr s \<Rightarrow> Inr (dput d s w) | _ \<Rightarrow> if hashable k then Inr d else Inl TypeError)) []))"

definition locality_input :: "pydict \<Rightarrow> pydict \<Rightarrow> pydict" where
  "locality_input ai inp =
     (case dget ai ''locality'' of
        VDict l \<Rightarrow> dput inp ''locality'' (or_val (dget l ''resolved_locality'') (dget l ''raw_mention''))
      | _ \<Rightarrow> inp)"

definition price_input :: "pydict \<Rightarrow> pydict \<Rightarrow> pydict result" where
  "price_input ai inp =
     (case dget ai ''price'' of
        VDict p \<Rightarrow>
          (let unit = dget p ''unit'';
               inp = dput inp ''price_per_sqft''
                       (if py_eq unit (VStr ''per_sqft'') then dget p ''amount'' else VNone)
           in if \<not> hashable unit then Inl TypeError
              else if unit \<notin> {VStr ''per_sqft'', VStr ''psf''} \<and> dget p ''amount'' \<noteq> VNone then
                bindE (price_to_rupees (dget p ''amount'') (VStr (rstrip_chars ''s'' (str_or unit)))) (\<lambda>total.
                  Inr (dput inp ''price_total'' (vfloat total)))
              else Inr inp)
      | _ \<Rightarrow> Inr inp)"

definition authority_input :: "pydict \<Rightarrow> pydict result" where
  "authority_input ai = price_input ai (locality_input ai ai)"

definition default_confidence :: "pydict \<Rightarrow> pyval" where
  "default_confidence ai =
     (case dget_or ai ''extraction_confidence_score'' (dget ai ''confidence'') of
        VNone \<Rightarrow>
          (let label = casefold (str_or (dget ai ''extraction_confidence''))
           in VFloat (if label = ''high'' then pct 90 else if label = ''medium'' then pct 70
                else if label = ''low'' then pct 40 else Fin 0))
      | c \<Rightarrow> c)"

definition restrict_to :: "string list \<Rightarrow> pydict \<Rightarrow> pydict" where
  "restrict_to names d = map (\<lambda>f. (f, dget d f)) names"

definition evaluate_extraction_authority ::
    "(string list \<Rightarrow> string list) \<Rightarrow> pydict \<Rightarrow> string \<Rightarrow> string option \<Rightarrow> evidence list \<Rightarrow> pyval \<Rightarrow> authority result" where
  "evaluate_extraction_authority order ai source slice resolver_results field_confidence =
     bindE (authority_input ai) (\<lambda>inp.
     bindE (dict_from (or_val field_confidence (dget ai ''field_confidence''))) (\<lambda>confidence.
     bindE (produce_source_candidates order source slice resolver_results) (\<lambda>cs.
       let names = map fst cs in
       evaluate_source_authority (restrict_to names inp) source (Some source) (map (\<lambda>(f, e). (f, Some e)) cs)
         (restrict_to (filter (dhas confidence) names) confidence)
         [(''source_slice_id'', vopt slice), (''default_ai_confidence'', default_confidence ai)])))"

definition priced :: "(string \<times> pyval) list \<Rightarrow> pydict \<Rightarrow> pydict result" where
  "priced entries ai = bindE (dict_from (dget ai ''price'')) (\<lambda>p. Inr (dput ai ''price'' (VDict (dupdate p entries))))"

definition project_decision :: "pydict \<Rightarrow> decision \<Rightarrow> pydict result" where
  "project_decision ai d =
     (let field = fd_field d; v = fd_final d in
      if fd_action d \<noteq> Correct_From_Source then Inr ai
      else if field = ''listing_type'' then Inr (dput (dput ai ''listing_type'' v) ''routing_listing_type'' v)
      else if field = ''locality'' then
        bindE (dict_from (dget ai ''locality'')) (\<lambda>l.
          Inr (dput ai ''locality'' (VDict (dput (dput l ''raw_mention'' v) ''resolved_locality'' v))))
      else if field = ''price_per_sqft'' then
        priced [(''amount'', v), (''unit'', VStr ''per_sqft''), (''period'', VNone)] ai
      else if field = ''price_total'' then
        priced [(''amount'', v), (''unit'', VStr ''total''),
          (''period'', VStr (if casefold (str_or (dget ai ''listing_type'')) = ''rent'' then ''per_month'' else ''one_time''))] ai
      else if field = ''transaction_type'' then Inr (dput (dput ai field v) ''classified_transaction_type'' v)
      else Inr (dput ai field v))"

text \<open>The provenance as the value that is stored.\<close>

definition action_name :: "action \<Rightarrow> string" where
  "action_name a =
     (case a of Trust_AI \<Rightarrow> ''trust_ai'' | Correct_From_Source \<Rightarrow> ''correct_from_source''
      | Review_Preserve_AI \<Rightarrow> ''review_preserve_ai'' | Missing_Needs_Review \<Rightarrow> ''missing_needs_review'')"

definition entry_val :: "prov_entry \<Rightarrow> pyval" where
  "entry_val e =
     VDict [(''action'', VStr (action_name (pe_action e))), (''ai_value'', pe_ai e), (''source_candidate'', pe_candidate e),
       (''rule_id'', vopt (pe_rule e)),
       (''source_span'', case pe_span e of Some (a, b) \<Rightarrow> VList [VInt a, VInt b] | None \<Rightarrow> VNone),
       (''source_slice_id'', vopt (pe_slice_id e)), (''reasons'', vstrs (pe_reasons e))]"

definition provenance_dict :: "provenance \<Rightarrow> pydict" where
  "provenance_dict p =
     [(''ai_values'', VDict (pv_ai_values p)),
      (''field_decisions'', VDict (map (\<lambda>(f, e). (f, entry_val e)) (pv_decisions p))),
      (''source_text_available'', VBool (pv_text_available p)), (''source_slice'', vopt (pv_slice p))]"

definition apply_authority_result :: "pydict \<Rightarrow> authority \<Rightarrow> pydict result" where
  "apply_authority_result ai r =
     bindE (foldE project_decision ai (sa_decisions r)) (\<lambda>out0.
       let out = (if sa_review r then dput out0 ''needs_review'' (VBool True) else out0) in
       bindE (list_or_empty (dget out ''validation_flags'')) (\<lambda>flags.
       bindE (fromkeys (flags @ map VStr (sa_flags r))) (\<lambda>fs.
         Inr (dput (dput out ''validation_flags'' (VList fs)) ''source_authority''
                (VDict (provenance_dict (sa_provenance r)))))))"

section \<open>Spans lie in the source\<close>

lemma find_text_bound: "find_text p s = Some i \<Longrightarrow> i + length p \<le> length s"
  by (induction s arbitrary: i) (auto dest: prefix_length_le split: if_splits)

lemma span_for_valid: "span_for source t = Some s \<Longrightarrow> span_is_valid (Some s) source"
  by (auto simp: span_for_def span_is_valid_def dest!: find_text_bound split: if_splits)

lemma match_span_valid: "match_in k source m \<Longrightarrow> m_text m \<noteq> [] \<Longrightarrow> span_is_valid (Some (m_span 0 m)) source"
  by (auto simp: match_in_def m_span_def span_is_valid_def)

lemma group_span_valid:
  assumes "match_in k source m" and "m_group n m = Some t" and "n \<noteq> 0" and "t \<noteq> []"
  shows "span_is_valid (Some (m_span n m)) source"
proof -
  from assms(2,3) obtain i where i: "map_of (m_groups m) n = Some (i, t)" by (auto simp: m_group_def)
  then have "(n, i, t) \<in> set (m_groups m)" by (rule map_of_SomeD)
  with assms(1) have "\<exists>u v. source = u @ t @ v \<and> length u = i" by (fastforce simp: match_in_def)
  with i assms(3,4) show ?thesis by (auto simp: m_span_def span_is_valid_def)
qed

text \<open>A group that every match sets, and sets to a text that is not empty.\<close>

definition solid_group :: "nat \<Rightarrow> pattern \<Rightarrow> bool" where
  "solid_group n p = (n \<noteq> 0 \<and> sets_group n (rx p) \<and> list_all (\<lambda>r. 0 < min_len r) (groups_of n (rx p)))"

lemma in_group_solid: "in_group p n t \<Longrightarrow> list_all (\<lambda>r. 0 < min_len r) (groups_of n (rx p)) \<Longrightarrow> t \<noteq> []"
  using min_len_lang by (fastforce simp: in_group_def list_all_iff)

lemma search_group_span:
  assumes "re_search p source = Some m" and "solid_group n p"
  shows "span_is_valid (Some (m_span n m)) source"
proof -
  from assms(2) have n: "sets_group n (rx p)" "n \<noteq> 0" by (simp_all add: solid_group_def)
  obtain t where "m_group n m = Some t" "in_group p n t" using re_search_sets [OF assms(1) n] by blast
  then show ?thesis
    using group_span_valid [OF re_search_in [OF assms(1)]] assms(2) in_group_solid by (auto simp: solid_group_def)
qed

lemma finditer_group_span:
  assumes "m \<in> set (re_finditer p source)" and "solid_group n p"
  shows "span_is_valid (Some (m_span n m)) source"
proof -
  from assms(2) have n: "sets_group n (rx p)" "n \<noteq> 0" by (simp_all add: solid_group_def)
  obtain t where "m_group n m = Some t" "in_group p n t" using re_finditer_sets [OF assms(1) n] by blast
  then show ?thesis
    using group_span_valid [OF re_finditer_in [OF assms(1)]] assms(2) in_group_solid by (auto simp: solid_group_def)
qed

lemma search_text_span:
  "re_search p source = Some m \<Longrightarrow> 0 < min_len (rx p) \<Longrightarrow> span_is_valid (Some (m_span 0 m)) source"
  using re_search_min_len [of p source m] by (auto intro: match_span_valid re_search_in)

text \<open>Two alternatives, the first of which sets one group and the second another.\<close>

fun either_sets :: "nat \<Rightarrow> nat \<Rightarrow> re \<Rightarrow> bool" where
  "either_sets i j (RAlt r1 r2) = (sets_group i r1 \<and> sets_group j r2)"
| "either_sets i j _ = False"

lemma finditer_either:
  assumes m: "m \<in> set (re_finditer p source)" and e: "either_sets i j (rx p)" and n: "i \<noteq> 0" "j \<noteq> 0"
    and s: "list_all (\<lambda>r. 0 < min_len r) (groups_of i (rx p) @ groups_of j (rx p))"
  shows "span_is_valid (Some (m_span (if group_or [] i m \<noteq> [] then i else j) m)) source"
proof -
  obtain b a st where st: "st \<in> set (ways p b a)" and mm: "m = mk_match b st"
    using re_finditer_is_way [OF m] by blast
  obtain r1 r2 where r: "rx p = RAlt r1 r2" "sets_group i r1" "sets_group j r2"
    using e by (cases "rx p") auto
  then have "st \<in> set (ms (rx_ignorecase p) (rx_multiline p) r1 (b, a, [])) \<or>
      st \<in> set (ms (rx_ignorecase p) (rx_multiline p) r2 (b, a, []))"
    using st by (simp add: ways_def)
  then have "(\<exists>x. (i, x) \<in> set (snd (snd st))) \<or> (\<exists>x. (j, x) \<in> set (snd (snd st)))"
    using ms_sets_group [OF _ r(2)] ms_sets_group [OF _ r(3)] by blast
  moreover have "m_groups m = snd (snd st)" by (simp add: mm mk_match_def split: prod.splits)
  ultimately have "m_group i m \<noteq> None \<or> m_group j m \<noteq> None"
    using n by (elim disjE exE) (auto simp: m_group_def dest!: weak_map_of_SomeI)
  moreover have "t \<noteq> []" if "m_group k m = Some t" "k \<in> {i, j}" for k t
    using that n s in_group_solid [OF re_finditer_group [OF m that(1)]] by auto
  ultimately show ?thesis
    using group_span_valid [OF re_finditer_in [OF m]] n by (auto simp: group_or_def split: option.splits)
qed

section \<open>What an adapter promises\<close>

text \<open>The fields whose adapter may find no place for its value in the source.\<close>

definition spanless_fields :: "string list" where
  "spanless_fields = [''listing_type'', ''locality'', ''price_per_sqft'']"

definition adapter_ok :: "string \<Rightarrow> string option \<Rightarrow> string \<Rightarrow> evidence \<Rightarrow> bool" where
  "adapter_ok field slice source e =
     (ev_field e = field \<and> ev_slice_id e = slice \<and> ev_explicit e \<and> ev_unique e \<and>
      (if ev_span e = None then field \<in> set spanless_fields else span_is_valid (ev_span e) source))"

lemma explicit_evidence_ok:
  "(w = None \<Longrightarrow> field \<in> set spanless_fields) \<Longrightarrow> (w \<noteq> None \<Longrightarrow> span_is_valid w source) \<Longrightarrow>
   adapter_ok field slice source (explicit_evidence slice field v w rule c)"
  by (simp add: adapter_ok_def explicit_evidence_def)

lemma adapter_ok_explicit:
  "adapter_ok f slice source (explicit_evidence slice field v (Some w) rule c) \<longleftrightarrow>
     f = field \<and> span_is_valid (Some w) source"
  "ev_field (explicit_evidence slice field v w' rule c) = field"
  by (auto simp: adapter_ok_def explicit_evidence_def)

lemma span_for_ok: "span_for source t \<noteq> None \<Longrightarrow> span_is_valid (span_for source t) source"
  using span_for_valid by auto

locale source_adapter =
  fixes adapter :: "string option \<Rightarrow> string \<Rightarrow> evidence option result" and field :: string
  assumes sound: "adapter slice source = Inr (Some e) \<Longrightarrow> adapter_ok field slice source e"
begin

text \<open>Evidence of an adapter that has a span fails against the model's value only by its confidence.\<close>

lemma only_confidence_weak:
  assumes "adapter slice source = Inr (Some e)" and "ev_span e \<noteq> None"
  shows "set (weakness e source (vopt slice) c margin) \<subseteq> {''source_candidate_not_stronger_than_ai''}"
  using sound [OF assms(1)] assms(2)
  by (auto simp: adapter_ok_def weakness_def crossed_slice_def is_none_def vopt_def split: option.splits)

lemma found: "adapter slice source = Inr x \<Longrightarrow> Some e = x \<Longrightarrow> adapter_ok (ev_field e) slice source e"
  using sound [of slice source e] by (auto simp: adapter_ok_def)

end

lemma compiled_lengths:
  "0 < min_len (rx (marker_re ''rent''))" "0 < min_len (rx (marker_re ''sale''))"
  "0 < min_len (rx (marker_re ''requirement''))"
  "list_all (\<lambda>(v, p). 0 < min_len (rx p)) furnishing_patterns"
  "list_all (\<lambda>(v, p). 0 < min_len (rx p)) category_patterns"
  by code_simp+

lemma compiled_quotes:
  "solid_group 1 area_quote_re" "rx_names area_quote_re = [(''area'', 1)]"
  "solid_group 1 multi_unit_bhk_re" "solid_group 2 multi_unit_bhk_re" "solid_group 1 core_bhk_re"
  by code_simp+

lemma compiled_headings:
  "solid_group 1 heading_locality_re" "rx_names heading_locality_re = [(''locality'', 1)]"
  "list_all (\<lambda>(rule, p). solid_group 1 p) building_rules"
  by code_simp+

lemma compiled_budgets:
  "solid_group 1 explicit_range_re \<and> solid_group 3 explicit_range_re" "solid_group 1 explicit_cap_re"
  by code_simp+

lemma compiled_totals:
  "let r = rx total_price_re in either_sets 1 3 r \<and>
     list_all (\<lambda>r. 0 < min_len r) (groups_of 1 r @ groups_of 3 r)"
  by code_simp

lemmas solid_groups = compiled_quotes [unfolded One_nat_def] compiled_headings [unfolded One_nat_def]

interpretation route: source_adapter "\<lambda>slice source. Inr (route_candidate slice source)" "''listing_type''"
proof
  fix slice source e
  assume "Inr (route_candidate slice source) = (Inr (Some e) :: evidence option result)"
  then obtain r where r: "(if has_explicit_requirement_heading source then Some ''requirement''
      else sb_route (classify_source_boundary source)) = Some r"
    and e: "e = (explicit_evidence slice ''listing_type'' (VStr r)
      (map_option (m_span 0) (re_search (marker_re r) source)) (''source_boundary.explicit_route.'' @ r) (pct 95))
      \<lparr>ev_unique := (r = ''requirement'' \<or> \<not> (sb_rent (classify_source_boundary source) \<and>
         sb_sale (classify_source_boundary source)))\<rparr>"
    unfolding route_candidate_def Let_def by auto
  then have "r = ''requirement'' \<or> r \<in> {''rent'', ''sale''} \<and>
      \<not> (sb_rent (classify_source_boundary source) \<and> sb_sale (classify_source_boundary source))"
    by (auto simp: classify_source_boundary_def Let_def source_route_def split: if_splits)
  moreover from this have "0 < min_len (rx (marker_re r))" using compiled_lengths(1-3) by auto
  then have "span_is_valid (map_option (m_span 0) (re_search (marker_re r) source)) source"
    if "re_search (marker_re r) source \<noteq> None"
    using that by (auto intro: search_text_span)
  ultimately show "adapter_ok ''listing_type'' slice source e"
    by (auto simp: e adapter_ok_def explicit_evidence_def spanless_fields_def)
qed

interpretation place: source_adapter "\<lambda>slice source. Inr (locality_candidate order slice source)" "''locality''" for order
  by standard
    (auto simp: locality_candidate_def Let_def named_span_def solid_groups spanless_fields_def
      intro!: explicit_evidence_ok span_for_ok search_group_span split: option.splits if_splits)

interpretation psf: source_adapter "\<lambda>slice source. Inr (psf_price_candidate slice source)" "''price_per_sqft''"
  by standard (auto simp: psf_price_candidate_def spanless_fields_def intro!: explicit_evidence_ok span_for_ok)

interpretation total_price: source_adapter total_price_candidate "''price_total''"
proof
  fix slice source e
  assume t: "total_price_candidate slice source = Inr (Some e)"
  then obtain m where m: "re_finditer total_price_re source = [m]"
    by (auto simp: total_price_candidate_def split: list.splits)
  then have "span_is_valid (Some (m_span (if group_or [] 1 m \<noteq> [] then 1 else 3) m)) source"
    by (intro finditer_either [of _ total_price_re]) (use compiled_totals in \<open>simp_all add: Let_def\<close>)
  with t m show "adapter_ok ''price_total'' slice source e"
    by (auto simp: total_price_candidate_def bindE_Inr_iff intro!: explicit_evidence_ok)
qed

interpretation area: source_adapter area_candidate "''area_sqft''"
proof
  fix slice source e
  assume t: "area_candidate slice source = Inr (Some e)"
  then obtain m where m: "re_finditer area_quote_re source = [m]"
    by (auto simp: area_candidate_def split: list.splits)
  then have "span_is_valid (Some (m_span 1 m)) source"
    by (intro finditer_group_span [of _ area_quote_re]) (simp_all add: solid_groups)
  with t m show "adapter_ok ''area_sqft'' slice source e"
    by (auto simp: area_candidate_def bindE_Inr_iff named_span_def solid_groups intro!: explicit_evidence_ok)
qed

lemma phrase_candidate_ok:
  assumes "phrase_candidate ps field rule c slice source = Some e" and "list_all (\<lambda>(v, p). 0 < min_len (rx p)) ps"
  shows "adapter_ok field slice source e"
proof -
  from assms(1) obtain v m where vm: "phrase_matches ps source = [(v, m)]"
    and e: "e = explicit_evidence slice field (VStr v) (Some (m_span 0 m)) rule c"
    by (auto simp: phrase_candidate_def split: list.splits)
  from vm have "(v, m) \<in> set (phrase_matches ps source)" by simp
  then obtain p where "(v, p) \<in> set ps" "re_search p source = Some m"
    by (auto simp: phrase_matches_def List.map_filter_def)
  then have "span_is_valid (Some (m_span 0 m)) source" using assms(2) by (auto simp: list_all_iff intro: search_text_span)
  then show ?thesis by (simp add: e adapter_ok_explicit)
qed

interpretation furnishing: source_adapter "\<lambda>slice source. Inr (furnishing_candidate slice source)" "''furnishing_status''"
  by standard (auto simp: furnishing_candidate_def intro: phrase_candidate_ok compiled_lengths)

interpretation category: source_adapter "\<lambda>slice source. Inr (category_candidate slice source)" "''property_category''"
  by standard (auto simp: category_candidate_def intro: phrase_candidate_ok compiled_lengths)

interpretation building: source_adapter "\<lambda>slice source. Inr (building_candidate slice source)" "''building_name''"
proof
  fix slice source e
  assume b: "Inr (building_candidate slice source) = (Inr (Some e) :: evidence option result)"
  then obtain rule m where f: "List.find (\<lambda>(_, m). m \<noteq> None) (map (\<lambda>(rule, p). (rule, re_search p source)) building_rules) =
      Some (rule, Some m)" by (auto simp: building_candidate_def split: option.splits)
  then obtain p where "(rule, p) \<in> set building_rules" "re_search p source = Some m"
    by (auto dest!: find_Some)
  then have "span_is_valid (Some (m_span 1 m)) source"
    using compiled_headings(3) by (auto simp: list_all_iff intro: search_group_span)
  with b f show "adapter_ok ''building_name'' slice source e"
    by (auto simp: building_candidate_def Let_def intro!: explicit_evidence_ok split: if_splits)
qed

section \<open>The candidates of a source\<close>

lemma bhk_candidates_ok: "e \<in> set (bhk_candidates slice source) \<Longrightarrow> adapter_ok (ev_field e) slice source e"
  using search_group_span [of multi_unit_bhk_re source] search_group_span [of core_bhk_re source]
  by (cases "re_search multi_unit_bhk_re source"; cases "re_search core_bhk_re source")
    (auto simp: bhk_candidates_def adapter_ok_explicit solid_groups split: option.splits)

lemma budget_candidates_ok:
  assumes "requirement_budget_candidates slice source = Inr es" and "e \<in> set es"
  shows "adapter_ok (ev_field e) slice source e"
proof -
  have s: "span_is_valid (Some (m_span i m)) source"
    if "re_search explicit_range_re source = Some m" "i \<in> {1, 3}" for i m
    using that compiled_budgets(1) by (auto intro: search_group_span)
  have c: "span_is_valid (Some (m_span 1 m)) source" if "re_search explicit_cap_re source = Some m" for m
    using that compiled_budgets(2) by (rule search_group_span)
  from assms s c show ?thesis
    unfolding requirement_budget_candidates_def
    by (auto simp: adapter_ok_explicit bindE_Inr_iff Let_def split: if_splits option.splits)
qed

text \<open>Every entry is stored under its own field, and is one of the pieces of evidence put in.\<close>

definition keyed_by_field :: "candidates \<Rightarrow> evidence set \<Rightarrow> bool" where
  "keyed_by_field cs es = (distinct (map fst cs) \<and> (\<forall>(f, e) \<in> set cs. ev_field e = f \<and> e \<in> es))"

lemma update_entries: "(f, e) \<in> set (AList.update k v cs) \<Longrightarrow> f = k \<and> e = v \<or> (f, e) \<in> set cs"
  by (induction cs) (auto split: if_splits)

lemma put_candidate_keyed: "keyed_by_field cs es \<Longrightarrow> x \<in> es \<Longrightarrow> keyed_by_field (put_candidate cs x) es"
  unfolding keyed_by_field_def put_candidate_def by (auto simp: distinct_update dest!: update_entries)

lemma default_candidate_keyed: "keyed_by_field cs es \<Longrightarrow> x \<in> es \<Longrightarrow> keyed_by_field (default_candidate cs x) es"
  by (auto simp: keyed_by_field_def default_candidate_def map_of_eq_None_iff)

lemma candidates_keyed:
  assumes "\<And>cs x. keyed_by_field cs es \<Longrightarrow> x \<in> es \<Longrightarrow> keyed_by_field (f cs x) es"
  shows "keyed_by_field cs es \<Longrightarrow> set xs \<subseteq> es \<Longrightarrow> keyed_by_field (foldl f cs xs) es"
  by (induction xs arbitrary: cs) (simp_all add: assms)

lemma present_set: "set (present xs) = {x. Some x \<in> set xs}"
  by (induction xs) (auto simp: present_def List.map_filter_simps split: option.splits)

lemma adapters_ok:
  assumes "total_price_candidate slice source = Inr tot" and "area_candidate slice source = Inr area"
    and "e \<in> set (present [route_candidate slice source, locality_candidate order slice source,
      psf_price_candidate slice source, tot, furnishing_candidate slice source, category_candidate slice source,
      area, building_candidate slice source])"
  shows "adapter_ok (ev_field e) slice source e"
  using assms
  by (auto simp: present_set intro: route.found [OF refl] place.found [OF refl] psf.found [OF refl] total_price.found
      furnishing.found [OF refl] category.found [OF refl] area.found building.found [OF refl])

text \<open>
  What an adapter marks as unique is its own match: of two bedroom counts the first is proposed as the only one.
\<close>

lemma first_bhk_taken:
  "map ev_value (bhk_candidates None ''2 bhk and 3 bhk'') = [VFloat (Fin 2)]"
  "list_all ev_unique (bhk_candidates None ''2 bhk and 3 bhk'')"
  by code_simp+

text \<open>C31:
  The candidates of a source: one for each field, stored under the field it is about.  Each is a result of a
  resolver that was passed in, or evidence of an adapter, which marks it as explicit and unique and gives it the
  identifier of the slice.  Evidence of an adapter has a span that lies in the source and is not empty; only the
  route, the locality and the rate per square foot may lack one.
\<close>

theorem candidates_well_formed:
  assumes "produce_source_candidates order source slice resolver_results = Inr cs"
  shows "distinct (map fst cs) \<and>
    (\<forall>(f, e) \<in> set cs. ev_field e = f \<and> (e \<in> set resolver_results \<or> adapter_ok f slice source e))"
proof -
  from assms obtain tot area budgets where t: "total_price_candidate slice source = Inr tot"
    and a: "area_candidate slice source = Inr area" and b: "requirement_budget_candidates slice source = Inr budgets"
    and cs: "cs = foldl default_candidate (foldl put_candidate [] (present
       [route_candidate slice source, locality_candidate order slice source, psf_price_candidate slice source,
        tot, furnishing_candidate slice source, category_candidate slice source, area,
        building_candidate slice source])) (bhk_candidates slice source @ budgets @ resolver_results)"
    by (auto simp: produce_source_candidates_def bindE_Inr_iff Let_def)
  have "keyed_by_field cs ({e. adapter_ok (ev_field e) slice source e} \<union> set resolver_results)"
    unfolding cs
    by (intro candidates_keyed [of _ default_candidate] candidates_keyed [of _ put_candidate]
        default_candidate_keyed put_candidate_keyed)
      (use adapters_ok [OF t a] bhk_candidates_ok budget_candidates_ok [OF b] in \<open>auto simp: keyed_by_field_def\<close>)
  then show ?thesis by (fastforce simp: keyed_by_field_def)
qed

section \<open>From the source to the item\<close>

text \<open>The keys a field is projected to, and how a key carries the value.\<close>

definition projected_keys :: "string \<Rightarrow> string list" where
  "projected_keys field =
     (if field = ''listing_type'' then [''listing_type'', ''routing_listing_type'']
      else if field \<in> {''price_per_sqft'', ''price_total''} then [''price'']
      else if field = ''transaction_type'' then [''transaction_type'', ''classified_transaction_type'']
      else [field])"

definition carries :: "string \<Rightarrow> pyval \<Rightarrow> pyval \<Rightarrow> bool" where
  "carries field v w =
     (if field = ''locality'' then
        dget (dict_of w) ''raw_mention'' = v \<and> dget (dict_of w) ''resolved_locality'' = v
      else if field \<in> {''price_per_sqft'', ''price_total''} then dget (dict_of w) ''amount'' = v
      else w = v)"

lemma project_step:
  assumes "project_decision ai d = Inr out" and "dget out k \<noteq> dget ai k"
  shows "fd_action d = Correct_From_Source \<and> k \<in> set (projected_keys (fd_field d)) \<and>
    carries (fd_field d) (fd_final d) (dget out k)"
proof (cases "k \<in> set (projected_keys (fd_field d))")
  case True
  then show ?thesis
    using assms
    by (auto simp: project_decision_def Let_def projected_keys_def carries_def priced_def dict_of_def dupdate_def
        bindE_Inr_iff split: if_splits)
next
  case False
  then show ?thesis
    using assms
    by (auto simp: project_decision_def Let_def projected_keys_def priced_def bindE_Inr_iff split: if_splits)
qed

lemma project_all:
  assumes "foldE project_decision ai ds = Inr out" and "dget out k \<noteq> dget ai k"
  shows "\<exists>d \<in> set ds. fd_action d = Correct_From_Source \<and> k \<in> set (projected_keys (fd_field d)) \<and>
    carries (fd_field d) (fd_final d) (dget out k)"
  using assms
proof (induction ds arbitrary: ai)
  case (Cons d ds)
  then obtain ai1 where s: "project_decision ai d = Inr ai1" and r: "foldE project_decision ai1 ds = Inr out"
    by (auto simp: bindE_Inr_iff)
  show ?case
  proof (cases "dget out k = dget ai1 k")
    case True
    then show ?thesis using project_step [OF s, of k] Cons.prems(2) by auto
  next
    case False
    then show ?thesis using Cons.IH [OF r] by auto
  qed
qed simp

lemma apply_result_frame:
  assumes "apply_authority_result ai r = Inr out" and "k \<notin> {''needs_review'', ''validation_flags'', ''source_authority''}"
  shows "\<exists>out0. foldE project_decision ai (sa_decisions r) = Inr out0 \<and> dget out k = dget out0 k"
  using assms by (auto simp: apply_authority_result_def Let_def bindE_Inr_iff)

lemma corrected_by_candidate:
  assumes "evaluate_extraction_authority order ai source slice rs fc = Inr r"
    and "d \<in> set (sa_decisions r)" and "fd_action d = Correct_From_Source"
  obtains cs e where "produce_source_candidates order source slice rs = Inr cs" "(fd_field d, e) \<in> set cs"
    "fd_final d = ev_value e" "ev_explicit e" "ev_unique e" "span_is_valid (ev_span e) source"
    "\<not> crossed_slice (vopt slice) e"
proof -
  from assms(1) obtain inp confidence cs where cs: "produce_source_candidates order source slice rs = Inr cs"
    and ev: "evaluate_source_authority (restrict_to (map fst cs) inp) source (Some source)
      (map (\<lambda>(f, e). (f, Some e)) cs) (restrict_to (filter (dhas confidence) (map fst cs)) confidence)
      [(''source_slice_id'', vopt slice), (''default_ai_confidence'', default_confidence ai)] = Inr r"
    by (auto simp: evaluate_extraction_authority_def bindE_Inr_iff Let_def)
  from ev assms(2) show thesis
  proof (rule evaluate_decision)
    fix ctx c reasons flags
    assume ctx: "context_of source (Some source) (restrict_to (filter (dhas confidence) (map fst cs)) confidence)
        [(''source_slice_id'', vopt slice), (''default_ai_confidence'', default_confidence ai)] = Inr ctx"
      and j: "judge ctx (fd_field d) (dget (restrict_to (map fst cs) inp) (fd_field d))
        (case map_of (map (\<lambda>(f, e). (f, Some e)) cs) (fd_field d) of Some (Some e) \<Rightarrow> Some e | _ \<Rightarrow> None) c =
        Inr (fd_action d, fd_final d, reasons, flags)"
    from j show thesis
    proof (cases rule: judge_cases)
      case (corrected e)
      then have "map_of (map (\<lambda>(f, e). (f, Some e)) cs) (fd_field d) = Some (Some e)" by (auto split: option.splits)
      then have "(fd_field d, e) \<in> set cs" by (auto dest!: map_of_SomeD)
      moreover have "ac_source ctx = source" "ac_slice_id ctx = vopt slice"
        using context_facts [OF ctx] by (simp_all add: dget_def)
      ultimately show thesis using that cs corrected unfolding weakness_Nil by auto
    qed (use assms(3) in simp_all)
  qed
qed

text \<open>C6:
  The end of the path: evaluating an extraction against its source and projecting the result changes a key of
  the item only to carry the value of a candidate of that source, which is explicit and unique, has a span
  inside the source that is not empty, and does not come from another slice.  The review mark, the flags and
  the provenance are the only other keys that are written.
\<close>

theorem only_source_backed_changes:
  assumes "evaluate_extraction_authority order ai source slice rs fc = Inr r"
    and "apply_authority_result ai r = Inr out"
    and "k \<notin> {''needs_review'', ''validation_flags'', ''source_authority''}" and "dget out k \<noteq> dget ai k"
  shows "\<exists>cs field e. produce_source_candidates order source slice rs = Inr cs \<and> (field, e) \<in> set cs \<and>
    k \<in> set (projected_keys field) \<and> carries field (ev_value e) (dget out k) \<and>
    ev_explicit e \<and> ev_unique e \<and> span_is_valid (ev_span e) source \<and> \<not> crossed_slice (vopt slice) e"
proof -
  from apply_result_frame [OF assms(2,3)] obtain out0
    where p: "foldE project_decision ai (sa_decisions r) = Inr out0" and k: "dget out k = dget out0 k" by blast
  from project_all [OF p] assms(4) k obtain d where d: "d \<in> set (sa_decisions r)" "fd_action d = Correct_From_Source"
    and key: "k \<in> set (projected_keys (fd_field d))" "carries (fd_field d) (fd_final d) (dget out k)" by auto
  from assms(1) d show ?thesis
  proof (rule corrected_by_candidate)
    fix cs e
    assume c: "produce_source_candidates order source slice rs = Inr cs" "(fd_field d, e) \<in> set cs"
      "fd_final d = ev_value e" "ev_explicit e" "ev_unique e" "span_is_valid (ev_span e) source"
      "\<not> crossed_slice (vopt slice) e"
    from key(2) c(3) have "carries (fd_field d) (ev_value e) (dget out k)" by simp
    with c key(1) show ?thesis by blast
  qed
qed

section \<open>Examples\<close>

definition two_bhk :: string where
  "two_bhk = ''2 bhk''"

definition three_bhk_item :: pydict where
  "three_bhk_item = [(''bhk'', VInt 3), (''title'', VStr ''Sea view'')]"

lemma two_bhk_candidates:
  "produce_source_candidates (\<lambda>xs. xs) two_bhk (Some ''7:0'') [] =
     Inr [(''bhk'', explicit_evidence (Some ''7:0'') ''bhk'' (VFloat (Fin 2)) (Some (0, 1)) ''bhk.explicit'' (pct 95))]"
  by code_simp

theorem candidates_well_formed_witness:
  "adapter_ok ''bhk'' (Some ''7:0'') two_bhk
     (explicit_evidence (Some ''7:0'') ''bhk'' (VFloat (Fin 2)) (Some (0, 1)) ''bhk.explicit'' (pct 95))"
  using candidates_well_formed [OF two_bhk_candidates] by simp

lemma two_bhk_run:
  "\<exists>r out. evaluate_extraction_authority (\<lambda>xs. xs) three_bhk_item two_bhk (Some ''7:0'') [] VNone = Inr r \<and>
     apply_authority_result three_bhk_item r = Inr out \<and> dget out ''bhk'' = VFloat (Fin 2)"
proof -
  let ?run = "bindE (evaluate_extraction_authority (\<lambda>xs. xs) three_bhk_item two_bhk (Some ''7:0'') [] VNone)
    (apply_authority_result three_bhk_item)"
  have "case ?run of Inl e \<Rightarrow> False | Inr out \<Rightarrow> dget out ''bhk'' = VFloat (Fin 2)"
    unfolding evaluate_extraction_authority_def two_bhk_candidates by code_simp
  then show ?thesis by (auto simp: bindE_def split: sum.splits)
qed

theorem only_source_backed_changes_witness:
  "\<exists>out cs field e. dget out ''bhk'' = VFloat (Fin 2) \<and>
     produce_source_candidates (\<lambda>xs. xs) two_bhk (Some ''7:0'') [] = Inr cs \<and> (field, e) \<in> set cs \<and>
     ''bhk'' \<in> set (projected_keys field) \<and> carries field (ev_value e) (dget out ''bhk'') \<and>
     span_is_valid (ev_span e) two_bhk"
proof -
  obtain r out where run: "evaluate_extraction_authority (\<lambda>xs. xs) three_bhk_item two_bhk (Some ''7:0'') [] VNone = Inr r"
    "apply_authority_result three_bhk_item r = Inr out" and b: "dget out ''bhk'' = VFloat (Fin 2)"
    using two_bhk_run by blast
  have k: "''bhk'' \<notin> {''needs_review'', ''validation_flags'', ''source_authority''}" by simp
  have "dget out ''bhk'' \<noteq> dget three_bhk_item ''bhk''" unfolding b by (simp add: three_bhk_item_def dget_def)
  from only_source_backed_changes [OF run k this] b show ?thesis by blast
qed

text \<open>What the adapters do on malformed numbers and on a hyphenated phrase.\<close>

lemma malformed_number_raises:
  "produce_source_candidates order ''Rs 1.2.5 cr'' slice rs = Inl ValueError"
proof -
  have "total_price_candidate slice ''Rs 1.2.5 cr'' = Inl ValueError" by code_simp
  then show ?thesis by (simp add: produce_source_candidates_def)
qed

lemma comma_area_raises: "area_candidate slice '', sqft'' = Inl ValueError"
  by code_simp

lemma semi_furnished_missed:
  "furnishing_candidate slice ''semi-furnished flat'' = None" "furnishing_candidate slice ''semi furnished flat'' = None"
  by code_simp+

end
