(* ===== verification/ItemGates.thy ===== *)
theory ItemGates
  imports SourceCandidates PricePlaus
begin

text \<open>
  \<open>extraction.py\<close>, the gates every extracted item passes: absence markers become nulls, a bedroom count is
  recovered from the source, repeated items are dropped, and fields without a cue in the source are removed.
\<close>

section \<open>Absence markers\<close>

definition null_like :: "string list" where
  "null_like =
    ['''', ''unknown'', ''not known'', ''not specified'', ''not available'', ''not identified'', ''not found'',
     ''n/a'', ''na'', ''none'', ''null'', ''nil'']"

definition boolean_fields :: "string list" where
  "boolean_fields =
    [''has_lift'', ''has_power_backup'', ''co_brokered'', ''plus_one_deal'', ''fee_sharing_required'',
     ''client_profile_required'', ''is_converted_unit'', ''is_combination_unit'', ''can_sell_separately'',
     ''balcony_present'', ''terrace_present'', ''sit_out_present'', ''vastu_compliant'']"

definition enum_prefix_re :: pattern where
  "enum_prefix_re = rx_plain (
     ''^%s*(?:(?:[*_~]%s*)*(?:%(%s*%d{1,3}%s*%)|%d{1,3}%s*%))[*_~:.%-%u2013%u2014]?%s*''
     @ ''|[*_~]%s*%d{1,3}%s*%.?%s*[*_~]%s*)'')"

definition verbatim_keys :: "string list" where
  "verbatim_keys = [''source_slice'', ''source_text'', ''full_text'', ''slice_text'']"

definition clean_text :: "string \<Rightarrow> string \<Rightarrow> string" where
  "clean_text key s =
     (let t = (if key \<in> set verbatim_keys then strip s else strip (re_sub (rx_plain ''%s+'') '' '' s))
      in if key \<in> {''building_name'', ''project_name''} then strip (re_sub enum_prefix_re [] t) else t)"

definition clean_string :: "string \<Rightarrow> string \<Rightarrow> pyval" where
  "clean_string key s =
     (let t = clean_text key s; lowered = casefold t
      in if lowered \<in> set null_like then VNone
         else if key \<in> set boolean_fields then
           (if lowered \<in> {''true'', ''yes'', ''y'', ''1''} then VBool True
            else if lowered \<in> {''false'', ''no'', ''n'', ''0''} then VBool False else VNone)
         else VStr t)"

fun clean_value :: "string \<Rightarrow> pyval \<Rightarrow> pyval" where
  "clean_value key (VDict d) = VDict (map (\<lambda>(k, v). (k, clean_value k v)) d)"
| "clean_value key (VList xs) = VList (filter (\<lambda>v. v \<noteq> VNone) (map (clean_value key) xs))"
| "clean_value key (VStr s) = clean_string key s"
| "clean_value key v = v"

definition clean_item :: "pydict \<Rightarrow> pydict" where
  "clean_item d = map (\<lambda>(k, v). (k, clean_value k v)) d"

text \<open>What a cleaned value looks like.\<close>

fun cleaned :: "string \<Rightarrow> pyval \<Rightarrow> bool" where
  "cleaned key (VDict d) = list_all (\<lambda>(k, v). cleaned k v) d"
| "cleaned key (VList xs) = list_all (\<lambda>v. v \<noteq> VNone \<and> cleaned key v) xs"
| "cleaned key (VStr s) = (casefold s \<notin> set null_like \<and> key \<notin> set boolean_fields \<and> strip s = s)"
| "cleaned key v = True"

section \<open>Titles\<close>

definition generic_title_re :: pattern where
  "generic_title_re = rx_i
     ''^(?:property|listing|property details|property opportunity|real estate property)(?:%s+(?:for|on|available|details?|opportunity)%b.*)?$''"

definition unstructured_re :: pattern where
  "unstructured_re = rx_i ''^%[?unstructured%]?%b''"

definition absent_tail_re :: pattern where
  "absent_tail_re = rx_i ''(?:%u2014|%u2013|%||:)%s*(?:none|null|unknown|not%s+(?:specified|identified|found))%s*$''"

definition is_usable_extraction_title :: "pyval \<Rightarrow> bool" where
  "is_usable_extraction_title v =
     (let t = strip_chars '' -:|,;'' (re_sub (rx_plain ''%s+'') '' '' (str_or v))
      in t \<noteq> [] \<and> re_match unstructured_re t = None \<and> \<not> re_found absent_tail_re t \<and>
         re_fullmatch generic_title_re t = None)"

section \<open>The bedroom count of an item without one\<close>

definition bhk_values :: "string \<Rightarrow> pyfloat list" where
  "bhk_values s = List.map_filter (\<lambda>m. parse_float (group_or [] 1 m)) (re_finditer core_bhk_re s)"

text \<open>The one element of a set given by a list.\<close>

definition only_value :: "'a list \<Rightarrow> 'a option" where
  "only_value xs = (case dedup xs of [x] \<Rightarrow> Some x | _ \<Rightarrow> None)"

definition source_grounded_bhk_fallback :: "string \<Rightarrow> string \<Rightarrow> pyfloat option" where
  "source_grounded_bhk_fallback raw slice =
     (if bhk_values slice \<noteq> [] then only_value (bhk_values slice) else only_value (bhk_values raw))"

definition apply_bhk_fallback :: "pydict \<Rightarrow> string \<Rightarrow> string \<Rightarrow> pydict result" where
  "apply_bhk_fallback ai raw slice =
     (if dget ai ''bhk'' \<noteq> VNone then Inr ai
      else case source_grounded_bhk_fallback raw slice of
        None \<Rightarrow> Inr ai
      | Some x \<Rightarrow> flagged ''source_bhk_context_fallback'' (dput ai ''bhk'' (VFloat x)))"

section \<open>Repeated items\<close>

definition slice_key :: "string \<Rightarrow> string" where
  "slice_key s = casefold (re_sub (rx_plain ''%s+'') '' '' (strip s))"

text \<open>The loop over the pairs of items and slices; \<open>zip\<close> stops with the shorter list.\<close>

fun dedupe_pairs :: "string list \<Rightarrow> (pydict \<times> string) list \<Rightarrow> (pydict \<times> string) list" where
  "dedupe_pairs seen [] = []"
| "dedupe_pairs seen ((item, slice) # rest) =
     (let k = slice_key slice
      in if k \<noteq> [] \<and> k \<in> set seen then dedupe_pairs seen rest
         else (item, slice) # dedupe_pairs (if k \<noteq> [] then k # seen else seen) rest)"

definition dedupe_exact_source_items :: "pydict list \<Rightarrow> string list \<Rightarrow> pydict list \<times> string list" where
  "dedupe_exact_source_items items slices =
     (let kept = dedupe_pairs [] (zip items slices) in (map fst kept, map snd kept))"

section \<open>Fields without a cue\<close>

definition core_area_re :: pattern where
  "core_area_re = rx_i (
     ''%b(?:carpet|built%s*[- ]?up|super%s*[- ]?built%s*[- ]?up|area|size)%s*(?:is|:|-)?%s*(%d[%d,]*(?:%.%d+)?)%s*(?:sq%.?%s*ft|sqft|sft|square%s*feet)%b''
     @ ''|%b(%d[%d,]*(?:%.%d+)?)%s*(?:sq%.?%s*ft|sqft|sft|square%s*feet)%b'')"

definition possession_cue_re :: pattern where
  "possession_cue_re = rx_i
     ''%b(?:possession|ready%s*(?:to%s*)?move|immediate(?:ly)?%s+available|vacant|under%s+construction|completion)%b''"

definition basis_cue_re :: pattern where
  "basis_cue_re = rx_i ''%b(?:carpet|built%s*[- ]?up|super%s*[- ]?built%s*[- ]?up|chargeable|saleable)%b''"












section \<open>Cleaning leaves no absence marker\<close>

lemma strip_clean_text: "strip (clean_text key s) = clean_text key s"
  by (simp add: clean_text_def Let_def)

text \<open>
  After cleaning no string anywhere in an item is an absence marker, none is in a boolean field, every one is
  stripped, and a list has no null in it.
\<close>

theorem clean_value_cleaned: "cleaned key (clean_value key v)"
proof (induction key v rule: clean_value.induct)
  case (3 key s)
  then show ?case by (auto simp: clean_string_def Let_def strip_clean_text)
next
  case (1 key d)
  then show ?case by (fastforce simp: list_all_iff)
next
  case (2 key xs)
  then show ?case by (auto simp: list_all_iff)
qed simp_all

section \<open>Repeated slices\<close>

lemma dedupe_pairs_new:
  "(i, s) \<in> set (dedupe_pairs seen ps) \<Longrightarrow> slice_key s \<noteq> [] \<Longrightarrow> slice_key s \<notin> set seen"
  by (induction seen ps rule: dedupe_pairs.induct) (auto simp: Let_def split: if_splits)

lemma dedupe_pairs_sub: "subseq (dedupe_pairs seen ps) ps"
  by (induction seen ps rule: dedupe_pairs.induct) (auto simp: Let_def)

lemma subseq_set: "subseq xs ys \<Longrightarrow> set xs \<subseteq> set ys"
  by (induction rule: list_emb.induct) auto

lemma dedupe_pairs_keeps:
  "(i, s) \<in> set ps \<Longrightarrow> slice_key s \<notin> set seen \<Longrightarrow>
     \<exists>x \<in> set (dedupe_pairs seen ps). slice_key (snd x) = slice_key s"
proof (induction seen ps rule: dedupe_pairs.induct)
  case (2 seen item slice rest)
  show ?case
  proof (cases "slice_key s = slice_key slice")
    case True
    with "2.prems"(2) show ?thesis by (simp add: Let_def)
  next
    case False
    with "2.prems" have s: "(i, s) \<in> set rest" "slice_key s \<notin> set (if slice_key slice \<noteq> [] then slice_key slice # seen else seen)"
      by auto
    with "2.IH" "2.prems"(2) show ?thesis by (cases "slice_key slice \<noteq> [] \<and> slice_key slice \<in> set seen") (auto simp: Let_def)
  qed
qed simp

lemma dedupe_pairs_distinct:
  "distinct (filter (\<lambda>k. k \<noteq> []) (map (\<lambda>x. slice_key (snd x)) (dedupe_pairs seen ps)))"
proof (induction seen ps rule: dedupe_pairs.induct)
  case (2 seen item slice rest)
  show ?case
  proof (cases "slice_key slice = []")
    case False
    have "slice_key slice \<notin> (\<lambda>x. slice_key (snd x)) ` set (dedupe_pairs (slice_key slice # seen) rest)"
      using False dedupe_pairs_new [of _ _ "slice_key slice # seen" rest] by fastforce
    with False 2 show ?thesis by (simp add: Let_def)
  qed (use 2 in \<open>simp add: Let_def\<close>)
qed simp

text \<open>
  Dropping repeated items keeps the order, keeps an item for the text of every slice, and leaves no two items
  with the same non-empty text up to case and white space.
\<close>

theorem dedupe_exact_source_keeps_one:
  assumes "length items = length slices" and "dedupe_exact_source_items items slices = (items', slices')"
  shows "length items' = length slices' \<and> subseq (zip items' slices') (zip items slices) \<and>
    distinct (filter (\<lambda>k. k \<noteq> []) (map slice_key slices')) \<and>
    slice_key ` set slices' = slice_key ` set slices"
proof -
  let ?kept = "dedupe_pairs [] (zip items slices)"
  have r: "items' = map fst ?kept" "slices' = map snd ?kept"
    using assms(2) by (auto simp: dedupe_exact_source_items_def Let_def)
  have sub: "subseq ?kept (zip items slices)" by (rule dedupe_pairs_sub)
  have "set ?kept \<subseteq> set (zip items slices)" using sub by (rule subseq_set)
  then have "set slices' \<subseteq> set slices" by (force simp: r dest: set_zip_rightD)
  moreover have "slice_key s \<in> slice_key ` set slices'" if "s \<in> set slices" for s
  proof -
    from that assms(1) obtain i where "(i, s) \<in> set (zip items slices)"
      by (metis in_set_conv_nth in_set_zip fst_conv snd_conv)
    from dedupe_pairs_keeps [OF this, of "[]"] obtain x where "x \<in> set ?kept" "slice_key (snd x) = slice_key s"
      by auto
    then show ?thesis by (auto simp: r intro: rev_image_eqI)
  qed
  ultimately have "slice_key ` set slices' = slice_key ` set slices" by blast
  with sub dedupe_pairs_distinct [of "[]" "zip items slices"] show ?thesis
    by (simp add: r zip_map_fst_snd comp_def)
qed

theorem dedupe_exact_source_keeps_one_witness:
  "dedupe_exact_source_items [[(''bhk'', VInt 2)], [(''bhk'', VInt 3)]] [''2 BHK  flat'', ''2 bhk flat ''] =
     ([[(''bhk'', VInt 2)]], [''2 BHK  flat'']) \<and>
   slice_key ` set [''2 BHK  flat''] = slice_key ` set [''2 BHK  flat'', ''2 bhk flat '']"
proof -
  have d: "dedupe_exact_source_items [[(''bhk'', VInt 2)], [(''bhk'', VInt 3)]] [''2 BHK  flat'', ''2 bhk flat ''] =
     ([[(''bhk'', VInt 2)]], [''2 BHK  flat''])" by code_simp
  have l: "length [[(''bhk'', VInt 2)], [(''bhk'', VInt 3)]] = length [''2 BHK  flat'', ''2 bhk flat '']" by simp
  from dedupe_exact_source_keeps_one [OF l d] d show ?thesis by blast
qed

section \<open>Gated fields have a cue\<close>




definition cued :: "string \<Rightarrow> string \<Rightarrow> pyval \<Rightarrow> bool" where
  "cued source field v =
     (if field = ''carpet_area_sqft'' then v = VNone \<or> re_found core_area_re source
      else if field = ''possession_status'' then strip (str_or v) = [] \<or> re_found possession_cue_re source
      else strip (str_or v) = [] \<or> re_found basis_cue_re source)"





lemma cued_None [simp]: "cued source f VNone"
  by (simp add: cued_def)
















end
