(* ===== verification/SourceQuotes.thy ===== *)
theory SourceQuotes
  imports SourceLocality PriceNorm
begin

text \<open>
  \<open>extraction.py\<close>, the money of an item: the model's price against the quote of the source, the labelled rent,
  the period of a rent and the deposit.
\<close>

section \<open>The quote of the source against the model's amount\<close>

definition raw_price_re :: pattern where
  "raw_price_re = rx_plain (
     ''([%d,]+(?:(?:%.%d+)|(?::%d+)|(?:[%x27%u2019]%d+))?)%s*[.%-/]*%s*'' @
     ''(cr|crores?|crore|lac?s?|lakhs?|l|k|thousands?|thousand)%b'')"

definition unit_to_abs :: "(string \<times> int) list" where
  "unit_to_abs =
    [(''cr'', 10000000), (''crore'', 10000000), (''lac'', 100000), (''lakh'', 100000), (''l'', 100000),
     (''k'', 1000), (''thousand'', 1000)]"

definition parse_raw_price_to_abs :: "string \<Rightarrow> pyfloat option result" where
  "parse_raw_price_to_abs raw =
     (case parse_explicit_price (Some raw) of
        Some (amount, unit) \<Rightarrow> canonical_price_rupees (VFloat amount) (VStr unit) None
      | None \<Rightarrow>
          Inr (case re_search raw_price_re (lower raw) of
                 None \<Rightarrow> None
               | Some m \<Rightarrow>
                   map_option
                     (\<lambda>amount. fmul amount (fint (case map_of unit_to_abs (rstrip_chars ''s'' (group_or [] 2 m)) of
                                                   Some k \<Rightarrow> k | None \<Rightarrow> 1)))
                     (parse_float (plain_amount (group_or [] 1 m)))))"

definition on_call_re :: pattern where
  "on_call_re = rx_i ''%b(?:on%s+call|price%s+on%s+(?:request|call)|on%s+request|call%s+for%s+price)%b''"

definition psf_wording_re :: pattern where
  "psf_wording_re = rx_i ''(?:psf|per%s*(?:sq%.?%s*ft|sqft|square%s*foot))%b''"

definition psf_units :: "string list" where
  "psf_units = [''per_sqft'', ''psf'']"

definition money_units :: "string list" where
  "money_units =
    [''cr'', ''crore'', ''crores'', ''lac'', ''lakh'', ''lakhs'', ''l'', ''k'', ''thousand'', ''thousands'']"

type_synonym priced_as = "pyfloat option \<times> string option"

definition as_abs :: "pyfloat option result \<Rightarrow> priced_as result" where
  "as_abs r = bindE r (\<lambda>x. Inr (x, Some ''abs''))"

definition quoted_abs :: "pyfloat \<times> string \<Rightarrow> priced_as result" where
  "quoted_abs q = as_abs (canonical_price_rupees (VFloat (fst q)) (VStr (snd q)) None)"

definition price_from_ai_and_raw :: "pyval \<Rightarrow> priced_as result" where
  "price_from_ai_and_raw info =
     (case info of
        VDict d \<Rightarrow>
          (let unit = clean_lower (dget d ''unit''); raw = strip (str_or (dget d ''raw_price_text'')) in
           case safe_float (dget d ''amount'') of
             None \<Rightarrow>
               Inr (None, if \<not> re_found on_call_re raw \<and> unit \<in> set psf_units then Some ''per_sqft'' else None)
           | Some amount \<Rightarrow>
               (case parse_explicit_price (Some raw) of
                  Some q \<Rightarrow>
                    if unit \<in> set psf_units \<and> re_found psf_wording_re raw then Inr (Some amount, Some ''per_sqft'')
                    else quoted_abs q
                | None \<Rightarrow>
                    if unit \<in> set psf_units then Inr (Some amount, Some ''per_sqft'')
                    else if unit \<in> set money_units
                      then as_abs (price_to_rupees (VFloat amount) (VStr (rstrip_chars ''s'' unit)))
                    else Inr (Some amount, Some ''abs'')))
      | _ \<Rightarrow> Inr (None, None))"

section \<open>The labelled rent\<close>

definition rent_value_re :: pattern where
  "rent_value_re = rx_i (
     ''(?<![A-Za-z0-9])(?:rent|rental|monthly%s+rent)%s*[:=%-]?%s*'' @
     ''(?:%u20B9|rs%.?%s*)?(?P<amount>%d[%d,.]*)%s*'' @
     ''(?P<unit>cr(?:ore|ores)?|lac(?:s)?|lakh(?:s)?|l|k|thousand(?:s)?)?(?![A-Za-z])'')"

definition source_rent_price_value :: "string \<Rightarrow> pyfloat option result" where
  "source_rent_price_value source =
     (case re_search rent_value_re source of
        None \<Rightarrow> Inr None
      | Some m \<Rightarrow>
          (let digits = group_or [] 1 m; unit = rstrip_chars ''s'' (lower (group_or [] 2 m)) in
           case parse_float (replace '','' [] digits) of
             None \<Rightarrow> Inr None
           | Some amount \<Rightarrow>
               if unit \<noteq> [] then
                 (if unit = ''k'' \<and> CHR ''.'' \<in> set digits \<and> flt (Fin 0) amount \<and> flt amount (Fin 5)
                  then Inr (Some (fmul amount (fint 100000)))
                  else price_to_rupees (VFloat amount) (VStr unit))
               else Inr (Some (if flt (Fin 0) amount \<and> flt amount (Fin 1000) then fmul amount (fint 1000) else amount))))"

section \<open>The period of a rent\<close>

definition rental_period_re :: pattern where
  "rental_period_re = rx_i ''%b(?:rent|rental|lease|on%s+lease|monthly|per%s*month|quote)%b''"

definition sale_period_re :: pattern where
  "sale_period_re = rx_i ''%b(?:sale|sell|buy|one[- ]time)%b''"

definition source_ground_rental_period :: "pydict \<Rightarrow> string \<Rightarrow> pyval \<Rightarrow> pyval \<Rightarrow> pydict" where
  "source_ground_rental_period info source listing_type transaction_type =
     (if casefold (str_or (or_val transaction_type listing_type)) \<in> {''rent'', ''lease'', ''pg''} \<and>
         dget info ''period'' = VStr ''one_time'' \<and>
         re_found rental_period_re source \<and> \<not> re_found sale_period_re source
      then dput info ''period'' (VStr ''per_month'') else info)"

section \<open>Deposits\<close>

definition deposit_cue_re :: pattern where
  "deposit_cue_re = rx_plain ''%bdeposit%b|%d+(?:%.%d+)?%s*[kkl]?(?:%s*[+/&/]%s*%d+)?''"

definition labelled_deposit_re :: pattern where
  "labelled_deposit_re = rx_plain (
     ''%bdeposit%b%s*[:%-]?%s*(?:rs%.?|%u20B9)?%s*'' @
     ''([%d,.]+)(?:%s*(lac|lakh|lacs|k|cr|crore|thousand|months?|mo))?'')"

definition combined_deposit_re :: pattern where
  "combined_deposit_re = rx_plain (
     ''([%d,.]+)%s*(lac|lakh|lacs|k|cr|crore|thousand)?%s*[+/&/]%s*'' @
     ''([%d,.]+)%s*(lac|lakh|lacs|k|cr|crore|thousand|months?|mo)?'')"

definition month_range_re :: pattern where
  "month_range_re = rx_plain ''(%d+(?:%.%d+)?)%s*[-%u2013]%s*(%d+(?:%.%d+)?)%s*months?''"

text \<open>An amount and a number of months; both readings of the text write to them.\<close>

type_synonym deposit = "pyfloat option \<times> pyfloat option"

definition deposit_price :: "pyfloat \<Rightarrow> string \<Rightarrow> priced_as result" where
  "deposit_price v unit =
     price_from_ai_and_raw (VDict
       [(''amount'', VFloat v), (''unit'', VStr unit),
        (''raw_price_text'', VStr (strip (float_repr v @ '' '' @ unit)))])"

definition read_deposit :: "string \<Rightarrow> string \<Rightarrow> deposit \<Rightarrow> deposit result" where
  "read_deposit digits unit0 dep =
     (case safe_float (VStr digits) of
        None \<Rightarrow> Inr dep
      | Some v \<Rightarrow>
          (let unit = rstrip_chars ''s'' unit0 in
           if unit \<in> {''month'', ''mo''} \<or> unit = [] \<and> fle v (Fin 12) then Inr (fst dep, Some v)
           else bindE (deposit_price v unit) (\<lambda>p. Inr (fst p, snd dep))))"

definition read_groups :: "pattern \<Rightarrow> nat \<Rightarrow> nat \<Rightarrow> string \<Rightarrow> deposit \<Rightarrow> deposit result" where
  "read_groups p i j s dep =
     (case re_search p s of None \<Rightarrow> Inr dep | Some m \<Rightarrow> read_deposit (group_or [] i m) (group_or [] j m) dep)"

definition mean_months :: "string \<Rightarrow> pyfloat option" where
  "mean_months s =
     (case re_search month_range_re s of
        None \<Rightarrow> None
      | Some m \<Rightarrow>
          (case (parse_float (group_or [] 1 m), parse_float (group_or [] 2 m)) of
             (Some a, Some b) \<Rightarrow> Some (fdiv (fadd a b) (Fin 2))
           | _ \<Rightarrow> None))"

definition float_or_none :: "pyfloat option \<Rightarrow> pyval" where
  "float_or_none x = (case x of Some f \<Rightarrow> VFloat f | None \<Rightarrow> VNone)"

definition deposit_total :: "pyfloat option \<Rightarrow> deposit \<Rightarrow> pyfloat option" where
  "deposit_total monthly_rent dep =
     (case (fst dep, snd dep, monthly_rent) of
        (None, Some months, Some rent) \<Rightarrow> Some (fmul rent months)
      | _ \<Rightarrow> fst dep)"

definition deposit_fields :: "string \<Rightarrow> pyfloat option \<Rightarrow> deposit \<Rightarrow> bool \<Rightarrow> pydict" where
  "deposit_fields raw monthly_rent dep review =
     [(''deposit_amount'', float_or_none (deposit_total monthly_rent dep)),
      (''deposit_months'', float_or_none (snd dep)),
      (''deposit_applicable'', VBool True), (''deposit_raw_text'', VStr (strip raw))] @
     (if review then [(''needs_review'', VBool True)] else [])"

definition parse_deposit :: "string \<Rightarrow> pyfloat option \<Rightarrow> pydict result" where
  "parse_deposit raw monthly_rent =
     (let s = lower raw in
      if \<not> re_found deposit_cue_re s then Inr []
      else
        bindE (read_groups labelled_deposit_re 1 2 s (None, None)) (\<lambda>dep1.
        bindE (read_groups combined_deposit_re 3 4 s dep1) (\<lambda>dep2.
          case mean_months s of
            Some x \<Rightarrow> Inr (deposit_fields raw monthly_rent (fst dep2, Some x) True)
          | None \<Rightarrow> Inr (deposit_fields raw monthly_rent dep2 False))))"

section \<open>The quote of the source decides\<close>

lemma price_to_rupees_VFloat [simp]:
  "price_to_rupees (VFloat x) u =
     Inr (Some (fmul x (fint (case map_of unit_multipliers (clean_lower u) of Some k \<Rightarrow> k | None \<Rightarrow> 1))))"
  by (simp add: price_to_rupees_def Let_def)

lemma canonical_price_None [simp]: "canonical_price_rupees v u None = price_to_rupees v u"
proof -
  have "parse_explicit_price None = None" by code_simp
  then show ?thesis by (simp add: canonical_price_rupees_def)
qed

lemmas price_cases = price_from_ai_and_raw_def quoted_abs_def as_abs_def Let_def

lemma price_from_ai_and_raw_total: "\<exists>p. price_from_ai_and_raw info = Inr p"
  by (simp add: price_cases split: pyval.splits option.splits)

text \<open>
  An explicit quote decides the price alone: two answers of the model with the same quoted text, whatever their
  amounts and units, give the same price in rupees, unless the text says that the amount is a rate per square
  foot and an answer has that unit.
\<close>

theorem quote_overrides_amount:
  assumes "parse_explicit_price (Some (strip (str_or (dget d ''raw_price_text'')))) = Some q"
    and "dget d' ''raw_price_text'' = dget d ''raw_price_text''"
    and "safe_float (dget d ''amount'') \<noteq> None" and "safe_float (dget d' ''amount'') \<noteq> None"
    and "re_found psf_wording_re (strip (str_or (dget d ''raw_price_text''))) \<Longrightarrow>
           clean_lower (dget d ''unit'') \<notin> set psf_units \<and> clean_lower (dget d' ''unit'') \<notin> set psf_units"
  shows "price_from_ai_and_raw (VDict d) = price_from_ai_and_raw (VDict d') \<and>
    (\<exists>p. price_from_ai_and_raw (VDict d) = Inr (Some p, Some ''abs''))"
  using assms by (auto simp: price_cases)

theorem quote_overrides_amount_witness:
  "price_from_ai_and_raw (VDict [(''amount'', VInt 425), (''raw_price_text'', VStr ''4.25 cr'')]) =
   price_from_ai_and_raw (VDict [(''amount'', VInt 40), (''unit'', VStr ''psf''), (''raw_price_text'', VStr ''4.25 cr'')])"
proof -
  have q: "parse_explicit_price (Some (strip (str_or (dget [(''amount'', VInt 425), (''raw_price_text'', VStr ''4.25 cr'')]
      ''raw_price_text'')))) = Some (flit (425 / 100), ''cr'')" by code_simp
  have a: "safe_float (dget [(''amount'', VInt 425), (''raw_price_text'', VStr ''4.25 cr'')] ''amount'') \<noteq> None"
    "safe_float (dget [(''amount'', VInt 40), (''unit'', VStr ''psf''), (''raw_price_text'', VStr ''4.25 cr'')] ''amount'') \<noteq> None"
    by code_simp+
  have n: "\<not> re_found psf_wording_re (strip (str_or (dget [(''amount'', VInt 425), (''raw_price_text'', VStr ''4.25 cr'')]
      ''raw_price_text'')))" by code_simp
  show ?thesis by (rule quote_overrides_amount [OF q _ a, THEN conjunct1]) (use n in \<open>simp_all add: dget_def\<close>)
qed

section \<open>Deposits never fail\<close>

lemma read_deposit_total: "\<exists>dep'. read_deposit digits unit dep = Inr dep'"
proof (cases "safe_float (VStr digits)")
  case (Some v)
  obtain p where "deposit_price v (rstrip_chars ''s'' unit) = Inr p"
    unfolding deposit_price_def using price_from_ai_and_raw_total by blast
  with Some show ?thesis by (auto simp: read_deposit_def Let_def)
qed (simp add: read_deposit_def)

lemma read_groups_total: "\<exists>dep'. read_groups p i j s dep = Inr dep'"
  by (cases "re_search p s") (simp_all add: read_groups_def read_deposit_total del: split_paired_Ex)

text \<open>
  Reading the deposit of any message returns: nothing without a cue; otherwise the deposit applies, its text is
  the message, a number of months has an amount as soon as the rent is known, and it is marked for review exactly
  when the text gives a range of months.
\<close>

theorem parse_deposit_total:
  "\<exists>out. parse_deposit raw monthly_rent = Inr out \<and>
     (if re_found deposit_cue_re (lower raw) then
        dget out ''deposit_applicable'' = VBool True \<and> dget out ''deposit_raw_text'' = VStr (strip raw) \<and>
        (dget out ''deposit_amount'' = VNone \<longrightarrow> dget out ''deposit_months'' = VNone \<or> monthly_rent = None) \<and>
        dhas out ''needs_review'' = (mean_months (lower raw) \<noteq> None)
      else out = [])"
proof (cases "re_found deposit_cue_re (lower raw)")
  case True
  obtain dep1 where 1: "read_groups labelled_deposit_re 1 2 (lower raw) (None, None) = Inr dep1"
    using read_groups_total by blast
  obtain dep2 where 2: "read_groups combined_deposit_re 3 4 (lower raw) dep1 = Inr dep2"
    using read_groups_total by blast
  define dep where "dep = (case mean_months (lower raw) of Some x \<Rightarrow> (fst dep2, Some x) | None \<Rightarrow> dep2)"
  have e: "parse_deposit raw monthly_rent = Inr (deposit_fields raw monthly_rent dep (mean_months (lower raw) \<noteq> None))"
    using True by (simp add: parse_deposit_def Let_def 1 [unfolded One_nat_def] 2 dep_def split: option.splits)
  have "deposit_total monthly_rent dep = None \<Longrightarrow> snd dep = None \<or> monthly_rent = None"
    by (auto simp: deposit_total_def split: option.splits)
  with True show ?thesis
    by (auto simp: e deposit_fields_def dget_def dhas_def float_or_none_def split: option.splits)
qed (simp add: parse_deposit_def)

text \<open>A pair of numbers with a slash is read as a deposit, with no word about one.\<close>

lemma slash_is_deposit:
  "parse_deposit ''2/3 bhk on rent'' (Some (Fin 50000)) =
     Inr [(''deposit_amount'', VFloat (Fin 150000)), (''deposit_months'', VFloat (Fin 3)),
          (''deposit_applicable'', VBool True), (''deposit_raw_text'', VStr ''2/3 bhk on rent'')]"
  by code_simp

text \<open>The amount gives back its last digit when a letter follows it.\<close>

lemma jammed_rent_loses_digit:
  "source_rent_price_value ''rent 60000pm'' = Inr (Some (Fin 6000))"
  "source_attached_price (Some ''flat on rent 60000pm'') (Some ''rent'') False =
     Inr (Some (Some (Fin 6000), ''rent 6000'', ''abs''))"
  by code_simp+

lemma misspelt_unit_is_rupees: "parse_raw_price_to_abs ''5 la'' = Inr (Some (Fin 5))"
  by code_simp

section \<open>The period of a rent\<close>

lemma rental_period_frame: "k \<noteq> ''period'' \<Longrightarrow> dget (source_ground_rental_period info source l t) k = dget info k"
  by (simp add: source_ground_rental_period_def)

lemma rental_period_once:
  "source_ground_rental_period (source_ground_rental_period info source l t) source l t =
   source_ground_rental_period info source l t"
  by (auto simp: source_ground_rental_period_def)

end
