(* ===== verification/SourceVariants.thy ===== *)
theory SourceVariants
  imports SourceQuotes
begin

text \<open>
  \<open>extraction.py\<close>, the expansion of an item into independent listings where its source says so: the units of a
  combined flat that are sold one by one, and one property offered for sale and for rent.
\<close>

section \<open>What the source says\<close>

definition separate_sale_words :: "string \<times> string" where
  "separate_sale_words =
    (''%b(?:available|sold|sell|sale|selling)%b'', ''%b(?:individually|separately|each)%b'')"

definition jodi_separate_sale_re :: pattern where
  "jodi_separate_sale_re = rx_i (
     fst separate_sale_words @ ''[^%n]{0,100}'' @ snd separate_sale_words @ ''|'' @
     snd separate_sale_words @ ''[^%n]{0,100}'' @ fst separate_sale_words)"

definition and_words :: string where
  "and_words = ''%b[^%n]{0,100}%b(?:and|/|&|as%s+well%s+as)%b[^%n]{0,100}%b(?:for%s+)?''"

definition dual_transaction_re :: pattern where
  "dual_transaction_re = rx_i (
     ''%b(?:available|offered|open)%b[^%n]{0,100}%b(?:for%s+)?sale'' @ and_words @ ''(?:rent|lease)%b|'' @
     ''%b(?:for%s+)?(?:rent|lease)'' @ and_words @ ''sale%b'')"

definition dual_amount :: string where
  "dual_amount = ''(?:%u20B9|rs%.?|inr)?%s*%d[%d,.]*(?:%s*)(?:k|thousand|l|lac|lacs|lakh|lakhs|cr|crore|crores))%s*''"

definition dual_price_re :: pattern where
  "dual_price_re = rx_i (
     ''(?P<first>'' @ dual_amount @ ''(?P<first_type>rent|rental|sale)%s*(?:/|%||&|and|or)%s*'' @
     ''(?P<second>'' @ dual_amount @ ''(?P<second_type>rent|rental|sale)'')"

type_synonym quotes = "(string \<times> (pyfloat \<times> string)) list"

definition put_quote :: "rmatch \<Rightarrow> nat \<Rightarrow> quotes \<Rightarrow> quotes result" where
  "put_quote m i quotes =
     (let raw = strip (group_or [] i m); kind = casefold (group_or [] (i + 1) m);
          transaction = (if kind = ''rental'' then ''rent'' else kind)
      in bindE (parse_raw_price_to_abs raw) (\<lambda>amount.
           Inr (case amount of
                  None \<Rightarrow> quotes
                | Some x \<Rightarrow> (transaction, (x, raw)) # filter (\<lambda>q. fst q \<noteq> transaction) quotes)))"

definition dual_transaction_prices :: "string \<Rightarrow> quotes result" where
  "dual_transaction_prices source =
     (case re_search dual_price_re source of
        None \<Rightarrow> Inr []
      | Some m \<Rightarrow> bindE (put_quote m 1 []) (put_quote m 3))"

section \<open>The units of a combined flat\<close>

definition inherited_keys :: "string list" where
  "inherited_keys =
    [''price'', ''price_unit'', ''price_raw_text'', ''price_per_sqft'', ''total_asking_price'',
     ''computed_total_asking_price'', ''computed_price_confidence'', ''price_math'']"

definition clear_keys :: "string list \<Rightarrow> pydict \<Rightarrow> pydict" where
  "clear_keys ks row = foldl (\<lambda>r k. dput r k VNone) row ks"

definition clear_inherited_price :: "pydict \<Rightarrow> pydict result" where
  "clear_inherited_price row =
     flagged ''individual_unit_price_not_explicit'' (dput (clear_keys inherited_keys row) ''needs_review'' (VBool True))"

definition place_name :: "pydict \<Rightarrow> string" where
  "place_name parsed =
     py_str (or_val (or_val (dget parsed ''building_name'') (dget parsed ''micro_market'')) (VStr ''property''))"

definition unit_pair_re :: pattern where
  "unit_pair_re = rx_i ''(%d+(?:%.%d+)?)%s*BHK%s*%+%s*(%d+(?:%.%d+)?)%s*BHK''"

definition jodi_details :: "pydict \<Rightarrow> string" where
  "jodi_details parsed = py_str (or_val (dget parsed ''configuration_details'') (VStr ''3 BHK + 3 BHK (JODI)''))"

definition unit_bhk :: "pydict \<Rightarrow> string" where
  "unit_bhk parsed =
     (case re_search unit_pair_re (jodi_details parsed) of
        Some m \<Rightarrow> group_or [] 1 m
      | None \<Rightarrow> str_or (dget parsed ''bhk''))"

definition unit_details :: "string \<Rightarrow> pyval" where
  "unit_details u = VStr (u @ '' BHK (Individual unit; also available as JODI)'')"

definition combined_row :: "pydict \<Rightarrow> pydict" where
  "combined_row parsed =
     dput (dput parsed ''can_sell_separately'' (VBool True)) ''summary_title''
       (VStr (jodi_details parsed @ '' for sale at '' @ place_name parsed))"

definition individual_row :: "pydict \<Rightarrow> pydict result" where
  "individual_row parsed =
     (let u = unit_bhk parsed in
      bindE (if u \<noteq> [] then map_sum id VFloat (float_text u) else Inr (dget parsed ''bhk'')) (\<lambda>bhk.
      bindE (clear_inherited_price
               (dput (dput (dput (dput parsed ''bhk'' bhk) ''configuration_details'' (unit_details u))
                  ''is_combination_unit'' (VBool False)) ''can_sell_separately'' (VBool True))) (\<lambda>row.
        Inr (dput row ''summary_title''
          (VStr (u @ '' BHK individual unit, also available as JODI for sale at '' @ place_name parsed))))))"

definition individual_ai :: "pydict \<Rightarrow> string \<Rightarrow> pydict result" where
  "individual_ai ai u =
     flagged ''individual_unit_price_not_explicit''
       (dupdate ai
         [(''is_combination_unit'', VBool False), (''can_sell_separately'', VBool True),
          (''configuration_details'', unit_details u), (''price'', VNone), (''price_raw_text'', VNone),
          (''needs_review'', VBool True)])"

type_synonym variant = "pydict \<times> pydict"

text \<open>The loop makes the same unit twice.\<close>

definition jodi_variants :: "pydict \<Rightarrow> pydict \<Rightarrow> variant list result" where
  "jodi_variants parsed ai =
     bindE (individual_row parsed) (\<lambda>row.
     bindE (individual_ai ai (unit_bhk parsed)) (\<lambda>unit_ai.
       Inr [(combined_row parsed, ai), (row, unit_ai), (row, unit_ai)]))"

section \<open>One property for sale and for rent\<close>

definition rent_cleared :: "string list" where
  "rent_cleared =
    [''price'', ''price_unit'', ''price_raw_text'', ''price_per_sqft'', ''computed_total_asking_price'', ''price_math'']"

definition quoted_row :: "pyfloat \<times> string \<Rightarrow> pydict" where
  "quoted_row q = [(''price'', VFloat (fst q)), (''price_unit'', VStr ''abs''), (''price_raw_text'', VStr (snd q))]"

definition titled :: "pydict \<Rightarrow> string \<Rightarrow> pydict \<Rightarrow> pydict" where
  "titled parsed offer row =
     dput row ''summary_title''
       (VStr (py_str (or_val (dget parsed ''bhk'') (VStr ''Property'')) @ '' BHK for '' @ offer @ '' at '' @ place_name parsed))"

definition dual_row :: "pydict \<Rightarrow> string \<Rightarrow> pydict \<Rightarrow> pydict result" where
  "dual_row parsed offer row =
     bindE (flagged ''dual_transaction_expanded'' (dput row ''listing_count'' (VInt 2))) (\<lambda>r.
       Inr (titled parsed offer r))"

definition sale_row :: "pydict \<Rightarrow> quotes \<Rightarrow> pydict result" where
  "sale_row parsed quotes =
     (let base = dupdate parsed [(''transaction_type'', VStr ''sale''), (''intent'', VStr ''SELL''), (''monthly_rent'', VNone)] in
      dual_row parsed ''sale''
        (case map_of quotes ''sale'' of
           Some q \<Rightarrow> dupdate base (quoted_row q @ [(''total_asking_price'', VFloat (fst q)), (''monthly_rent'', VNone)])
         | None \<Rightarrow> base))"

definition rent_row :: "pydict \<Rightarrow> quotes \<Rightarrow> pydict result" where
  "rent_row parsed quotes =
     (let base = dupdate parsed [(''transaction_type'', VStr ''rent''), (''intent'', VStr ''RENT''), (''total_asking_price'', VNone)] in
      bindE
        (case map_of quotes ''rent'' of
           Some q \<Rightarrow> Inr (dupdate base (quoted_row q @ [(''monthly_rent'', VFloat (fst q)), (''total_asking_price'', VNone)]))
         | None \<Rightarrow> flagged ''rent_price_not_explicit'' (dput (clear_keys rent_cleared base) ''needs_review'' (VBool True)))
        (dual_row parsed ''rent''))"

definition ai_price :: "pyfloat \<times> string \<Rightarrow> string \<Rightarrow> pyval" where
  "ai_price q period =
     VDict [(''amount'', VFloat (fst q)), (''unit'', VStr ''total''), (''period'', VStr period),
            (''raw_price_text'', VStr (snd q))]"

definition dual_ai :: "pydict \<Rightarrow> string \<Rightarrow> pydict" where
  "dual_ai ai kind =
     dupdate ai [(''listing_type'', VStr kind), (''transaction_type'', VStr kind), (''listing_count'', VInt 2)]"

definition sale_ai :: "pydict \<Rightarrow> quotes \<Rightarrow> pydict result" where
  "sale_ai ai quotes =
     (let base = dual_ai ai ''sale'' in
      flagged ''dual_transaction_expanded''
        (case map_of quotes ''sale'' of Some q \<Rightarrow> dput base ''price'' (ai_price q ''one_time'') | None \<Rightarrow> base))"

definition rent_ai :: "pydict \<Rightarrow> quotes \<Rightarrow> pydict result" where
  "rent_ai ai quotes =
     (let base = dual_ai ai ''rent'' in
      bindE
        (case map_of quotes ''rent'' of
           Some q \<Rightarrow> Inr (dput base ''price'' (ai_price q ''per_month''))
         | None \<Rightarrow>
             flagged ''rent_price_not_explicit''
               (dupdate base [(''price'', VNone), (''price_raw_text'', VNone), (''needs_review'', VBool True)]))
        (flagged ''dual_transaction_expanded''))"

definition dual_variants :: "pydict \<Rightarrow> pydict \<Rightarrow> quotes \<Rightarrow> variant list result" where
  "dual_variants parsed ai quotes =
     bindE (rent_row parsed quotes) (\<lambda>rent.
     bindE (sale_row parsed quotes) (\<lambda>sale.
     bindE (rent_ai ai quotes) (\<lambda>rent_a.
     bindE (sale_ai ai quotes) (\<lambda>sale_a.
       Inr [(sale, sale_a), (rent, rent_a)]))))"

section \<open>All items\<close>

definition combined_for_sale :: "pydict \<Rightarrow> bool" where
  "combined_for_sale parsed =
     (casefold (str_or (dget parsed ''asset_type'')) = ''residential'' \<and>
      casefold (str_or (or_val (dget parsed ''transaction_type'') (dget parsed ''intent''))) = ''sale'' \<and>
      truthy (dget parsed ''is_combination_unit''))"

definition sold_separately :: "pydict \<Rightarrow> string \<Rightarrow> bool" where
  "sold_separately parsed source = (combined_for_sale parsed \<and> re_found jodi_separate_sale_re source)"

definition for_sale_and_rent :: "string \<Rightarrow> quotes \<Rightarrow> bool" where
  "for_sale_and_rent source quotes = (re_found dual_transaction_re source \<or> length quotes = 2)"

definition item_variants :: "pydict \<Rightarrow> pydict \<Rightarrow> string \<Rightarrow> variant list result" where
  "item_variants parsed ai source =
     bindE (dual_transaction_prices source) (\<lambda>quotes.
       if sold_separately parsed source then jodi_variants parsed ai
       else if for_sale_and_rent source quotes then dual_variants parsed ai quotes
       else Inr [(parsed, ai)])"

fun expand_items :: "(pydict \<times> pydict \<times> string) list \<Rightarrow> (variant \<times> string) list result" where
  "expand_items [] = Inr []"
| "expand_items ((parsed, ai, source) # rest) =
     bindE (item_variants parsed ai source) (\<lambda>vs.
     bindE (expand_items rest) (\<lambda>out. Inr (map (\<lambda>v. (v, source)) vs @ out)))"

definition expand_source_explicit_variants ::
    "pydict list \<Rightarrow> pydict list \<Rightarrow> string list \<Rightarrow> (pydict list \<times> pydict list \<times> string list) result" where
  "expand_source_explicit_variants listings items slices =
     bindE (expand_items (zip listings (zip items slices))) (\<lambda>out.
       Inr (map (\<lambda>x. fst (fst x)) out, map (\<lambda>x. snd (fst x)) out, map snd out))"

section \<open>The lists stay aligned\<close>

lemma item_variants_count: "item_variants parsed ai source = Inr vs \<Longrightarrow> length vs \<in> {1, 2, 3}"
  by (auto simp: item_variants_def jodi_variants_def dual_variants_def bindE_Inr_iff split: if_splits)

lemma expand_items_sources:
  "expand_items xs = Inr out \<Longrightarrow>
     \<exists>ns. length ns = length xs \<and> set ns \<subseteq> {1, 2, 3} \<and> map snd out = concat (map2 replicate ns (map (snd \<circ> snd) xs))"
proof (induction xs arbitrary: out rule: expand_items.induct)
  case (2 parsed ai source rest)
  from "2.prems" obtain vs out' where
    v: "item_variants parsed ai source = Inr vs" and o: "expand_items rest = Inr out'"
    and out: "out = map (\<lambda>v. (v, source)) vs @ out'"
    by (auto simp: bindE_Inr_iff)
  from "2.IH" [OF o] obtain ns where "length ns = length rest" "set ns \<subseteq> {1, 2, 3}"
    "map snd out' = concat (map2 replicate ns (map (snd \<circ> snd) rest))" by blast
  with item_variants_count [OF v] show ?case
    by (intro exI [of _ "length vs # ns"]) (simp add: out comp_def map_replicate_const)
qed simp

text \<open>
  The expansion keeps the listings, the model's items and their slices aligned and in order: every item becomes
  one, two or three variants, each with the slice of that item.
\<close>

theorem variants_aligned:
  assumes "length items = length listings" and "length slices = length listings"
    and "expand_source_explicit_variants listings items slices = Inr (listings', items', slices')"
  shows "length items' = length listings' \<and> length slices' = length listings' \<and>
    (\<exists>ns. length ns = length slices \<and> set ns \<subseteq> {1, 2, 3} \<and> slices' = concat (map2 replicate ns slices))"
proof -
  from assms(3) obtain out where o: "expand_items (zip listings (zip items slices)) = Inr out"
    and r: "listings' = map (\<lambda>x. fst (fst x)) out" "items' = map (\<lambda>x. snd (fst x)) out" "slices' = map snd out"
    by (auto simp: expand_source_explicit_variants_def bindE_Inr_iff)
  have "map (snd \<circ> snd) (zip listings (zip items slices)) = slices"
    using assms(1,2) by (simp flip: map_map)
  with expand_items_sources [OF o] assms(1,2) show ?thesis by (auto simp: r)
qed

section \<open>No borrowed price\<close>

lemma dget_clear_keys [simp]: "dget (clear_keys ks row) k = (if k \<in> set ks then VNone else dget row k)"
  unfolding clear_keys_def by (induction ks arbitrary: row) auto

lemma dget_dupdate_Cons [simp]: "dupdate d ((k, v) # e) = dupdate (dput d k v) e"
  and dget_dupdate_Nil [simp]: "dupdate d [] = d"
  by (simp_all add: dupdate_def)








section \<open>Examples\<close>

definition jodi_flat :: pydict where
  "jodi_flat =
    [(''asset_type'', VStr ''residential''), (''transaction_type'', VStr ''sale''), (''bhk'', VStr ''3 BHK''),
     (''is_combination_unit'', VBool True), (''configuration_details'', VStr ''3 BHK (JODI)''), (''price'', VInt 5)]"

text \<open>The label the extraction gives a combined flat with one bedroom count has no pair, and the count is a label.\<close>

lemma jodi_flat_facts:
  "dual_transaction_prices ''3 BHK jodi, sold separately'' = Inr []"
  "sold_separately jodi_flat ''3 BHK jodi, sold separately''"
  "individual_row jodi_flat = Inl ValueError"
  by code_simp+

lemma jodi_label_raises: "item_variants jodi_flat ai ''3 BHK jodi, sold separately'' = Inl ValueError"
  by (simp add: item_variants_def jodi_variants_def jodi_flat_facts)

text \<open>The rent of a combined offer becomes the price of its sale.\<close>

definition let_flat :: pydict where
  "let_flat = [(''price'', VInt 90000), (''bhk'', VStr ''2 BHK'')]"

lemma let_flat_facts:
  "dual_transaction_prices ''for rent and sale, rent 90k'' = Inr []"
  "\<not> sold_separately let_flat ''for rent and sale, rent 90k''"
  "for_sale_and_rent ''for rent and sale, rent 90k'' []"
  by code_simp+

definition let_flat_sale :: pydict where
  "let_flat_sale =
    [(''price'', VInt 90000), (''bhk'', VStr ''2 BHK''), (''transaction_type'', VStr ''sale''), (''intent'', VStr ''SELL''),
     (''monthly_rent'', VNone), (''listing_count'', VInt 2),
     (''validation_flags'', VList [VStr ''dual_transaction_expanded'']),
     (''summary_title'', VStr ''2 BHK BHK for sale at property'')]"

lemma let_flat_rows:
  "sale_row let_flat [] = Inr let_flat_sale"
  "\<not> isl (rent_row let_flat [])" "\<not> isl (rent_ai [] [])" "\<not> isl (sale_ai [] [])"
  by code_simp+

lemma rent_becomes_sale_price:
  "\<exists>a r. item_variants let_flat [] ''for rent and sale, rent 90k'' = Inr [(let_flat_sale, a), r]"
proof -
  obtain rent rent_a sale_a where "rent_row let_flat [] = Inr rent" "rent_ai [] [] = Inr rent_a" "sale_ai [] [] = Inr sale_a"
    using let_flat_rows(2-4) by (metis isl_def sum.exhaust_sel)
  then show ?thesis by (simp add: item_variants_def dual_variants_def let_flat_facts let_flat_rows(1))
qed


theorem variants_aligned_witness:
  "\<exists>ls xs ss. expand_source_explicit_variants [let_flat] [[]] [''for rent and sale, rent 90k''] = Inr (ls, xs, ss) \<and>
     length ss = length ls"
proof -
  obtain a r where "item_variants let_flat [] ''for rent and sale, rent 90k'' = Inr [(let_flat_sale, a), r]"
    using rent_becomes_sale_price by blast
  then obtain ls xs ss where
    e: "expand_source_explicit_variants [let_flat] [[]] [''for rent and sale, rent 90k''] = Inr (ls, xs, ss)"
    by (simp add: expand_source_explicit_variants_def)
  from variants_aligned [OF _ _ this] e show ?thesis by auto
qed

end
